(* ===== verification/Prelude.thy ===== *)
theory Prelude
  imports Main "HOL-Library.Word"
begin

text \<open>
  Shared vocabulary of the development: the machine integers and error codes of the firmware,
  C strings and \<open>snprintf\<close>, decimal and hexadecimal printing, the collections of hints the
  component theories add to, and two interfaces used by several components (a run of a
  transition function that keeps an invariant, and a bounded log).
\<close>

unbundle bit_operations_syntax

section \<open>Types\<close>

type_synonym u8 = "8 word"
type_synonym u16 = "16 word"
type_synonym u32 = "32 word"
type_synonym u64 = "64 word"

text \<open>
  The \<open>esp_err_t\<close> codes the firmware names; every other code of a third-party component is
  \<open>ESP_ERR_OTHER\<close>.
\<close>

datatype esp_err =
    ESP_OK
  | ESP_FAIL
  | ESP_ERR_NO_MEM
  | ESP_ERR_INVALID_ARG
  | ESP_ERR_INVALID_STATE
  | ESP_ERR_INVALID_SIZE
  | ESP_ERR_NOT_FOUND
  | ESP_ERR_NOT_SUPPORTED
  | ESP_ERR_TIMEOUT
  | ESP_ERR_NVS_NOT_FOUND
  | ESP_ERR_NVS_NO_FREE_PAGES
  | ESP_ERR_NVS_NEW_VERSION_FOUND
  | MEB_ERR_OTA_CHECKSUM
  | MEB_ERR_OTA_PROTOCOL
  | ESP_ERR_OTHER int

lemma word_mod_small: "(x :: 'a :: len word) < y \<Longrightarrow> x mod y = x"
  by (simp add: word_unat_eq_iff unat_mod word_less_nat_alt)

lemma uint_max_u32 [simp]: "uint (- 1 :: u32) = 4294967295"
  by (simp add: unsigned_minus_1_eq_mask mask_eq_exp_minus_1)

lemma unat_max_u32 [simp]: "unat (- 1 :: u32) = 4294967295"
  by (simp add: unsigned_minus_1_eq_mask mask_eq_exp_minus_1)

lemma word_of_unat: "unat x = n \<Longrightarrow> x = of_nat n"
  by auto

lemma list_update_last: "length xs = Suc n \<Longrightarrow> xs[n := x] = take n xs @ [x]"
  by (simp add: upd_conv_take_nth_drop)

lemma push_or:
  fixes a b :: int
  assumes "0 \<le> b" "b < 2 ^ n"
  shows "push_bit n a OR b = a * 2 ^ n + b"
proof -
  have "push_bit n a AND b = 0"
  proof (rule bit_eqI)
    fix k
    have "take_bit n b = b" using assms by (simp add: take_bit_int_eq_self)
    then have "bit b k \<Longrightarrow> k < n" by (metis bit_take_bit_iff)
    then show "bit (push_bit n a AND b) k = bit 0 k"
      by (auto simp: bit_and_iff bit_push_bit_iff)
  qed
  then have "push_bit n a + b = push_bit n a OR b" by (rule disjunctive_add_eq_or)
  then show ?thesis by (simp add: push_bit_eq_mult)
qed

lemma u8_bound: "uint (x :: u8) < 256" "0 \<le> uint x"
  using uint_lt2p [of x] by simp_all

lemma unat_u32_bound: "unat (x :: u32) < 4294967296"
  using unsigned_less [of x, where ?'a = nat] by simp

section \<open>Collections of hints\<close>

named_theorems frame_simps \<open>what an operation leaves unchanged\<close>
named_theorems inv_intros \<open>an operation keeps the invariant of its component\<close>
named_theorems scan_simps \<open>evaluation of the text scanners\<close>

section \<open>C strings\<close>

text \<open>
  A C string is the part of a character array before the first NUL. A pointer into a string is
  the rest of the string from there; \<open>deref\<close> reads the character it points to.
\<close>

definition NUL :: char where
  "NUL = CHR 0x00"

definition c_str :: "string \<Rightarrow> string" where
  "c_str s = takeWhile (\<lambda>c. c \<noteq> NUL) s"

fun deref :: "string \<Rightarrow> char" where
  "deref [] = NUL"
| "deref (c # cs) = c"

text \<open>\<open>snprintf n s\<close> is what a buffer of \<open>n\<close> bytes holds after \<open>s\<close> is printed into it.\<close>

definition snprintf :: "nat \<Rightarrow> string \<Rightarrow> string" where
  "snprintf n s = take (n - 1) s"

lemma c_str_no_NUL [simp]: "NUL \<notin> set (c_str s)"
  by (induction s) (auto simp: c_str_def)

lemma c_str_id [simp]: "NUL \<notin> set s \<Longrightarrow> c_str s = s"
  by (simp add: c_str_def takeWhile_eq_all_conv) blast

lemma c_str_length: "length (c_str s) \<le> length s"
  by (simp add: c_str_def length_takeWhile_le)

lemma take_c_str: "NUL \<notin> set (take k s) \<Longrightarrow> take k s = take k (c_str s)"
  by (induction s arbitrary: k) (auto simp: c_str_def take_Cons split: nat.splits)

lemma snprintf_length: "0 < n \<Longrightarrow> length (snprintf n s) < n"
  by (auto simp: snprintf_def)

lemma snprintf_fits [simp]: "length s < n \<Longrightarrow> snprintf n s = s"
  by (simp add: snprintf_def)

lemma snprintf_idem [simp]: "snprintf n (snprintf n s) = snprintf n s"
  by (simp add: snprintf_def)

section \<open>Printing numbers\<close>

definition digit_char :: "nat \<Rightarrow> char" where
  "digit_char d = char_of (if d < 10 then 48 + d else 55 + d)"

fun print_base :: "nat \<Rightarrow> nat \<Rightarrow> string" where
  "print_base b n =
     (if b < 2 \<or> n < b then [digit_char n]
      else print_base b (n div b) @ [digit_char (n mod b)])"

declare print_base.simps [simp del]

text \<open>\<open>%u\<close>, \<open>%PRIu32\<close>, \<open>%PRIu64\<close> and, for a signed value, \<open>%d\<close>; \<open>%PRIX32\<close> is the last one.\<close>

definition print_dec :: "nat \<Rightarrow> string" where
  "print_dec n = print_base 10 n"

definition print_int :: "int \<Rightarrow> string" where
  "print_int i = (if i < 0 then CHR ''-'' # print_dec (nat (- i)) else print_dec (nat i))"

definition print_hex :: "nat \<Rightarrow> string" where
  "print_hex n = print_base 16 n"

lemma print_base_nonempty [simp]: "print_base b n \<noteq> []"
  by (subst print_base.simps) simp

lemma print_base_length:
  "2 \<le> b \<Longrightarrow> n < b ^ Suc k \<Longrightarrow> length (print_base b n) \<le> Suc k"
proof (induction k arbitrary: n)
  case 0
  then show ?case by (subst print_base.simps) simp
next
  case (Suc k)
  show ?case
  proof (cases "n < b")
    case True
    then show ?thesis by (subst print_base.simps) simp
  next
    case False
    have "n div b < b ^ Suc k"
      using Suc.prems by (simp add: less_mult_imp_div_less mult.commute)
    then have "length (print_base b (n div b)) \<le> Suc k"
      using Suc.IH Suc.prems by simp
    with False Suc.prems show ?thesis by (subst print_base.simps) simp
  qed
qed

lemma print_dec_u8: "length (print_dec (unat (x :: u8))) \<le> 3"
  unfolding print_dec_def using print_base_length [of 10 "unat x" 2] unsigned_less [of x, where ?'a = nat]
  by simp

lemma print_dec_u32: "length (print_dec (unat (x :: u32))) \<le> 10"
  unfolding print_dec_def using print_base_length [of 10 "unat x" 9] unsigned_less [of x, where ?'a = nat]
  by simp

lemma print_dec_u64: "length (print_dec (unat (x :: u64))) \<le> 20"
  unfolding print_dec_def using print_base_length [of 10 "unat x" 19] unsigned_less [of x, where ?'a = nat]
  by simp

section \<open>Calls in order\<close>

text \<open>
  A set-up step is a call with its answer: \<open>run_calls\<close> makes calls until one of them fails and
  returns the calls made.
\<close>

fun run_calls :: "('c \<Rightarrow> esp_err) \<Rightarrow> 'c list \<Rightarrow> esp_err \<times> 'c list" where
  "run_calls answer [] = (ESP_OK, [])"
| "run_calls answer (c # cs) =
     (if answer c \<noteq> ESP_OK then (answer c, [c])
      else let (err, made) = run_calls answer cs in (err, c # made))"

definition and_then :: "esp_err \<times> 'c list \<Rightarrow> esp_err \<times> 'c list \<Rightarrow> esp_err \<times> 'c list" where
  "and_then step1 step2 =
     (if fst step1 \<noteq> ESP_OK then step1 else (fst step2, snd step1 @ snd step2))"

lemma run_calls_ok: "fst (run_calls answer cs) = ESP_OK \<Longrightarrow> snd (run_calls answer cs) = cs"
  by (induction cs) (auto simp: Let_def split_beta split: if_splits)

lemma run_calls_append: "run_calls answer (xs @ ys) = and_then (run_calls answer xs) (run_calls answer ys)"
  by (induction xs) (auto simp: and_then_def Let_def split_beta)

lemma run_calls_all: "(fst (run_calls answer cs) = ESP_OK) = list_all (\<lambda>c. answer c = ESP_OK) cs"
  by (induction cs) (auto simp: Let_def split_beta)

section \<open>Runs of a transition function\<close>

text \<open>
  A component with a state and a function that performs one event: what the initial states
  satisfy and every admissible event keeps holds after every sequence of such events.
\<close>

locale step_system =
  fixes init :: "'s \<Rightarrow> bool"
    and ok :: "'e \<Rightarrow> bool"
    and step :: "'e \<Rightarrow> 's \<Rightarrow> 's"
    and inv :: "'s \<Rightarrow> bool"
  assumes init_inv: "init s \<Longrightarrow> inv s"
    and step_inv: "inv s \<Longrightarrow> ok e \<Longrightarrow> inv (step e s)"
begin

lemma fold_inv: "inv s \<Longrightarrow> list_all ok es \<Longrightarrow> inv (fold step es s)"
  by (induction es arbitrary: s) (auto intro: step_inv)

lemma run_inv: "init s \<Longrightarrow> list_all ok es \<Longrightarrow> inv (fold step es s)"
  by (rule fold_inv) (rule init_inv)

end

section \<open>A bounded log\<close>

text \<open>The last \<open>c\<close> elements of a list.\<close>

definition last_part :: "nat \<Rightarrow> 'a list \<Rightarrow> 'a list" where
  "last_part c xs = drop (length xs - c) xs"

lemma last_part_length: "length (last_part c xs) \<le> c"
  by (simp add: last_part_def)

lemma length_last_part [simp]: "length (last_part c xs) = min c (length xs)"
  by (simp add: last_part_def)

lemma last_part_all [simp]: "length xs \<le> c \<Longrightarrow> last_part c xs = xs"
  by (simp add: last_part_def)

lemma last_part_append: "last_part c (last_part c xs @ ys) = last_part c (xs @ ys)"
proof (cases "length xs \<le> c")
  case True
  then show ?thesis by simp
next
  case False
  then have "drop (length ys) (last_part c xs @ ys) = drop (length ys + (length xs - c)) (xs @ ys)"
    by (simp add: last_part_def)
  moreover have "length ys + (length xs - c) = length (xs @ ys) - c"
    using False by simp
  ultimately show ?thesis
    using False by (simp add: last_part_def)
qed

text \<open>
  The promise of a log of fixed capacity: it shows the entries pushed last, oldest first.
\<close>

locale bounded_log =
  fixes start :: 's
    and push :: "'a \<Rightarrow> 's \<Rightarrow> 's"
    and entry :: "'a \<Rightarrow> 'b"
    and view :: "'s \<Rightarrow> 'b list"
    and cap :: nat
    and inv :: "'s \<Rightarrow> bool"
  assumes inv_start: "inv start"
    and view_start: "view start = []"
    and inv_push: "inv s \<Longrightarrow> inv (push x s)"
    and view_push: "inv s \<Longrightarrow> view (push x s) = last_part cap (view s @ [entry x])"
begin

lemma inv_pushes: "inv s \<Longrightarrow> inv (fold push xs s)"
  by (induction xs arbitrary: s) (auto intro: inv_push)

lemma view_pushes:
  "inv s \<Longrightarrow> length (view s) \<le> cap \<Longrightarrow>
     view (fold push xs s) = last_part cap (view s @ map entry xs)"
proof (induction xs arbitrary: s)
  case Nil
  then show ?case by simp
next
  case (Cons x xs)
  have step: "view (push x s) = last_part cap (view s @ [entry x])"
    using Cons.prems by (simp add: view_push)
  have "view (fold push xs (push x s)) = last_part cap (view (push x s) @ map entry xs)"
    by (rule Cons.IH) (use Cons.prems in \<open>auto simp: step intro: inv_push\<close>)
  then show ?case by (simp add: step last_part_append)
qed

lemma view_run: "view (fold push xs start) = last_part cap (map entry xs)"
  using view_pushes [OF inv_start, of xs] by (simp add: view_start)

end

section \<open>Refinement\<close>

text \<open>The outputs and the last state of a run.\<close>

fun run_outputs :: "('e \<Rightarrow> 's \<Rightarrow> 'o \<times> 's) \<Rightarrow> 'e list \<Rightarrow> 's \<Rightarrow> 'o list \<times> 's" where
  "run_outputs step [] s = ([], s)"
| "run_outputs step (e # es) s =
     (let (out, s1) = step e s; (outs, s2) = run_outputs step es s1 in (out # outs, s2))"

lemma run_outputs_append:
  "run_outputs step (es @ fs) s =
     (let (outs, s1) = run_outputs step es s; (outs', s2) = run_outputs step fs s1 in (outs @ outs', s2))"
  by (induction es arbitrary: s) (auto simp: Let_def split: prod.splits)

lemma run_outputs_length: "length (fst (run_outputs step es s)) = length es"
  by (induction es arbitrary: s) (simp_all add: Let_def split_beta)

text \<open>
  A detailed machine against an abstract one: on an admissible event related states give the same
  output and related states.
\<close>

locale simulation =
  fixes cstep :: "'e \<Rightarrow> 'c \<Rightarrow> 'o \<times> 'c"
    and astep :: "'e \<Rightarrow> 'a \<Rightarrow> 'o \<times> 'a"
    and ok :: "'e \<Rightarrow> bool"
    and rel :: "'c \<Rightarrow> 'a \<Rightarrow> bool"
  assumes sim: "rel c a \<Longrightarrow> ok e \<Longrightarrow>
      fst (cstep e c) = fst (astep e a) \<and> rel (snd (cstep e c)) (snd (astep e a))"
begin

lemma run_sim:
  "rel c a \<Longrightarrow> list_all ok es \<Longrightarrow>
     fst (run_outputs cstep es c) = fst (run_outputs astep es a)
     \<and> rel (snd (run_outputs cstep es c)) (snd (run_outputs astep es a))"
proof (induction es arbitrary: c a)
  case Nil
  then show ?case by simp
next
  case (Cons e es)
  then show ?case using sim [of c a e] by (auto simp: Let_def split_beta)
qed

end

end
