(* ===== verification/C_Double.thy ===== *)
theory C_Double
  imports Complex_Main "HOL-Library.Log_Nat" Prelude
begin

text \<open>
  The firmware's \<open>double\<close> values: every value it computes is a rational with a 53-bit
  significand far from the limits of the exponent, so a \<open>double\<close> is modelled by the rational
  it stands for and every operation rounds its exact result to 53 bits, ties to even. The
  theory bounds the rounding error and models the conversion \<open>%.1f\<close> of \<open>snprintf\<close>.
\<close>

section \<open>Rounding to binary64\<close>

type_synonym double = rat

definition round_half_even :: "rat \<Rightarrow> int" where
  "round_half_even x =
     (let f = \<lfloor>x\<rfloor>; r = x - of_int f in
      if r < 1 / 2 then f else if 1 / 2 < r then f + 1 else if even f then f else f + 1)"

text \<open>The exponent \<open>e\<close> with \<open>2 ^ e \<le> x < 2 ^ (e + 1)\<close>, for a positive \<open>x\<close>.\<close>

definition exponent2 :: "rat \<Rightarrow> int" where
  "exponent2 x =
     (let (n, d) = quotient_of x; e = bitlen n - bitlen d in
      if 2 powi e \<le> x then e else e - 1)"

definition to_double :: "rat \<Rightarrow> double" where
  "to_double x =
     (if x = 0 then 0
      else let s = 2 powi (52 - exponent2 \<bar>x\<bar>) in of_int (round_half_even (x * s)) / s)"

definition double_of_int :: "int \<Rightarrow> double" where
  "double_of_int i = to_double (of_int i)"

definition double_mul :: "double \<Rightarrow> double \<Rightarrow> double" where
  "double_mul x y = to_double (x * y)"

definition double_div :: "double \<Rightarrow> double \<Rightarrow> double" where
  "double_div x y = to_double (x / y)"

definition double_sub :: "double \<Rightarrow> double \<Rightarrow> double" where
  "double_sub x y = to_double (x - y)"

text \<open>\<open>%.1f\<close>: the tenths nearest to the value, ties to even, with one digit after the point.\<close>

definition tenths :: "double \<Rightarrow> int" where
  "tenths x = round_half_even (10 * x)"

definition print_tenths :: "int \<Rightarrow> string" where
  "print_tenths t = print_dec (nat t div 10) @ ''.'' @ print_dec (nat t mod 10)"

definition print_f1 :: "double \<Rightarrow> string" where
  "print_f1 x = (if x < 0 then ''-'' @ print_tenths (- tenths x) else print_tenths (tenths x))"

section \<open>The rounding error\<close>

lemma round_half_even_error: "\<bar>of_int (round_half_even x) - x\<bar> \<le> 1 / 2"
proof -
  have "of_int \<lfloor>x\<rfloor> \<le> x" "x < of_int \<lfloor>x\<rfloor> + 1" by linarith+
  then show ?thesis by (auto simp: round_half_even_def Let_def abs_le_iff)
qed

lemma round_half_even_near:
  assumes "\<bar>x - of_int k\<bar> < 1 / 2"
  shows "round_half_even x = k"
proof -
  have "\<bar>of_int (round_half_even x) - of_int k\<bar> < (1 :: rat)"
    using round_half_even_error [of x] assms by linarith
  then have "\<bar>round_half_even x - k\<bar> < 1" by (simp flip: of_int_diff of_int_abs)
  then show ?thesis by simp
qed

lemma round_half_even_of_int [simp]: "round_half_even (of_int k) = k"
  by (rule round_half_even_near) simp

lemma exponent2_le:
  assumes "0 < x"
  shows "2 powi (exponent2 x) \<le> x"
proof -
  obtain n d where q: "quotient_of x = (n, d)" by fastforce
  have d: "0 < d" by (rule quotient_of_denom_pos [OF q])
  have x: "x = of_int n / of_int d" by (rule quotient_of_div [OF q])
  with assms d have n: "0 < n" by (simp add: zero_less_divide_iff)
  have bn: "2 ^ nat (bitlen n - 1) \<le> n" and bd: "d < 2 ^ nat (bitlen d)"
    using bitlen_bounds [OF n] bitlen_bounds [OF d] by auto
  have "1 \<le> bitlen n"
    using bitlen_nonneg [of n] bitlen_eq_zero_iff [of n] n by linarith
  then have "(2 :: rat) powi (bitlen n - 1) = of_int (2 ^ nat (bitlen n - 1))"
    by (simp add: power_int_def)
  also have "\<dots> \<le> of_int n" using bn by (simp only: of_int_le_iff)
  finally have "(2 :: rat) powi (bitlen n - 1) \<le> of_int n" .
  moreover have "of_int d \<le> (2 :: rat) powi (bitlen d)"
  proof -
    have "of_int d \<le> (of_int (2 ^ nat (bitlen d)) :: rat)"
      using bd by (simp only: of_int_le_iff less_imp_le)
    also have "\<dots> = 2 powi (bitlen d)"
      using bitlen_nonneg [of d] by (simp add: power_int_def)
    finally show ?thesis .
  qed
  ultimately have "(2 :: rat) powi (bitlen n - 1) / 2 powi (bitlen d) \<le> x"
    using d n unfolding x by (intro frac_le) auto
  then have "2 powi ((bitlen n - 1) - bitlen d) \<le> x"
    by (subst power_int_diff) simp_all
  then have "2 powi (bitlen n - bitlen d - 1) \<le> x"
    by (simp add: algebra_simps)
  then show ?thesis using q by (auto simp: exponent2_def Let_def)
qed

lemma to_double_error: "\<bar>to_double x - x\<bar> \<le> \<bar>x\<bar> / 2 ^ 53"
proof (cases "x = 0")
  case True
  then show ?thesis by (simp add: to_double_def)
next
  case False
  define e where "e = exponent2 \<bar>x\<bar>"
  define s where "s = (2 :: rat) powi (52 - e)"
  have s: "0 < s" by (simp add: s_def)
  have "to_double x - x = (of_int (round_half_even (x * s)) - x * s) / s"
    using False s by (simp add: to_double_def s_def e_def Let_def diff_divide_distrib)
  then have "\<bar>to_double x - x\<bar> \<le> (1 / 2) / s"
    using divide_right_mono [OF round_half_even_error [of "x * s"], of s] s by simp
  also have "\<dots> = 2 powi e / 2 ^ 53"
  proof -
    have "s = 2 ^ 52 / 2 powi e"
      unfolding s_def by (subst power_int_diff) simp_all
    then show ?thesis by simp
  qed
  also have "\<dots> \<le> \<bar>x\<bar> / 2 ^ 53"
    using exponent2_le [of "\<bar>x\<bar>"] False by (simp add: e_def divide_right_mono)
  finally show ?thesis .
qed

section \<open>Integers and scaled integers\<close>

text \<open>
  What the firmware prints with \<open>%.1f\<close> are small integers scaled by a decimal constant. The
  rounding of the constant and of the product moves the value by less than a twentieth, so the
  decimal printed is the exact one.
\<close>

lemma to_double_close: "\<bar>x\<bar> \<le> b \<Longrightarrow> \<bar>to_double x - x\<bar> \<le> b / 2 ^ 53"
  by (rule order_trans [OF to_double_error]) (simp add: divide_right_mono)

lemma to_double_range: "\<bar>x\<bar> \<le> 2 ^ 21 \<Longrightarrow> \<bar>to_double x - x\<bar> \<le> 1 / 2 ^ 32"
  by (drule to_double_close) simp

lemma tenths_near: "\<bar>10 * x - of_int k\<bar> < 1 / 2 \<Longrightarrow> tenths x = k"
  by (simp add: tenths_def round_half_even_near)

lemma to_double_zero [simp]: "to_double 0 = 0"
  by (simp add: to_double_def)

lemma to_double_nonneg:
  assumes "0 \<le> x"
  shows "0 \<le> to_double x"
proof -
  have "x / 2 ^ 53 \<le> x" using assms by simp
  moreover have "x - to_double x \<le> \<bar>x\<bar> / 2 ^ 53"
    using to_double_error [of x] by (simp only: abs_le_iff) simp
  ultimately show ?thesis using assms by simp
qed

lemma to_double_neg:
  assumes "x < 0"
  shows "to_double x < 0"
proof -
  have "- x / 2 ^ 53 < - x" using assms by simp
  moreover have "to_double x - x \<le> \<bar>x\<bar> / 2 ^ 53"
    using to_double_error [of x] by (simp only: abs_le_iff) 
  ultimately show ?thesis using assms by simp
qed

lemma double_mul_near:
  assumes "0 \<le> k" "k \<le> 2 ^ 16" and "0 \<le> q" "q \<le> 1"
  shows "\<bar>double_mul (double_of_int k) (to_double q) - of_int k * q\<bar> \<le> 1 / 2 ^ 28"
proof -
  define a where "a = double_of_int k"
  define c where "c = to_double q"
  have k: "(of_int k :: rat) \<le> of_int (2 ^ 16)" "0 \<le> (of_int k :: rat)"
    using assms(1,2) by (simp_all only: of_int_le_iff of_int_0_le_iff)
  have a: "\<bar>a - of_int k\<bar> \<le> 1 / 2 ^ 32"
    unfolding a_def double_of_int_def by (rule to_double_range) (use k in simp)
  have c: "\<bar>c - q\<bar> \<le> 1 / 2 ^ 53"
    unfolding c_def using to_double_close [of q 1] assms(3,4) by simp
  have "\<bar>a\<bar> \<le> 2 ^ 17"
    using a k unfolding abs_le_iff by simp
  then have "\<bar>a * (c - q)\<bar> \<le> 2 ^ 17 * (1 / 2 ^ 53)"
    unfolding abs_mult using c by (intro mult_mono) auto
  moreover have "\<bar>(a - of_int k) * q\<bar> \<le> 1 / 2 ^ 32 * 1"
    unfolding abs_mult by (rule mult_mono) (use a assms(3,4) in auto)
  moreover have "a * c - of_int k * q = a * (c - q) + (a - of_int k) * q"
    by (simp add: algebra_simps)
  ultimately have p: "\<bar>a * c - of_int k * q\<bar> \<le> 1 / 2 ^ 30"
    unfolding abs_le_iff by simp
  have "of_int k * q \<le> 2 ^ 16 * 1"
    by (rule mult_mono) (use k assms(3,4) in auto)
  moreover have "0 \<le> of_int k * q" using k assms(3) by simp
  ultimately have "\<bar>a * c\<bar> \<le> 2 ^ 21" using p unfolding abs_le_iff by simp
  then have "\<bar>to_double (a * c) - a * c\<bar> \<le> 1 / 2 ^ 32" by (rule to_double_range)
  with p have "\<bar>to_double (a * c) - of_int k * q\<bar> \<le> 1 / 2 ^ 28"
    unfolding abs_le_iff by simp
  then show ?thesis by (simp add: double_mul_def a_def c_def)
qed

lemma double_div_near:
  assumes "0 \<le> k" "k \<le> 2 ^ 16" and "1 \<le> q"
  shows "\<bar>double_div (double_of_int k) q - of_int k / q\<bar> \<le> 1 / 2 ^ 28"
proof -
  define a where "a = double_of_int k"
  have k: "(of_int k :: rat) \<le> of_int (2 ^ 16)" "0 \<le> (of_int k :: rat)"
    using assms(1,2) by (simp_all only: of_int_le_iff of_int_0_le_iff)
  have a: "\<bar>a - of_int k\<bar> \<le> 1 / 2 ^ 32"
    unfolding a_def double_of_int_def by (rule to_double_range) (use k in simp)
  have "\<bar>a / q - of_int k / q\<bar> = \<bar>a - of_int k\<bar> / q"
    using assms(3) by (simp flip: diff_divide_distrib)
  also have "\<dots> \<le> \<bar>a - of_int k\<bar> / 1"
    by (rule divide_left_mono) (use assms(3) in auto)
  finally have p: "\<bar>a / q - of_int k / q\<bar> \<le> 1 / 2 ^ 32"
    using a by simp
  have "of_int k / q \<le> of_int k / 1"
    by (rule divide_left_mono) (use k assms(3) in auto)
  moreover have "0 \<le> of_int k / q" using k assms(3) by simp
  moreover have "\<bar>y\<bar> \<le> 2 ^ 21"
    if "\<bar>y - z\<bar> \<le> 1 / 2 ^ 32" "z \<le> of_int k / 1" "0 \<le> z" for y z :: rat
    using that k unfolding abs_le_iff by simp
  ultimately have "\<bar>a / q\<bar> \<le> 2 ^ 21" using p by blast
  then have "\<bar>to_double (a / q) - a / q\<bar> \<le> 1 / 2 ^ 32" by (rule to_double_range)
  moreover have "\<bar>w - z\<bar> \<le> 1 / 2 ^ 28"
    if "\<bar>y - z\<bar> \<le> 1 / 2 ^ 32" "\<bar>w - y\<bar> \<le> 1 / 2 ^ 32" for w y z :: rat
    using that unfolding abs_le_iff by simp
  ultimately have "\<bar>to_double (a / q) - of_int k / q\<bar> \<le> 1 / 2 ^ 28"
    using p by blast
  then show ?thesis by (simp add: double_div_def a_def)
qed

lemma to_double_half_exact:
  assumes "x = of_int k / 2" and "\<bar>x\<bar> \<le> 2 ^ 20"
  shows "to_double x = x"
proof (cases "x = 0")
  case False
  define e where "e = exponent2 \<bar>x\<bar>"
  have "e \<le> 20"
  proof (rule ccontr)
    assume "\<not> e \<le> 20"
    then have "(2 :: rat) powi 20 < 2 powi e" by (intro power_int_strict_increasing) auto
    also have "2 powi e \<le> \<bar>x\<bar>" using exponent2_le [of "\<bar>x\<bar>"] False by (simp add: e_def)
    finally show False using assms(2) by (simp add: power_int_def)
  qed
  define n where "n = nat (51 - e)"
  have s: "(2 :: rat) powi (52 - e) = 2 * 2 ^ n"
    using \<open>e \<le> 20\<close> by (simp add: power_int_def n_def Suc_nat_eq_nat_zadd1 flip: power_Suc)
  have "x * (2 * 2 ^ n) = of_int (k * 2 ^ n)" by (simp add: assms(1))
  then show ?thesis
    using False s by (simp add: to_double_def e_def [symmetric] Let_def field_simps del: of_int_mult of_int_power)
qed simp

lemma double_of_int_exact: "\<bar>k\<bar> \<le> 2 ^ 16 \<Longrightarrow> double_of_int k = of_int k"
proof -
  assume "\<bar>k\<bar> \<le> 2 ^ 16"
  then have "of_int \<bar>k\<bar> \<le> (of_int (2 ^ 16) :: rat)" by (simp only: of_int_le_iff)
  then show ?thesis
    unfolding double_of_int_def by (intro to_double_half_exact [where k = "2 * k"]) simp_all
qed

end
