(* ===== verification/Diagnostics.thy ===== *)
theory Diagnostics
  imports Prelude
begin

text \<open>
  \<open>main/diagnostics.c\<close>: the in-RAM event log (a ring of 16 records), the copy of texts into
  fixed buffers, the JSON escaping of texts, the names of the reset reasons and the status
  snapshot. The ring refines a list that keeps the last 16 events; the escaping is undone by a
  JSON string reader.
\<close>

section \<open>Data\<close>

definition MEB_DIAG_EVENT_CAPACITY :: nat where "MEB_DIAG_EVENT_CAPACITY = 16"
definition MEB_DIAG_COMPONENT_LEN :: nat where "MEB_DIAG_COMPONENT_LEN = 16"
definition MEB_DIAG_EVENT_LEN :: nat where "MEB_DIAG_EVENT_LEN = 24"
definition MEB_DIAG_DETAIL_LEN :: nat where "MEB_DIAG_DETAIL_LEN = 64"

record meb_diag_event =
  ev_seq :: u32
  ev_uptime_ms :: u64
  ev_free_heap :: u32
  ev_minimum_free_heap :: u32
  ev_component :: string
  ev_event :: string
  ev_detail :: string

record meb_diag_event_snapshot =
  sn_capacity :: u32
  sn_count :: u32
  sn_overwritten :: u32
  sn_next_seq :: u32
  sn_events :: "meb_diag_event list"

datatype esp_reset_reason =
    ESP_RST_UNKNOWN | ESP_RST_POWERON | ESP_RST_EXT | ESP_RST_SW | ESP_RST_PANIC
  | ESP_RST_INT_WDT | ESP_RST_TASK_WDT | ESP_RST_WDT | ESP_RST_DEEPSLEEP
  | ESP_RST_BROWNOUT | ESP_RST_SDIO | ESP_RST_OTHER int

text \<open>
  What the platform answers at one moment: \<open>esp_timer_get_time\<close> (microseconds since boot) and
  the heap counters. An operation that asks the platform takes the answers as an argument.
\<close>

record reading =
  rd_time_us :: int
  rd_free_heap :: u32
  rd_min_free_heap :: u32

text \<open>A reading that matters only for its time.\<close>

abbreviation at_us :: "int \<Rightarrow> reading" where
  "at_us t \<equiv> \<lparr>rd_time_us = t, rd_free_heap = 0, rd_min_free_heap = 0\<rparr>"

text \<open>The file's static variables; \<open>s_diag_lock\<close> tells whether the mutex exists.\<close>

record diag_state =
  s_diag_lock :: bool
  s_events :: "meb_diag_event list"
  s_event_count :: u32
  s_next_index :: u32
  s_next_seq :: u32
  s_overwritten :: u32

definition zero_event :: meb_diag_event where
  "zero_event = \<lparr>ev_seq = 0, ev_uptime_ms = 0, ev_free_heap = 0, ev_minimum_free_heap = 0,
     ev_component = [], ev_event = [], ev_detail = []\<rparr>"

text \<open>The static initialisers: everything zero, the next sequence number 1.\<close>

definition diag_boot_state :: diag_state where
  "diag_boot_state = \<lparr>s_diag_lock = False,
     s_events = replicate MEB_DIAG_EVENT_CAPACITY zero_event,
     s_event_count = 0, s_next_index = 0, s_next_seq = 1, s_overwritten = 0\<rparr>"

section \<open>Operations\<close>

definition uptime_ms :: "reading \<Rightarrow> u64" where
  "uptime_ms r = word_of_int (rd_time_us r div 1000)"

definition copy_text :: "string \<Rightarrow> nat \<Rightarrow> string option \<Rightarrow> string" where
  "copy_text dst dst_len src =
     (if dst_len = 0 then dst
      else snprintf dst_len (case src of None \<Rightarrow> '''' | Some s \<Rightarrow> c_str s))"

fun meb_diag_reset_reason_name :: "esp_reset_reason \<Rightarrow> string" where
  "meb_diag_reset_reason_name ESP_RST_POWERON = ''poweron''"
| "meb_diag_reset_reason_name ESP_RST_EXT = ''external''"
| "meb_diag_reset_reason_name ESP_RST_SW = ''software''"
| "meb_diag_reset_reason_name ESP_RST_PANIC = ''panic''"
| "meb_diag_reset_reason_name ESP_RST_INT_WDT = ''interrupt_watchdog''"
| "meb_diag_reset_reason_name ESP_RST_TASK_WDT = ''task_watchdog''"
| "meb_diag_reset_reason_name ESP_RST_WDT = ''watchdog''"
| "meb_diag_reset_reason_name ESP_RST_DEEPSLEEP = ''deepsleep''"
| "meb_diag_reset_reason_name ESP_RST_BROWNOUT = ''brownout''"
| "meb_diag_reset_reason_name ESP_RST_SDIO = ''sdio''"
| "meb_diag_reset_reason_name ESP_RST_UNKNOWN = ''unknown''"
| "meb_diag_reset_reason_name (ESP_RST_OTHER _) = ''other''"

text \<open>
  \<open>meb_diag_record_event\<close>: the record is built before the lock is taken, its sequence number
  is drawn and it is stored under the lock.
\<close>

definition diag_item :: "reading \<Rightarrow> string option \<Rightarrow> string option \<Rightarrow> string option \<Rightarrow> meb_diag_event" where
  "diag_item r component event detail =
     \<lparr>ev_seq = 0, ev_uptime_ms = uptime_ms r, ev_free_heap = rd_free_heap r,
      ev_minimum_free_heap = rd_min_free_heap r,
      ev_component = copy_text [] MEB_DIAG_COMPONENT_LEN component,
      ev_event = copy_text [] MEB_DIAG_EVENT_LEN event,
      ev_detail = copy_text [] MEB_DIAG_DETAIL_LEN detail\<rparr>"

definition diag_store :: "meb_diag_event \<Rightarrow> diag_state \<Rightarrow> diag_state" where
  "diag_store item d =
     (let d1 = d\<lparr>s_events := (s_events d)[unat (s_next_index d) := item\<lparr>ev_seq := s_next_seq d\<rparr>],
                 s_next_seq := s_next_seq d + 1,
                 s_next_index := (s_next_index d + 1) mod of_nat MEB_DIAG_EVENT_CAPACITY\<rparr>
      in if s_event_count d < of_nat MEB_DIAG_EVENT_CAPACITY
         then d1\<lparr>s_event_count := s_event_count d + 1\<rparr>
         else d1\<lparr>s_overwritten := s_overwritten d + 1\<rparr>)"

definition meb_diag_record_event ::
    "reading \<Rightarrow> string option \<Rightarrow> string option \<Rightarrow> string option \<Rightarrow> diag_state \<Rightarrow> diag_state" where
  "meb_diag_record_event r component event detail d =
     diag_store (diag_item r component event detail) d"

text \<open>
  \<open>meb_diag_record_eventf\<close> and \<open>meb_diag_record_eventv\<close>: the detail is formatted into a buffer
  of 64 bytes first. The caller of the model passes the formatted text; \<open>None\<close> is a null format.
\<close>

definition meb_diag_record_eventf ::
    "reading \<Rightarrow> string \<Rightarrow> string \<Rightarrow> string option \<Rightarrow> diag_state \<Rightarrow> diag_state" where
  "meb_diag_record_eventf r component event formatted d =
     (let detail = (case formatted of Some t \<Rightarrow> snprintf MEB_DIAG_DETAIL_LEN t | None \<Rightarrow> '''')
      in meb_diag_record_event r (Some component) (Some event) (Some detail) d)"

definition meb_diag_init :: "bool \<Rightarrow> reading \<Rightarrow> esp_reset_reason \<Rightarrow> diag_state \<Rightarrow> esp_err \<times> diag_state" where
  "meb_diag_init mutex_created r reason d =
     (if \<not> mutex_created then (ESP_ERR_NO_MEM, d\<lparr>s_diag_lock := False\<rparr>)
      else (ESP_OK,
        meb_diag_record_eventf r ''system'' ''boot''
          (Some (''reset='' @ meb_diag_reset_reason_name reason))
          \<lparr>s_diag_lock = True, s_events = replicate MEB_DIAG_EVENT_CAPACITY zero_event,
           s_event_count = 0, s_next_index = 0, s_next_seq = 1, s_overwritten = 0\<rparr>))"

definition diag_first :: "diag_state \<Rightarrow> u32" where
  "diag_first d =
     (s_next_index d + of_nat MEB_DIAG_EVENT_CAPACITY - s_event_count d) mod of_nat MEB_DIAG_EVENT_CAPACITY"

definition diag_copy_events :: "diag_state \<Rightarrow> meb_diag_event list" where
  "diag_copy_events d =
     map (\<lambda>i. s_events d ! unat ((diag_first d + of_nat i) mod of_nat MEB_DIAG_EVENT_CAPACITY))
       [0 ..< unat (s_event_count d)]"

definition meb_diag_get_events :: "diag_state \<Rightarrow> meb_diag_event_snapshot" where
  "meb_diag_get_events d =
     \<lparr>sn_capacity = of_nat MEB_DIAG_EVENT_CAPACITY, sn_count = s_event_count d,
      sn_overwritten = s_overwritten d, sn_next_seq = s_next_seq d,
      sn_events = diag_copy_events d\<rparr>"

section \<open>The ring keeps the last events\<close>

definition diag_inv :: "diag_state \<Rightarrow> bool" where
  "diag_inv d \<longleftrightarrow>
     length (s_events d) = 16 \<and> unat (s_event_count d) \<le> 16 \<and> unat (s_next_index d) < 16 \<and>
     (unat (s_event_count d) < 16 \<longrightarrow> s_next_index d = s_event_count d) \<and>
     s_next_seq d = 1 + s_event_count d + s_overwritten d"

lemmas diag_sizes =
  MEB_DIAG_EVENT_CAPACITY_def MEB_DIAG_COMPONENT_LEN_def MEB_DIAG_EVENT_LEN_def MEB_DIAG_DETAIL_LEN_def

lemma diag_boot_inv: "diag_inv diag_boot_state"
  by (simp add: diag_inv_def diag_boot_state_def diag_sizes)

lemma ring_index:
  fixes i c n :: u32
  assumes "unat c \<le> 16" and "unat n < 16" and "unat c < 16 \<Longrightarrow> n = c" and "unat i < 16"
  shows "unat (((n + 16 - c) mod 16 + i) mod 16) =
    (if unat c < 16 then unat i else (unat n + unat i) mod 16)"
proof (cases "unat c < 16")
  case True
  then have "(n + 16 - c) mod 16 = 0" using assms(3) by simp
  then show ?thesis using True assms(4) by (simp add: unat_mod)
next
  case False
  then have "unat c = unat (16 :: u32)" using assms(1) by simp
  then have c: "c = 16" by (simp only: word_unat_eq_iff)
  have "(n + 16 - c) mod 16 = n"
    unfolding c using assms(2) by (simp add: word_unat_eq_iff unat_mod)
  then show ?thesis using assms(2,4) False
    by (simp add: unat_mod unat_word_ariths)
qed

lemma diag_copy_events_eq:
  assumes "diag_inv d"
  shows "diag_copy_events d =
    (let n = unat (s_next_index d); c = unat (s_event_count d)
     in if c < 16 then take c (s_events d) else drop n (s_events d) @ take n (s_events d))"
proof (rule nth_equalityI)
  let ?n = "unat (s_next_index d)" and ?c = "unat (s_event_count d)"
  have inv: "length (s_events d) = 16" "?c \<le> 16" "?n < 16" "?c < 16 \<Longrightarrow> s_next_index d = s_event_count d"
    using assms by (auto simp: diag_inv_def)
  show "length (diag_copy_events d) = length (let n = ?n; c = ?c in
      if c < 16 then take c (s_events d) else drop n (s_events d) @ take n (s_events d))"
    using inv by (simp add: diag_copy_events_def Let_def)
  fix i assume "i < length (diag_copy_events d)"
  then have i: "i < ?c" by (simp add: diag_copy_events_def)
  with inv(2) have "i < 16" by simp
  then have u: "unat (of_nat i :: u32) = i" by (simp add: unat_of_nat)
  have "diag_copy_events d ! i = s_events d ! (if ?c < 16 then i else (?n + i) mod 16)"
    using i ring_index [OF inv(2,3,4), of "of_nat i"] u \<open>i < 16\<close>
    by (simp add: diag_copy_events_def diag_first_def diag_sizes)
  moreover have "\<not> ?c < 16 \<Longrightarrow>
      s_events d ! ((?n + i) mod 16) = (drop ?n (s_events d) @ take ?n (s_events d)) ! i"
    using inv(1,3) \<open>i < 16\<close> by (cases "?n + i < 16") (auto simp: nth_append mod_if add.commute)
  ultimately show "diag_copy_events d ! i = (let n = ?n; c = ?c in
      if c < 16 then take c (s_events d) else drop n (s_events d) @ take n (s_events d)) ! i"
    using i by (simp add: Let_def)
qed

lemma diag_store_inv [inv_intros]:
  assumes "diag_inv d"
  shows "diag_inv (diag_store item d)"
proof (cases "unat (s_event_count d) < 16")
  case True
  then have "s_next_index d = s_event_count d" and "s_event_count d < 16"
    using assms by (auto simp: diag_inv_def word_less_nat_alt)
  moreover have "unat (s_event_count d + 1) = unat (s_event_count d) + 1"
    using True by (simp add: unat_word_ariths)
  moreover have "Suc (unat (s_event_count d)) < 16 \<Longrightarrow> (s_event_count d + 1) mod 16 = s_event_count d + 1"
    using calculation(3) by (simp add: word_mod_small word_less_nat_alt)
  ultimately show ?thesis using assms True
    by (auto simp: diag_inv_def diag_store_def diag_sizes unat_mod)
next
  case False
  then show ?thesis using assms
    by (auto simp: diag_inv_def diag_store_def diag_sizes word_less_nat_alt unat_mod)
qed

lemma last_part_snoc_full: "length xs = Suc c \<Longrightarrow> last_part (Suc c) (xs @ [x]) = drop 1 xs @ [x]"
  by (simp add: last_part_def)

lemma diag_copy_store:
  assumes "diag_inv d"
  shows "diag_copy_events (diag_store item d) =
    last_part 16 (diag_copy_events d @ [item\<lparr>ev_seq := s_next_seq d\<rparr>])"
proof -
  let ?n = "unat (s_next_index d)" and ?c = "unat (s_event_count d)" and ?es = "s_events d"
  let ?x = "item\<lparr>ev_seq := s_next_seq d\<rparr>" and ?d = "diag_store item d"
  have inv: "length ?es = 16" "?c \<le> 16" "?n < 16" "?c < 16 \<Longrightarrow> s_next_index d = s_event_count d"
    using assms by (auto simp: diag_inv_def)
  have es': "s_events ?d = ?es[?n := ?x]"
    and n': "unat (s_next_index ?d) = (?n + 1) mod 16"
    using inv(3) by (simp_all add: diag_store_def diag_sizes unat_mod unat_word_ariths Let_def)
  have c': "unat (s_event_count ?d) = (if ?c < 16 then ?c + 1 else 16)"
    using inv(2) by (auto simp: diag_store_def diag_sizes word_less_nat_alt unat_word_ariths Let_def)
  note copies = diag_copy_events_eq [OF assms] diag_copy_events_eq [OF diag_store_inv [OF assms]]
  show ?thesis
  proof (cases "?c < 16")
    case True
    then have "?n = ?c" using inv(4) by simp
    with True show ?thesis
      using inv(1) by (cases "?c = 15")
        (auto simp: copies es' n' c' Let_def take_Suc_conv_app_nth take_update_cancel list_update_last)
  next
    case False
    with inv(1,3) show ?thesis
      by (cases "?n = 15")
        (auto simp: copies es' n' c' Let_def last_part_def drop_update_cancel take_Suc_conv_app_nth
          take_update_cancel list_update_last)
  qed
qed

text \<open>
  A call of the log is a reading of the platform and three texts; its entry is the record the
  call builds, whose sequence number the log draws.
\<close>

type_synonym diag_call = "reading \<times> string option \<times> string option \<times> string option"

definition diag_push :: "diag_call \<Rightarrow> diag_state \<Rightarrow> diag_state" where
  "diag_push = (\<lambda>(r, component, event, detail). meb_diag_record_event r component event detail)"

definition diag_entry :: "diag_call \<Rightarrow> meb_diag_event" where
  "diag_entry = (\<lambda>(r, component, event, detail). diag_item r component event detail)"

definition diag_view :: "diag_state \<Rightarrow> meb_diag_event list" where
  "diag_view d = map (\<lambda>e. e\<lparr>ev_seq := 0\<rparr>) (sn_events (meb_diag_get_events d))"

lemma map_last_part: "map f (last_part c xs) = last_part c (map f xs)"
  by (simp add: last_part_def drop_map)

interpretation diag_log: bounded_log diag_boot_state diag_push diag_entry diag_view 16 diag_inv
proof unfold_locales
  show "diag_inv diag_boot_state" by (rule diag_boot_inv)
  show "diag_view diag_boot_state = []"
    by (simp add: diag_view_def meb_diag_get_events_def diag_copy_events_def diag_boot_state_def)
  fix d :: diag_state and x :: diag_call
  assume "diag_inv d"
  then show "diag_inv (diag_push x d)"
    by (simp add: diag_push_def meb_diag_record_event_def diag_store_inv split: prod.split)
  show "diag_view (diag_push x d) = last_part 16 (diag_view d @ [diag_entry x])"
    using \<open>diag_inv d\<close>
    by (simp add: diag_view_def diag_push_def diag_entry_def meb_diag_record_event_def
        meb_diag_get_events_def diag_copy_store map_last_part diag_item_def split: prod.split)
qed

lemma last_part_upt: "last_part n (map f [0 ..< Suc n]) = map (\<lambda>k. f (Suc k)) [0 ..< n]"
proof -
  have "drop 1 [0 ..< Suc n] = map Suc [0 ..< n]"
    by (simp add: map_Suc_upt del: upt_Suc)
  then show ?thesis
    by (simp add: last_part_def drop_map comp_def del: upt_Suc)
qed

text \<open>The sequence numbers shown are consecutive and end just before the next one.\<close>

definition diag_seqs_ok :: "diag_state \<Rightarrow> bool" where
  "diag_seqs_ok d \<longleftrightarrow>
     map ev_seq (sn_events (meb_diag_get_events d)) =
     map (\<lambda>k. s_next_seq d - s_event_count d + of_nat k) [0 ..< unat (s_event_count d)]"

lemma diag_seqs_store:
  assumes "diag_inv d" and "diag_seqs_ok d"
  shows "diag_seqs_ok (diag_store item d)"
proof -
  let ?c = "s_event_count d" and ?q = "s_next_seq d" and ?d = "diag_store item d"
  have old: "map ev_seq (diag_copy_events d) = map (\<lambda>k. ?q - ?c + of_nat k) [0 ..< unat ?c]"
    using assms(2) by (simp add: diag_seqs_ok_def meb_diag_get_events_def)
  have new: "map ev_seq (diag_copy_events ?d) =
      last_part 16 (map (\<lambda>k. ?q - ?c + of_nat k) [0 ..< unat ?c] @ [?q])"
    using assms(1) by (simp add: diag_copy_store map_last_part old)
  have q: "?q - ?c + of_nat (unat ?c) = ?q" by simp
  have "s_next_seq ?d = ?q + 1" by (simp add: diag_store_def Let_def)
  show ?thesis
  proof (cases "unat ?c < 16")
    case True
    then have "s_event_count ?d = ?c + 1" "unat (?c + 1) = unat ?c + 1"
      by (auto simp: diag_store_def diag_sizes Let_def word_less_nat_alt unat_word_ariths)
    with True new q \<open>s_next_seq ?d = ?q + 1\<close> show ?thesis
      by (simp add: diag_seqs_ok_def meb_diag_get_events_def)
  next
    case False
    then have c: "?c = 16"
      using assms(1) word_of_unat [of ?c 16] by (simp add: diag_inv_def)
    have "s_event_count ?d = 16" by (simp add: diag_store_def diag_sizes Let_def c)
    have "map ev_seq (diag_copy_events ?d) = last_part 16 (map (\<lambda>k. ?q - 16 + of_nat k) [0 ..< Suc 16])"
      unfolding upt_Suc using new c q by (simp only: map_append list.map) simp
    also have "\<dots> = map (\<lambda>k. ?q - 16 + of_nat (Suc k)) [0 ..< 16]"
      by (rule last_part_upt)
    finally have "map ev_seq (diag_copy_events ?d) = map (\<lambda>k. ?q - 16 + of_nat (Suc k)) [0 ..< 16]" .
    moreover have "unat (s_event_count ?d) = 16"
      by (simp add: \<open>s_event_count ?d = 16\<close>)
    ultimately show ?thesis
      using \<open>s_next_seq ?d = ?q + 1\<close> \<open>s_event_count ?d = 16\<close>
      unfolding diag_seqs_ok_def by (simp add: meb_diag_get_events_def)
  qed
qed

interpretation diag_run: step_system "\<lambda>d. d = diag_boot_state" "\<lambda>_. True" diag_push
  "\<lambda>d. diag_inv d \<and> diag_seqs_ok d"
proof unfold_locales
  show "diag_inv d \<and> diag_seqs_ok d" if "d = diag_boot_state" for d
    unfolding that using diag_boot_inv
    by (simp add: diag_seqs_ok_def diag_boot_state_def meb_diag_get_events_def diag_copy_events_def)
  show "diag_inv (diag_push e d) \<and> diag_seqs_ok (diag_push e d)"
    if "diag_inv d \<and> diag_seqs_ok d" for e d
    using that by (simp add: diag_push_def meb_diag_record_event_def diag_store_inv diag_seqs_store
        split: prod.split)
qed

section \<open>Escaping for JSON\<close>

text \<open>
  \<open>meb_diag_json_escape\<close> returns the number of characters it wrote; the model returns the
  characters before the terminating NUL, so the source's result is their number.
\<close>

definition json_short_escape :: "char \<Rightarrow> string option" where
  "json_short_escape c =
     (if c = CHR 0x22 then Some [CHR 0x5C, CHR 0x22]
      else if c = CHR 0x5C then Some [CHR 0x5C, CHR 0x5C]
      else if c = CHR 0x08 then Some [CHR 0x5C, CHR ''b'']
      else if c = CHR 0x0C then Some [CHR 0x5C, CHR ''f'']
      else if c = CHR 0x0A then Some [CHR 0x5C, CHR ''n'']
      else if c = CHR 0x0D then Some [CHR 0x5C, CHR ''r'']
      else if c = CHR 0x09 then Some [CHR 0x5C, CHR ''t'']
      else None)"

definition hex_low :: "nat \<Rightarrow> char" where
  "hex_low d = char_of (if d < 10 then 48 + d else 87 + d)"

definition json_u_escape :: "char \<Rightarrow> string" where
  "json_u_escape c = [CHR 0x5C, CHR ''u'', CHR ''0'', CHR ''0'',
     hex_low (of_char c div 16), hex_low (of_char c mod 16)]"

fun json_escape_loop :: "nat \<Rightarrow> string \<Rightarrow> string \<Rightarrow> string" where
  "json_escape_loop dst_len [] out = out"
| "json_escape_loop dst_len (c # src) out =
     (if c = NUL \<or> \<not> length out < dst_len - 1 then out
      else case json_short_escape c of
        Some escaped \<Rightarrow>
          if length out + length escaped \<ge> dst_len then out
          else json_escape_loop dst_len src (out @ escaped)
      | None \<Rightarrow>
          if (of_char c :: nat) < 0x20 then
            (if length out + 6 \<ge> dst_len then out
             else json_escape_loop dst_len src (out @ json_u_escape c))
          else json_escape_loop dst_len src (out @ [c]))"

definition meb_diag_json_escape :: "string option \<Rightarrow> nat \<Rightarrow> string" where
  "meb_diag_json_escape src dst_len =
     (if dst_len = 0 then ''''
      else json_escape_loop dst_len (case src of None \<Rightarrow> '''' | Some s \<Rightarrow> s) '''')"

text \<open>
  The reader of JSON string bodies the escaping is measured against: a backslash starts one of
  the two-character escapes or a four-digit one, a quote or a control character is an error.
\<close>

definition hex_value :: "char \<Rightarrow> nat option" where
  "hex_value c =
     (let n = of_char c :: nat in
      if 48 \<le> n \<and> n \<le> 57 then Some (n - 48)
      else if 97 \<le> n \<and> n \<le> 102 then Some (n - 87)
      else if 65 \<le> n \<and> n \<le> 70 then Some (n - 55)
      else None)"

definition json_short_value :: "char \<Rightarrow> char option" where
  "json_short_value c =
     (if c = CHR 0x22 then Some (CHR 0x22) else if c = CHR 0x5C then Some (CHR 0x5C)
      else if c = CHR 0x2F then Some (CHR 0x2F)
      else if c = CHR ''b'' then Some (CHR 0x08) else if c = CHR ''f'' then Some (CHR 0x0C)
      else if c = CHR ''n'' then Some (CHR 0x0A) else if c = CHR ''r'' then Some (CHR 0x0D)
      else if c = CHR ''t'' then Some (CHR 0x09) else None)"

text \<open>One unit of a body: the character it stands for and what follows it.\<close>

fun json_unit :: "string \<Rightarrow> (char \<times> string) option" where
  "json_unit [] = None"
| "json_unit (c # cs) =
     (if c = CHR 0x5C then
        (case cs of
           [] \<Rightarrow> None
         | e # es \<Rightarrow>
             if e = CHR ''u'' then
               (case es of
                  h1 # h2 # h3 # h4 # rest \<Rightarrow>
                    (case (hex_value h1, hex_value h2, hex_value h3, hex_value h4) of
                       (Some 0, Some 0, Some a, Some b) \<Rightarrow> Some (char_of (16 * a + b), rest)
                     | _ \<Rightarrow> None)
                | _ \<Rightarrow> None)
             else map_option (\<lambda>v. (v, es)) (json_short_value e))
      else if c = CHR 0x22 \<or> (of_char c :: nat) < 0x20 then None
      else Some (c, cs))"

lemma json_unit_shorter: "json_unit cs = Some (v, rest) \<Longrightarrow> length rest < length cs"
  by (cases cs) (auto split: if_splits list.splits option.splits nat.splits)

function json_body :: "string \<Rightarrow> string option" where
  "json_body cs =
     (if cs = [] then Some []
      else case json_unit cs of
        None \<Rightarrow> None
      | Some (v, rest) \<Rightarrow> map_option (\<lambda>t. v # t) (json_body rest))"
  by pat_completeness auto
termination
  by (relation "measure length") (auto dest: json_unit_shorter)

declare json_body.simps [simp del]

text \<open>What the loop writes for one character, and the recursion on it.\<close>

definition json_escape_char :: "char \<Rightarrow> string" where
  "json_escape_char c =
     (case json_short_escape c of
        Some escaped \<Rightarrow> escaped
      | None \<Rightarrow> if (of_char c :: nat) < 0x20 then json_u_escape c else [c])"

lemma json_escape_char_length: "length (json_escape_char c) \<in> {1, 2, 6}"
  by (simp add: json_escape_char_def json_short_escape_def json_u_escape_def)

lemma json_short_escape_length: "json_short_escape c = Some e \<Longrightarrow> length e = 2"
  by (auto simp: json_short_escape_def split: if_splits)

lemma json_escape_loop_step:
  "json_escape_loop n (c # src) out =
     (if c = NUL \<or> length out + length (json_escape_char c) \<ge> n then out
      else json_escape_loop n src (out @ json_escape_char c))"
proof (cases "json_short_escape c")
  case None
  then show ?thesis by (simp add: json_escape_char_def json_u_escape_def not_less) arith
next
  case (Some e)
  then have "length e = 2" by (rule json_short_escape_length)
  with Some show ?thesis by (simp add: json_escape_char_def not_less) arith
qed

declare json_escape_loop.simps(2) [simp del]

text \<open>
  The loop stops at the end of the text or before the first unit that does not fit, so it
  writes the escapes of a prefix of the text.
\<close>

lemma json_escape_loop_prefix:
  "\<exists>k \<le> length src. json_escape_loop n src out = out @ concat (map json_escape_char (take k src))
     \<and> NUL \<notin> set (take k src)"
proof (induction src arbitrary: out)
  case Nil
  then show ?case by simp
next
  case (Cons c src)
  show ?case
  proof (cases "c = NUL \<or> length out + length (json_escape_char c) \<ge> n")
    case True
    then show ?thesis by (intro exI [of _ 0]) (simp add: json_escape_loop_step)
  next
    case False
    obtain k where "k \<le> length src" and "NUL \<notin> set (take k src)"
      and "json_escape_loop n src (out @ json_escape_char c) =
        (out @ json_escape_char c) @ concat (map json_escape_char (take k src))"
      using Cons.IH by blast
    with False show ?thesis
      by (intro exI [of _ "Suc k"]) (auto simp: json_escape_loop_step)
  qed
qed

lemma json_escape_loop_bound: "length out < n \<Longrightarrow> length (json_escape_loop n src out) < n"
proof (induction src arbitrary: out)
  case Nil
  then show ?case by simp
next
  case (Cons c src)
  then show ?case by (cases "c = NUL \<or> length out + length (json_escape_char c) \<ge> n")
    (auto simp: json_escape_loop_step)
qed

lemma json_escape_loop_all:
  "NUL \<notin> set src \<Longrightarrow> length out + length (concat (map json_escape_char src)) < n \<Longrightarrow>
     json_escape_loop n src out = out @ concat (map json_escape_char src)"
  by (induction src arbitrary: out) (auto simp: json_escape_loop_step)

lemma hex_value_hex_low: "d < 16 \<Longrightarrow> hex_value (hex_low d) = Some d"
  by (auto simp: hex_value_def hex_low_def Let_def)

lemma json_unit_escape: "c \<noteq> NUL \<Longrightarrow> json_unit (json_escape_char c @ rest) = Some (c, rest)"
proof (cases "json_short_escape c")
  case None
  then have plain: "c \<noteq> CHR 0x5C" "c \<noteq> CHR 0x22"
    by (auto simp: json_short_escape_def)
  have "hex_value (CHR ''0'') = Some 0" by (simp add: hex_value_def)
  moreover have "(of_char c :: nat) div 16 < 16"
    using nat_of_char_less_256 [of c] by linarith
  moreover have "char_of (16 * ((of_char c :: nat) div 16) + of_char c mod 16) = c"
    by (simp only: mult_div_mod_eq char_of_char)
  ultimately show ?thesis using None plain
    by (simp add: json_escape_char_def json_u_escape_def hex_value_hex_low)
next
  case (Some e)
  then have "(c, e) \<in> {(CHR 0x22, [CHR 0x5C, CHR 0x22]), (CHR 0x5C, [CHR 0x5C, CHR 0x5C]),
      (CHR 0x08, [CHR 0x5C, CHR ''b'']), (CHR 0x0C, [CHR 0x5C, CHR ''f'']),
      (CHR 0x0A, [CHR 0x5C, CHR ''n'']), (CHR 0x0D, [CHR 0x5C, CHR ''r'']),
      (CHR 0x09, [CHR 0x5C, CHR ''t''])}"
    by (simp add: json_short_escape_def split: if_splits)
  with Some show ?thesis
    by (elim insertE emptyE) (simp_all add: json_escape_char_def json_short_value_def)
qed

lemma json_body_escapes:
  "NUL \<notin> set s \<Longrightarrow> json_body (concat (map json_escape_char s)) = Some s"
proof (induction s)
  case Nil
  then show ?case by (simp add: json_body.simps)
next
  case (Cons c s)
  have "json_escape_char c \<noteq> []" using json_escape_char_length [of c] by auto
  with Cons.prems Cons.IH show ?case
    using json_unit_escape [of c "concat (map json_escape_char s)"]
    by (subst json_body.simps) auto
qed

section \<open>Properties\<close>

lemma diag_snapshot_sizes:
  "length (sn_events (meb_diag_get_events (fold diag_push calls diag_boot_state))) = min 16 (length calls)"
proof -
  have "diag_view (fold diag_push calls diag_boot_state) = last_part 16 (map diag_entry calls)"
    by (rule diag_log.view_run)
  then have "length (diag_view (fold diag_push calls diag_boot_state)) = min 16 (length calls)" by simp
  then show ?thesis by (simp add: diag_view_def)
qed

lemma diag_next_seq: "s_next_seq (fold diag_push calls d) = s_next_seq d + of_nat (length calls)"
  by (induction calls arbitrary: d)
    (simp_all add: diag_push_def meb_diag_record_event_def diag_store_def Let_def add_ac split: prod.split)

text \<open>
  However many events were recorded since start-up, the snapshot shows the last sixteen of
  them, oldest first, each with the platform readings and the texts of its call cut to the sizes
  of their buffers.
\<close>

theorem event_log_keeps_last:
  "map (\<lambda>e. e\<lparr>ev_seq := 0\<rparr>)
     (sn_events (meb_diag_get_events
        (fold (\<lambda>(r, component, event, detail). meb_diag_record_event r component event detail)
           calls diag_boot_state)))
   = last_part 16 (map (\<lambda>(r, component, event, detail). diag_item r component event detail) calls)"
  using diag_log.view_run [of calls] unfolding diag_view_def diag_push_def diag_entry_def .

text \<open>
  After any number of recorded events the counters of the snapshot account for all of them
  (modulo the 32 bits of the counters): the next sequence number is one more than the number of
  events, the shown and the overwritten events add up to it, and the shown events carry the
  consecutive sequence numbers just before the next one.
\<close>

theorem event_log_accounts_for_all:
  "let s = meb_diag_get_events
             (fold (\<lambda>(r, component, event, detail). meb_diag_record_event r component event detail)
                calls diag_boot_state)
   in sn_next_seq s = 1 + of_nat (length calls)
    \<and> unat (sn_count s) = min 16 (length calls)
    \<and> sn_overwritten s = of_nat (length calls - 16)
    \<and> map ev_seq (sn_events s) =
        map (\<lambda>k. sn_next_seq s - sn_count s + of_nat k) [0 ..< length (sn_events s)]"
proof -
  let ?d = "fold diag_push calls diag_boot_state"
  have inv: "diag_inv ?d" and seqs: "diag_seqs_ok ?d"
    using diag_run.run_inv [OF refl, of calls] by (simp_all add: list_all_iff)
  have next_seq: "s_next_seq ?d = 1 + of_nat (length calls)"
    by (simp add: diag_next_seq) (simp add: diag_boot_state_def)
  have count: "unat (s_event_count ?d) = min 16 (length calls)"
    using diag_snapshot_sizes [of calls] by (simp add: meb_diag_get_events_def diag_copy_events_def)
  have "s_overwritten ?d = of_nat (length calls) - s_event_count ?d"
    using inv next_seq by (simp add: diag_inv_def)
  also have "\<dots> = of_nat (length calls) - of_nat (min 16 (length calls))"
    using word_of_unat [OF count] by simp
  also have "\<dots> = of_nat (length calls - 16)"
    by (cases "length calls \<le> 16") (simp_all add: of_nat_diff)
  finally have "s_overwritten ?d = of_nat (length calls - 16)" .
  with next_seq count seqs show ?thesis
    using diag_snapshot_sizes [of calls]
    by (simp add: diag_push_def [symmetric] diag_seqs_ok_def meb_diag_get_events_def Let_def)
qed

text \<open>
  C33: The escaped text always fits its buffer with the terminator, and a JSON reader gets back a
  prefix of the source string, however small the buffer: no escape sequence is cut in two and
  no quote, backslash or control character is left raw.
\<close>

theorem json_escape_safe:
  assumes "0 < dst_len"
  shows "length (meb_diag_json_escape (Some s) dst_len) < dst_len
    \<and> (\<exists>k. json_body (meb_diag_json_escape (Some s) dst_len) = Some (take k (c_str s)))"
proof -
  obtain k where k: "k \<le> length s" "NUL \<notin> set (take k s)"
    "json_escape_loop dst_len s [] = concat (map json_escape_char (take k s))"
    using json_escape_loop_prefix [of s dst_len "[]"] by auto
  have "take k s = take k (c_str s)"
    using k(2) by (rule take_c_str)
  with k(2,3) have "json_body (json_escape_loop dst_len s []) = Some (take k (c_str s))"
    by (simp add: json_body_escapes)
  moreover have "length (json_escape_loop dst_len s []) < dst_len"
    by (rule json_escape_loop_bound) (use assms in simp)
  ultimately show ?thesis using assms by (auto simp: meb_diag_json_escape_def)
qed

theorem json_escape_safe_witness:
  "length (meb_diag_json_escape (Some [CHR 0x22, CHR 0x0A, CHR ''x'']) 4) < 4
    \<and> (\<exists>k. json_body (meb_diag_json_escape (Some [CHR 0x22, CHR 0x0A, CHR ''x'']) 4)
          = Some (take k (c_str [CHR 0x22, CHR 0x0A, CHR ''x''])))"
  by (rule json_escape_safe) simp

text \<open>
  A text without control characters other than the five with a short escape is escaped
  completely by a buffer of twice its length plus one, the size the console gives to the texts
  of an event; a reader gets the whole text back.
\<close>

theorem json_escape_complete:
  assumes "NUL \<notin> set s"
    and "list_all (\<lambda>c. json_short_escape c \<noteq> None \<or> 0x20 \<le> (of_char c :: nat)) s"
  shows "json_body (meb_diag_json_escape (Some s) (2 * length s + 1)) = Some s"
proof -
  have "length (json_escape_char c) \<le> 2" if "c \<in> set s" for c
    using that assms(2)
    by (auto simp: list_all_iff json_escape_char_def dest: json_short_escape_length split: option.splits)
  then have "length (concat (map json_escape_char s)) \<le> 2 * length s"
    by (induction s) (fastforce)+
  then have "json_escape_loop (2 * length s + 1) s [] = concat (map json_escape_char s)"
    using json_escape_loop_all [of s "[]" "2 * length s + 1"] assms(1) by simp
  with assms(1) show ?thesis
    by (simp add: meb_diag_json_escape_def json_body_escapes)
qed

theorem json_escape_complete_witness:
  "json_body (meb_diag_json_escape (Some [CHR ''a'', CHR 0x0A, CHR 0x5C]) 7) = Some [CHR ''a'', CHR 0x0A, CHR 0x5C]"
  using json_escape_complete [of "[CHR ''a'', CHR 0x0A, CHR 0x5C]"]
  by (simp add: NUL_def json_short_escape_def)

section \<open>The status report\<close>

record meb_diag_status =
  ds_uptime_ms :: u64
  ds_reset_reason :: esp_reset_reason
  ds_free_heap :: u32
  ds_minimum_free_heap :: u32
  ds_free_8bit_heap :: u32
  ds_minimum_free_8bit_heap :: u32
  ds_largest_free_8bit_block :: u32

text \<open>\<open>heap8\<close> is what the three \<open>heap_caps\<close> queries answer.\<close>

definition meb_diag_get_status :: "reading \<Rightarrow> esp_reset_reason \<Rightarrow> u32 \<times> u32 \<times> u32 \<Rightarrow> meb_diag_status" where
  "meb_diag_get_status r reason heap8 =
     (let (free8, min8, largest8) = heap8 in
      \<lparr>ds_uptime_ms = uptime_ms r, ds_reset_reason = reason, ds_free_heap = rd_free_heap r,
       ds_minimum_free_heap = rd_min_free_heap r, ds_free_8bit_heap = free8,
       ds_minimum_free_8bit_heap = min8, ds_largest_free_8bit_block = largest8\<rparr>)"

end
