(* ===== verification/App_State.thy ===== *)
theory App_State
  imports C_Double Diagnostics
begin

text \<open>
  \<open>main/app_state.c\<close> and \<open>main/app_state.h\<close>: the state shared by the CAN, control, telemetry,
  console and LED tasks. It holds the signals decoded from CAN with the time each was last seen,
  the user's heating request and the two auto-off deadlines. Every function takes the moment it
  reads from \<open>esp_timer_get_time\<close> (microseconds since boot) as an argument; the section each
  function runs under \<open>s_state_lock\<close> is one atomic state change.
\<close>

section \<open>Data\<close>

text \<open>\<open>meb_nullable_u8_t\<close>, \<open>meb_nullable_u32_t\<close> and \<open>meb_nullable_double_t\<close>.\<close>

record 'a nullable =
  nv_valid :: bool
  nv_value :: 'a

record meb_heating_status =
  hs_valid :: bool
  hs_active :: u8
  hs_request :: u8
  hs_cooling_request :: u8
  hs_power_w :: u8
  hs_power_req_w :: u8

record meb_charge_limits =
  cl_valid :: bool
  cl_power_kw :: double
  cl_current_a :: double

record meb_battery_temperature =
  bt_valid :: bool
  bt_min_c :: double
  bt_max_c :: double

record meb_state_snapshot =
  heating_status :: meb_heating_status
  temperature_status_charge :: "u8 nullable"
  charge_limits :: meb_charge_limits
  battery_temperature :: meb_battery_temperature
  bms_soc_percent :: "double nullable"
  session_error :: bool
  heating_enabled :: bool
  auto_off_timer_enabled :: bool
  auto_off_timer_minutes :: u32
  auto_off_remaining_minutes :: "u32 nullable"

datatype meb_heating_auto_off_reason =
    MEB_HEATING_AUTO_OFF_NONE | MEB_HEATING_AUTO_OFF_TIMER | MEB_HEATING_AUTO_OFF_SAFETY

text \<open>The build options of \<open>main/Kconfig.projbuild\<close> the state machine depends on.\<close>

record build_config =
  MEB_SAFETY_AUTO_OFF_ENABLED :: bool
  MEB_SAFETY_AUTO_OFF_MINUTES :: u32

definition default_config :: build_config where
  "default_config = \<lparr>MEB_SAFETY_AUTO_OFF_ENABLED = True, MEB_SAFETY_AUTO_OFF_MINUTES = 180\<rparr>"

record app_state =
  s_state :: meb_state_snapshot
  s_state_lock :: bool
  s_heating_enabled_since_us :: int
  s_user_auto_off_deadline_us :: int
  s_heating_status_seen_us :: int
  s_temperature_status_charge_seen_us :: int
  s_charge_limits_seen_us :: int
  s_battery_temperature_seen_us :: int
  s_bms_soc_percent_seen_us :: int

definition zero_snapshot :: meb_state_snapshot where
  "zero_snapshot =
    \<lparr>heating_status = \<lparr>hs_valid = False, hs_active = 0, hs_request = 0, hs_cooling_request = 0,
       hs_power_w = 0, hs_power_req_w = 0\<rparr>,
     temperature_status_charge = \<lparr>nv_valid = False, nv_value = 0\<rparr>,
     charge_limits = \<lparr>cl_valid = False, cl_power_kw = 0, cl_current_a = 0\<rparr>,
     battery_temperature = \<lparr>bt_valid = False, bt_min_c = 0, bt_max_c = 0\<rparr>,
     bms_soc_percent = \<lparr>nv_valid = False, nv_value = 0\<rparr>,
     session_error = False, heating_enabled = False, auto_off_timer_enabled = False,
     auto_off_timer_minutes = 0,
     auto_off_remaining_minutes = \<lparr>nv_valid = False, nv_value = 0\<rparr>\<rparr>"

definition app_boot_state :: app_state where
  "app_boot_state = \<lparr>s_state = zero_snapshot, s_state_lock = False,
     s_heating_enabled_since_us = 0, s_user_auto_off_deadline_us = 0,
     s_heating_status_seen_us = 0, s_temperature_status_charge_seen_us = 0,
     s_charge_limits_seen_us = 0, s_battery_temperature_seen_us = 0,
     s_bms_soc_percent_seen_us = 0\<rparr>"

section \<open>Time\<close>

definition US_PER_MINUTE :: int where "US_PER_MINUTE = 60 * 1000 * 1000"
definition MEB_CAN_SIGNAL_STALE_MS :: int where "MEB_CAN_SIGNAL_STALE_MS = 30000"
definition MEB_CAN_SIGNAL_STALE_US :: int where
  "MEB_CAN_SIGNAL_STALE_US = MEB_CAN_SIGNAL_STALE_MS * 1000"

definition minutes_to_us :: "u32 \<Rightarrow> int" where
  "minutes_to_us minutes = uint minutes * US_PER_MINUTE"

definition can_signal_is_fresh :: "int \<Rightarrow> int \<Rightarrow> bool" where
  "can_signal_is_fresh now_us last_seen_us \<longleftrightarrow>
     last_seen_us > 0 \<and> now_us - last_seen_us < MEB_CAN_SIGNAL_STALE_US"

definition invalidate_stale_can_signals_locked ::
    "app_state \<Rightarrow> meb_state_snapshot \<Rightarrow> int \<Rightarrow> meb_state_snapshot" where
  "invalidate_stale_can_signals_locked st snapshot now_us =
    (let s1 = (if \<not> can_signal_is_fresh now_us (s_heating_status_seen_us st)
               then snapshot\<lparr>heating_status := (heating_status snapshot)\<lparr>hs_valid := False\<rparr>\<rparr>
               else snapshot);
         s2 = (if \<not> can_signal_is_fresh now_us (s_temperature_status_charge_seen_us st)
               then s1\<lparr>temperature_status_charge := (temperature_status_charge s1)\<lparr>nv_valid := False\<rparr>\<rparr>
               else s1);
         s3 = (if \<not> can_signal_is_fresh now_us (s_charge_limits_seen_us st)
               then s2\<lparr>charge_limits := (charge_limits s2)\<lparr>cl_valid := False\<rparr>\<rparr>
               else s2);
         s4 = (if \<not> can_signal_is_fresh now_us (s_battery_temperature_seen_us st)
               then s3\<lparr>battery_temperature := (battery_temperature s3)\<lparr>bt_valid := False\<rparr>\<rparr>
               else s3)
     in if \<not> can_signal_is_fresh now_us (s_bms_soc_percent_seen_us st)
        then s4\<lparr>bms_soc_percent := (bms_soc_percent s4)\<lparr>nv_valid := False\<rparr>\<rparr>
        else s4)"

definition remaining_minutes_ceil :: "int \<Rightarrow> u32" where
  "remaining_minutes_ceil remaining_us =
     (if remaining_us \<le> 0 then 0
      else word_of_int ((remaining_us + US_PER_MINUTE - 1) div US_PER_MINUTE))"

definition safety_auto_off_deadline_locked :: "build_config \<Rightarrow> app_state \<Rightarrow> int" where
  "safety_auto_off_deadline_locked cfg st =
     (if MEB_SAFETY_AUTO_OFF_ENABLED cfg \<and> s_heating_enabled_since_us st > 0 \<and>
         MEB_SAFETY_AUTO_OFF_MINUTES cfg > 0
      then s_heating_enabled_since_us st + minutes_to_us (MEB_SAFETY_AUTO_OFF_MINUTES cfg)
      else 0)"

definition effective_auto_off_deadline_locked :: "build_config \<Rightarrow> app_state \<Rightarrow> int" where
  "effective_auto_off_deadline_locked cfg st =
     (let deadline_us = s_user_auto_off_deadline_us st;
          safety_deadline_us = safety_auto_off_deadline_locked cfg st
      in if safety_deadline_us > 0 \<and> (deadline_us = 0 \<or> safety_deadline_us < deadline_us)
         then safety_deadline_us else deadline_us)"

section \<open>Operations\<close>

definition meb_state_init :: "bool \<Rightarrow> app_state \<Rightarrow> esp_err \<times> app_state" where
  "meb_state_init mutex_created st =
     (if \<not> mutex_created then (ESP_ERR_NO_MEM, st\<lparr>s_state_lock := False\<rparr>)
      else (ESP_OK, app_boot_state\<lparr>s_state_lock := True\<rparr>))"

definition meb_state_get_snapshot :: "build_config \<Rightarrow> int \<Rightarrow> app_state \<Rightarrow> meb_state_snapshot" where
  "meb_state_get_snapshot cfg now_us st =
     (let snapshot = invalidate_stale_can_signals_locked st (s_state st) now_us;
          snapshot = snapshot\<lparr>
            auto_off_timer_enabled := auto_off_timer_minutes (s_state st) > 0,
            auto_off_remaining_minutes := \<lparr>nv_valid = False, nv_value = 0\<rparr>\<rparr>;
          deadline_us = effective_auto_off_deadline_locked cfg st
      in if heating_enabled (s_state st) \<and> deadline_us > 0
         then snapshot\<lparr>auto_off_remaining_minutes :=
                \<lparr>nv_valid = True, nv_value = remaining_minutes_ceil (deadline_us - now_us)\<rparr>\<rparr>
         else snapshot)"

definition set_heating_locked :: "int \<Rightarrow> bool \<Rightarrow> app_state \<Rightarrow> app_state" where
  "set_heating_locked now_us enabled st =
     (let st1 =
        (if enabled then
           (if \<not> heating_enabled (s_state st)
            then st\<lparr>s_heating_enabled_since_us := now_us,
                    s_user_auto_off_deadline_us :=
                      (if auto_off_timer_minutes (s_state st) > 0
                       then now_us + minutes_to_us (auto_off_timer_minutes (s_state st)) else 0)\<rparr>
            else st)
         else st\<lparr>s_heating_enabled_since_us := 0, s_user_auto_off_deadline_us := 0\<rparr>)
      in st1\<lparr>s_state := (s_state st1)\<lparr>heating_enabled := enabled\<rparr>\<rparr>)"

definition bool_text :: "bool \<Rightarrow> string" where
  "bool_text b = (if b then ''true'' else ''false'')"

text \<open>
  \<open>r\<close> is what the platform answers in the locked section, \<open>r'\<close> what it answers when the event
  is recorded afterwards.
\<close>

definition meb_state_set_heating_enabled ::
    "reading \<Rightarrow> reading \<Rightarrow> bool \<Rightarrow> app_state \<times> diag_state \<Rightarrow> app_state \<times> diag_state" where
  "meb_state_set_heating_enabled r r' enabled = (\<lambda>(st, d).
     (let changed = (heating_enabled (s_state st) \<noteq> enabled)
      in (set_heating_locked (rd_time_us r) enabled st,
          if changed then meb_diag_record_eventf r' ''control'' ''heating_enabled''
                            (Some (''enabled='' @ bool_text enabled)) d
          else d)))"

definition meb_state_is_heating_enabled :: "app_state \<Rightarrow> bool" where
  "meb_state_is_heating_enabled st = heating_enabled (s_state st)"

definition set_timer_locked :: "int \<Rightarrow> u32 \<Rightarrow> app_state \<Rightarrow> app_state" where
  "set_timer_locked now_us minutes st =
     (let st1 = st\<lparr>s_state := (s_state st)\<lparr>auto_off_timer_minutes := minutes\<rparr>\<rparr>
      in if heating_enabled (s_state st1)
         then st1\<lparr>s_user_auto_off_deadline_us :=
                (if minutes > 0 then now_us + minutes_to_us minutes else 0)\<rparr>
         else st1\<lparr>s_user_auto_off_deadline_us := 0\<rparr>)"

definition meb_state_set_auto_off_timer_minutes ::
    "reading \<Rightarrow> reading \<Rightarrow> u32 \<Rightarrow> app_state \<times> diag_state \<Rightarrow> esp_err \<times> app_state \<times> diag_state" where
  "meb_state_set_auto_off_timer_minutes r r' minutes = (\<lambda>(st, d).
     (ESP_OK, set_timer_locked (rd_time_us r) minutes st,
      meb_diag_record_eventf r' ''control'' ''auto_off_timer''
        (Some (''minutes='' @ print_dec (unat minutes))) d))"

definition meb_state_apply_auto_off ::
    "build_config \<Rightarrow> int \<Rightarrow> app_state \<Rightarrow> meb_heating_auto_off_reason \<times> app_state" where
  "meb_state_apply_auto_off cfg now_us st =
     (if heating_enabled (s_state st) then
        (let user_deadline_us = s_user_auto_off_deadline_us st;
             safety_deadline_us = safety_auto_off_deadline_locked cfg st;
             deadline_us =
               (if safety_deadline_us > 0 \<and>
                   (user_deadline_us = 0 \<or> safety_deadline_us < user_deadline_us)
                then safety_deadline_us else user_deadline_us)
         in if deadline_us > 0 \<and> now_us \<ge> deadline_us
            then (if user_deadline_us > 0 \<and> user_deadline_us \<le> deadline_us
                  then MEB_HEATING_AUTO_OFF_TIMER else MEB_HEATING_AUTO_OFF_SAFETY,
                  st\<lparr>s_state := (s_state st)\<lparr>heating_enabled := False\<rparr>,
                     s_heating_enabled_since_us := 0, s_user_auto_off_deadline_us := 0\<rparr>)
            else (MEB_HEATING_AUTO_OFF_NONE, st))
      else (MEB_HEATING_AUTO_OFF_NONE, st))"

definition meb_state_take_session_error :: "app_state \<Rightarrow> bool \<times> app_state" where
  "meb_state_take_session_error st =
     (session_error (s_state st), st\<lparr>s_state := (s_state st)\<lparr>session_error := False\<rparr>\<rparr>)"

section \<open>Decoding of CAN frames\<close>

text \<open>
  \<open>data\<close> is the frame's buffer, \<open>len\<close> the number of its valid bytes (a null pointer is \<open>None\<close>).
  A byte is read only below \<open>len\<close>.
\<close>

definition soc_response :: "u8 list \<Rightarrow> u16 \<Rightarrow> bool" where
  "soc_response data len \<longleftrightarrow>
     len \<ge> 5 \<and> data ! 0 = 0x04 \<and> data ! 1 = 0x62 \<and> data ! 2 = 0x02 \<and> data ! 3 = 0x8C"

definition negative_response :: "u8 list \<Rightarrow> u16 \<Rightarrow> bool" where
  "negative_response data len \<longleftrightarrow>
     len \<ge> 4 \<and> data ! 0 = 0x03 \<and> data ! 1 = 0x7F \<and> data ! 2 = 0x2F \<and> data ! 3 = 0x7F"

definition meb_state_update_diag_response ::
    "reading \<Rightarrow> u8 list option \<Rightarrow> u16 \<Rightarrow> app_state \<times> diag_state \<Rightarrow> app_state \<times> diag_state" where
  "meb_state_update_diag_response r data_ptr len = (\<lambda>(st, d).
     (case data_ptr of
        None \<Rightarrow> (st, d)
      | Some data \<Rightarrow>
          if soc_response data len then
            (if data ! 4 \<le> 250
             then (st\<lparr>s_state := (s_state st)\<lparr>bms_soc_percent :=
                        \<lparr>nv_valid = True, nv_value = double_div (double_of_int (uint (data ! 4))) (5 / 2)\<rparr>\<rparr>,
                      s_bms_soc_percent_seen_us := rd_time_us r\<rparr>, d)
             else (st, d))
          else if negative_response data len then
            (st\<lparr>s_state := (s_state st)\<lparr>session_error := True\<rparr>\<rparr>,
             meb_diag_record_event r (Some ''can'') (Some ''diag_negative'')
               (Some ''routine rejected'') d)
          else (st, d)))"

definition meb_state_update_heating_status ::
    "int \<Rightarrow> u8 list option \<Rightarrow> u16 \<Rightarrow> app_state \<Rightarrow> app_state" where
  "meb_state_update_heating_status now_us data_ptr len st =
     (case data_ptr of
        None \<Rightarrow> st
      | Some data \<Rightarrow>
          if len < 8 then st
          else st\<lparr>s_state := (s_state st)\<lparr>heating_status :=
                    \<lparr>hs_valid = True,
                     hs_active = drop_bit 6 (data ! 4 AND 0x40),
                     hs_request = drop_bit 5 (data ! 5 AND 0xE0),
                     hs_cooling_request = drop_bit 2 (data ! 5 AND 0x1C),
                     hs_power_w = data ! 6,
                     hs_power_req_w = data ! 7\<rparr>\<rparr>,
                  s_heating_status_seen_us := now_us\<rparr>)"

definition meb_state_update_charging_optimization ::
    "int \<Rightarrow> u8 list option \<Rightarrow> u16 \<Rightarrow> app_state \<Rightarrow> app_state" where
  "meb_state_update_charging_optimization now_us data_ptr len st =
     (case data_ptr of
        None \<Rightarrow> st
      | Some data \<Rightarrow>
          if len < 3 then st
          else st\<lparr>s_state := (s_state st)\<lparr>temperature_status_charge :=
                    \<lparr>nv_valid = True,
                     nv_value = push_bit 1 (data ! 2 AND 0x03) OR drop_bit 7 (data ! 1)\<rparr>\<rparr>,
                  s_temperature_status_charge_seen_us := now_us\<rparr>)"

definition charge_power_raw :: "u8 list \<Rightarrow> int" where
  "charge_power_raw data = push_bit 5 (uint (data ! 7)) OR drop_bit 3 (uint (data ! 6))"

definition charge_current_raw :: "u8 list \<Rightarrow> int" where
  "charge_current_raw data = push_bit 7 (uint (data ! 4) AND 0x3F) OR drop_bit 1 (uint (data ! 3))"

definition meb_state_update_dynamic ::
    "int \<Rightarrow> u8 list option \<Rightarrow> u16 \<Rightarrow> app_state \<Rightarrow> app_state" where
  "meb_state_update_dynamic now_us data_ptr len st =
     (case data_ptr of
        None \<Rightarrow> st
      | Some data \<Rightarrow>
          if len < 8 then st
          else st\<lparr>s_state := (s_state st)\<lparr>charge_limits :=
                    \<lparr>cl_valid = True,
                     cl_power_kw = double_mul (double_of_int (charge_power_raw data)) (to_double (1 / 10)),
                     cl_current_a = double_mul (double_of_int (charge_current_raw data)) (to_double (1 / 5))\<rparr>\<rparr>,
                  s_charge_limits_seen_us := now_us\<rparr>)"

definition battery_celsius :: "u8 \<Rightarrow> double" where
  "battery_celsius b = double_sub (double_mul (double_of_int (uint b)) (to_double (1 / 2))) 40"

definition meb_state_update_temperature ::
    "int \<Rightarrow> u8 list option \<Rightarrow> u16 \<Rightarrow> app_state \<Rightarrow> app_state" where
  "meb_state_update_temperature now_us data_ptr len st =
     (case data_ptr of
        None \<Rightarrow> st
      | Some data \<Rightarrow>
          if len < 5 then st
          else st\<lparr>s_state := (s_state st)\<lparr>battery_temperature :=
                    \<lparr>bt_valid = True, bt_min_c = battery_celsius (data ! 4),
                     bt_max_c = battery_celsius (data ! 3)\<rparr>\<rparr>,
                  s_battery_temperature_seen_us := now_us\<rparr>)"

section \<open>Bit fields\<close>

lemma field_bits_2_4: "uint (drop_bit 2 ((x :: u8) AND 0x1C)) = uint x div 4 mod 8"
proof -
  have "drop_bit 2 (x AND 0x1C) = take_bit 3 (drop_bit 2 x)"
    by (simp add: drop_bit_and take_bit_eq_mask mask_eq_exp_minus_1)
  then show ?thesis by (simp add: drop_bit_eq_div take_bit_eq_mod uint_div uint_mod)
qed

lemma field_bits_5_7: "uint (drop_bit 5 ((x :: u8) AND 0xE0)) = uint x div 32"
proof -
  have "drop_bit 5 (x AND 0xE0) = take_bit 3 (drop_bit 5 x)"
    by (simp add: drop_bit_and take_bit_eq_mask mask_eq_exp_minus_1)
  then have "uint (drop_bit 5 (x AND 0xE0)) = uint x div 32 mod 8"
    by (simp add: drop_bit_eq_div take_bit_eq_mod uint_div uint_mod)
  also have "\<dots> = uint x div 32"
    using u8_bound [of x] by (intro mod_pos_pos_trivial) (auto simp: pos_imp_zdiv_nonneg_iff)
  finally show ?thesis .
qed

lemma field_bit_6: "uint (drop_bit 6 ((x :: u8) AND 0x40)) = uint x div 64 mod 2"
proof -
  have "drop_bit 6 (x AND 0x40) = take_bit 1 (drop_bit 6 x)"
    by (simp add: drop_bit_and take_bit_eq_mask mask_eq_exp_minus_1)
  then show ?thesis by (simp add: drop_bit_eq_div take_bit_eq_mod uint_div uint_mod)
qed

lemma field_split:
  fixes x y :: u8
  shows "uint (push_bit 1 (x AND 0x03) OR drop_bit 7 y) = 2 * (uint x mod 4) + uint y div 128"
proof -
  have "x AND 3 = take_bit 2 x" by (simp add: take_bit_eq_mask mask_eq_exp_minus_1)
  then have x: "uint (x AND 0x03) = uint x mod 4" by (simp add: take_bit_eq_mod uint_mod)
  have "uint (push_bit 1 w) = push_bit 1 (uint w)" if "uint w < 4" for w :: u8
    using that by (simp add: push_bit_eq_mult uint_word_ariths)
  from this [of "x AND 3"] have "uint (push_bit 1 (x AND 0x03)) = push_bit 1 (uint x mod 4)"
    unfolding x by simp
  moreover have "uint (drop_bit 7 y) = uint y div 128" by (simp add: drop_bit_eq_div uint_div)
  moreover have "push_bit 1 (uint x mod 4) OR (uint y div 128) = (uint x mod 4) * 2 ^ 1 + uint y div 128"
    using u8_bound [of y] by (intro push_or) (auto simp: pos_imp_zdiv_nonneg_iff)
  ultimately show ?thesis by (simp only: uint_or) simp
qed

lemma charge_power_raw_eq: "charge_power_raw data = 32 * uint (data ! 7) + uint (data ! 6) div 8"
proof -
  have "push_bit 5 (uint (data ! 7)) OR (uint (data ! 6) div 8) = uint (data ! 7) * 2 ^ 5 + uint (data ! 6) div 8"
    using u8_bound [of "data ! 6"] by (intro push_or) (auto simp: pos_imp_zdiv_nonneg_iff)
  then show ?thesis by (simp add: charge_power_raw_def drop_bit_eq_div)
qed

lemma charge_current_raw_eq:
  "charge_current_raw data = 128 * (uint (data ! 4) mod 64) + uint (data ! 3) div 2"
proof -
  have "uint (data ! 4) AND 0x3F = uint (data ! 4) mod 64"
    using take_bit_eq_mask [of 6 "uint (data ! 4)"] by (simp add: take_bit_eq_mod mask_eq_exp_minus_1)
  moreover have "push_bit 7 (uint (data ! 4) mod 64) OR (uint (data ! 3) div 2) =
      (uint (data ! 4) mod 64) * 2 ^ 7 + uint (data ! 3) div 2"
    using u8_bound [of "data ! 3"] by (intro push_or) (auto simp: pos_imp_zdiv_nonneg_iff)
  ultimately show ?thesis by (simp add: charge_current_raw_def drop_bit_eq_div)
qed

section \<open>Freshness of a signal\<close>

text \<open>
  The contract the five CAN signals share: a frame that carries the signal makes it valid and
  stamps it, any other frame leaves its validity and its stamp alone, and a snapshot shows it
  as valid exactly while its last stamp is fresh.
\<close>

locale can_signal =
  fixes upd :: "int \<Rightarrow> u8 list option \<Rightarrow> u16 \<Rightarrow> app_state \<Rightarrow> app_state"
    and carries :: "u8 list option \<Rightarrow> u16 \<Rightarrow> bool"
    and valid :: "meb_state_snapshot \<Rightarrow> bool"
    and seen :: "app_state \<Rightarrow> int"
  assumes upd_valid: "carries p len \<Longrightarrow> valid (s_state (upd t p len st))"
    and upd_seen: "carries p len \<Longrightarrow> seen (upd t p len st) = t"
    and skip_valid: "\<not> carries p len \<Longrightarrow> valid (s_state (upd t p len st)) = valid (s_state st)"
    and skip_seen: "\<not> carries p len \<Longrightarrow> seen (upd t p len st) = seen st"
    and snapshot_valid: "valid (meb_state_get_snapshot cfg now st) =
          (valid (s_state st) \<and> can_signal_is_fresh now (seen st))"
begin

lemma window:
  "carries p len \<Longrightarrow> 0 < t \<Longrightarrow>
     valid (meb_state_get_snapshot cfg now (upd t p len st)) = (now < t + MEB_CAN_SIGNAL_STALE_US)"
  by (auto simp: snapshot_valid upd_valid upd_seen can_signal_is_fresh_def)

lemma skipped:
  "\<not> carries p len \<Longrightarrow>
     valid (meb_state_get_snapshot cfg now (upd t p len st)) = valid (meb_state_get_snapshot cfg now st)"
  by (simp add: snapshot_valid skip_valid skip_seen)

lemma unseen: "seen st = 0 \<Longrightarrow> \<not> valid (meb_state_get_snapshot cfg now st)"
  by (simp add: snapshot_valid can_signal_is_fresh_def)

end

lemmas signal_defs =
  meb_state_update_heating_status_def meb_state_update_charging_optimization_def
  meb_state_update_dynamic_def meb_state_update_temperature_def meb_state_update_diag_response_def

definition soc_update :: "int \<Rightarrow> u8 list option \<Rightarrow> u16 \<Rightarrow> app_state \<Rightarrow> app_state" where
  "soc_update t p len st =
     fst (meb_state_update_diag_response \<lparr>rd_time_us = t, rd_free_heap = 0, rd_min_free_heap = 0\<rparr>
       p len (st, diag_boot_state))"

definition carries_soc :: "u8 list option \<Rightarrow> u16 \<Rightarrow> bool" where
  "carries_soc p len \<longleftrightarrow> (\<exists>data. p = Some data \<and> soc_response data len \<and> data ! 4 \<le> 250)"

definition carries_from :: "u16 \<Rightarrow> u8 list option \<Rightarrow> u16 \<Rightarrow> bool" where
  "carries_from n p len \<longleftrightarrow> p \<noteq> None \<and> \<not> len < n"

lemma snapshot_signals:
  "heating_status (meb_state_get_snapshot cfg now st) =
     (let h = heating_status (s_state st)
      in h\<lparr>hs_valid := hs_valid h \<and> can_signal_is_fresh now (s_heating_status_seen_us st)\<rparr>)"
  "temperature_status_charge (meb_state_get_snapshot cfg now st) =
     (let h = temperature_status_charge (s_state st)
      in h\<lparr>nv_valid := nv_valid h \<and> can_signal_is_fresh now (s_temperature_status_charge_seen_us st)\<rparr>)"
  "charge_limits (meb_state_get_snapshot cfg now st) =
     (let h = charge_limits (s_state st)
      in h\<lparr>cl_valid := cl_valid h \<and> can_signal_is_fresh now (s_charge_limits_seen_us st)\<rparr>)"
  "battery_temperature (meb_state_get_snapshot cfg now st) =
     (let h = battery_temperature (s_state st)
      in h\<lparr>bt_valid := bt_valid h \<and> can_signal_is_fresh now (s_battery_temperature_seen_us st)\<rparr>)"
  "bms_soc_percent (meb_state_get_snapshot cfg now st) =
     (let h = bms_soc_percent (s_state st)
      in h\<lparr>nv_valid := nv_valid h \<and> can_signal_is_fresh now (s_bms_soc_percent_seen_us st)\<rparr>)"
  by (simp_all add: meb_state_get_snapshot_def invalidate_stale_can_signals_locked_def Let_def)

lemma snapshot_control:
  "heating_enabled (meb_state_get_snapshot cfg now st) = heating_enabled (s_state st)"
  "session_error (meb_state_get_snapshot cfg now st) = session_error (s_state st)"
  "auto_off_timer_minutes (meb_state_get_snapshot cfg now st) = auto_off_timer_minutes (s_state st)"
  "auto_off_timer_enabled (meb_state_get_snapshot cfg now st) = (auto_off_timer_minutes (s_state st) > 0)"
  "auto_off_remaining_minutes (meb_state_get_snapshot cfg now st) =
     (if heating_enabled (s_state st) \<and> effective_auto_off_deadline_locked cfg st > 0
      then \<lparr>nv_valid = True,
            nv_value = remaining_minutes_ceil (effective_auto_off_deadline_locked cfg st - now)\<rparr>
      else \<lparr>nv_valid = False, nv_value = 0\<rparr>)"
  by (simp_all add: meb_state_get_snapshot_def invalidate_stale_can_signals_locked_def Let_def)

interpretation heating_signal: can_signal meb_state_update_heating_status "carries_from 8"
    "\<lambda>s. hs_valid (heating_status s)" s_heating_status_seen_us
  by unfold_locales (auto simp: signal_defs carries_from_def snapshot_signals Let_def split: option.splits)

interpretation thermal_signal: can_signal meb_state_update_charging_optimization "carries_from 3"
    "\<lambda>s. nv_valid (temperature_status_charge s)" s_temperature_status_charge_seen_us
  by unfold_locales (auto simp: signal_defs carries_from_def snapshot_signals Let_def split: option.splits)

interpretation limits_signal: can_signal meb_state_update_dynamic "carries_from 8"
    "\<lambda>s. cl_valid (charge_limits s)" s_charge_limits_seen_us
  by unfold_locales (auto simp: signal_defs carries_from_def snapshot_signals Let_def split: option.splits)

interpretation temperature_signal: can_signal meb_state_update_temperature "carries_from 5"
    "\<lambda>s. bt_valid (battery_temperature s)" s_battery_temperature_seen_us
  by unfold_locales (auto simp: signal_defs carries_from_def snapshot_signals Let_def split: option.splits)

interpretation soc_signal: can_signal soc_update carries_soc
    "\<lambda>s. nv_valid (bms_soc_percent s)" s_bms_soc_percent_seen_us
  by unfold_locales
    (auto simp: soc_update_def carries_soc_def signal_defs snapshot_signals Let_def split: option.splits)

section \<open>Runs of the shared state\<close>

text \<open>
  The calls other tasks make, each with what the platform answers meanwhile: the console sets
  the request and the timer, the control task applies the auto-off and takes the session error,
  the CAN task delivers frames.
\<close>

datatype app_event =
    SetHeating bool
  | SetTimer u32
  | ApplyAutoOff
  | TakeSessionError
  | DiagResponse "u8 list option" u16
  | HeatingStatus "u8 list option" u16
  | ChargingOptimization "u8 list option" u16
  | Dynamic "u8 list option" u16
  | Temperature "u8 list option" u16

fun app_step :: "build_config \<Rightarrow> reading \<times> app_event \<Rightarrow> app_state \<times> diag_state \<Rightarrow> app_state \<times> diag_state" where
  "app_step cfg (r, SetHeating b) s = meb_state_set_heating_enabled r r b s"
| "app_step cfg (r, SetTimer m) s = snd (meb_state_set_auto_off_timer_minutes r r m s)"
| "app_step cfg (r, ApplyAutoOff) s = (snd (meb_state_apply_auto_off cfg (rd_time_us r) (fst s)), snd s)"
| "app_step cfg (r, TakeSessionError) s = (snd (meb_state_take_session_error (fst s)), snd s)"
| "app_step cfg (r, DiagResponse p n) s = meb_state_update_diag_response r p n s"
| "app_step cfg (r, HeatingStatus p n) s = (meb_state_update_heating_status (rd_time_us r) p n (fst s), snd s)"
| "app_step cfg (r, ChargingOptimization p n) s =
     (meb_state_update_charging_optimization (rd_time_us r) p n (fst s), snd s)"
| "app_step cfg (r, Dynamic p n) s = (meb_state_update_dynamic (rd_time_us r) p n (fst s), snd s)"
| "app_step cfg (r, Temperature p n) s = (meb_state_update_temperature (rd_time_us r) p n (fst s), snd s)"

abbreviation "app_run cfg es s \<equiv> fold (app_step cfg) es s"

abbreviation heating :: "app_state \<times> diag_state \<Rightarrow> bool" where
  "heating s \<equiv> heating_enabled (s_state (fst s))"

subsection \<open>Invariant\<close>

text \<open>
  The deadlines exist only while heating is requested; while it is, the user's deadline exists
  exactly when a timer is set. A valid signal has a stamp, and the decoded fields stay within
  their bit widths.
\<close>

definition auto_off_inv :: "app_state \<Rightarrow> bool" where
  "auto_off_inv st \<longleftrightarrow>
     (if heating_enabled (s_state st)
      then s_heating_enabled_since_us st > 0 \<and>
           (if auto_off_timer_minutes (s_state st) = 0 then s_user_auto_off_deadline_us st = 0
            else s_user_auto_off_deadline_us st > 0)
      else s_heating_enabled_since_us st = 0 \<and> s_user_auto_off_deadline_us st = 0)"

definition signals_inv :: "app_state \<Rightarrow> bool" where
  "signals_inv st \<longleftrightarrow>
     (let s = s_state st in
      (hs_valid (heating_status s) \<longrightarrow> s_heating_status_seen_us st > 0) \<and>
      (nv_valid (temperature_status_charge s) \<longrightarrow> s_temperature_status_charge_seen_us st > 0) \<and>
      (cl_valid (charge_limits s) \<longrightarrow> s_charge_limits_seen_us st > 0) \<and>
      (bt_valid (battery_temperature s) \<longrightarrow> s_battery_temperature_seen_us st > 0) \<and>
      (nv_valid (bms_soc_percent s) \<longrightarrow> s_bms_soc_percent_seen_us st > 0) \<and>
      hs_active (heating_status s) \<le> 1 \<and> hs_request (heating_status s) \<le> 7 \<and>
      hs_cooling_request (heating_status s) \<le> 7 \<and>
      nv_value (temperature_status_charge s) \<le> 7)"

definition app_inv :: "app_state \<Rightarrow> bool" where
  "app_inv st \<longleftrightarrow> auto_off_inv st \<and> signals_inv st"

lemma minutes_to_us_pos: "0 < m \<Longrightarrow> 0 < minutes_to_us m"
  by (simp add: minutes_to_us_def US_PER_MINUTE_def word_less_def)

lemma minutes_to_us_nonneg [simp]: "0 \<le> minutes_to_us m"
  by (simp add: minutes_to_us_def US_PER_MINUTE_def)

lemma minutes_to_us_zero [simp]: "minutes_to_us 0 = 0"
  by (simp add: minutes_to_us_def)

lemma u8_field_bounds:
  fixes x y :: u8
  shows "drop_bit 6 (x AND 0x40) \<le> 1" "drop_bit 5 (x AND 0xE0) \<le> 7"
    "drop_bit 2 (x AND 0x1C) \<le> 7" "push_bit 1 (x AND 0x03) OR drop_bit 7 y \<le> 7"
  unfolding word_le_def field_bit_6 field_bits_5_7 field_bits_2_4 field_split
  using u8_bound [of x] u8_bound [of y] by simp_all

subsection \<open>The invariant is kept\<close>

lemma set_heating_inv [inv_intros]: "app_inv st \<Longrightarrow> 0 < t \<Longrightarrow> app_inv (set_heating_locked t b st)"
  by (auto simp: app_inv_def auto_off_inv_def signals_inv_def set_heating_locked_def Let_def
      word_gt_0 add_pos_nonneg split: if_splits)

lemma set_timer_inv [inv_intros]: "app_inv st \<Longrightarrow> 0 < t \<Longrightarrow> app_inv (set_timer_locked t m st)"
  by (auto simp: app_inv_def auto_off_inv_def signals_inv_def set_timer_locked_def Let_def
      word_gt_0 add_pos_nonneg split: if_splits)

lemma apply_auto_off_inv [inv_intros]: "app_inv st \<Longrightarrow> app_inv (snd (meb_state_apply_auto_off cfg t st))"
  by (auto simp: app_inv_def auto_off_inv_def signals_inv_def meb_state_apply_auto_off_def Let_def
      split: if_splits)

lemma take_session_error_inv [inv_intros]: "app_inv st \<Longrightarrow> app_inv (snd (meb_state_take_session_error st))"
  by (auto simp: app_inv_def auto_off_inv_def signals_inv_def meb_state_take_session_error_def Let_def
      split: if_splits)

lemma signal_frames_inv [inv_intros]:
  assumes "app_inv st" and "0 < t"
  shows "app_inv (meb_state_update_heating_status t p n st)"
    "app_inv (meb_state_update_charging_optimization t p n st)"
    "app_inv (meb_state_update_dynamic t p n st)"
    "app_inv (meb_state_update_temperature t p n st)"
  using assms u8_field_bounds
  by (simp_all add: app_inv_def auto_off_inv_def signals_inv_def signal_defs Let_def split: option.split)

lemma diag_response_inv [inv_intros]:
  "app_inv (fst s) \<Longrightarrow> 0 < rd_time_us r \<Longrightarrow> app_inv (fst (meb_state_update_diag_response r p n s))"
  by (cases s) (auto simp: app_inv_def auto_off_inv_def signals_inv_def signal_defs Let_def
      split: option.split if_splits)

lemma app_step_inv:
  assumes "app_inv (fst s)" and "0 < rd_time_us (fst e)"
  shows "app_inv (fst (app_step cfg e s))"
proof -
  obtain r ev where e: "e = (r, ev)" by fastforce
  obtain st d where s: "s = (st, d)" by fastforce
  from assms show ?thesis unfolding e s
    by (cases ev) (auto simp: meb_state_set_heating_enabled_def meb_state_set_auto_off_timer_minutes_def
        Let_def intro: inv_intros)
qed

lemma app_boot_inv: "app_inv (app_boot_state\<lparr>s_state_lock := b\<rparr>)"
  by (simp add: app_inv_def auto_off_inv_def signals_inv_def app_boot_state_def zero_snapshot_def)

interpretation app_system: step_system "\<lambda>s. fst s = app_boot_state\<lparr>s_state_lock := b\<rparr>"
    "\<lambda>e. 0 < rd_time_us (fst e)" "app_step cfg" "\<lambda>s. app_inv (fst s)" for b cfg
  by unfold_locales (simp_all add: app_boot_inv app_step_inv)

subsection \<open>Continuous heating\<close>

text \<open>
  No event moves the start of the heating period while heating stays on.
\<close>

lemma app_step_since:
  assumes "heating s" and "heating (app_step cfg e s)"
  shows "s_heating_enabled_since_us (fst (app_step cfg e s)) = s_heating_enabled_since_us (fst s)"
proof -
  obtain r ev where e: "e = (r, ev)" by fastforce
  obtain st d where s: "s = (st, d)" by fastforce
  from assms show ?thesis unfolding e s
    by (cases ev) (auto simp: meb_state_set_heating_enabled_def set_heating_locked_def
        meb_state_set_auto_off_timer_minutes_def set_timer_locked_def meb_state_apply_auto_off_def
        meb_state_take_session_error_def signal_defs Let_def split: option.splits if_splits)
qed

text \<open>Heating is on before, between and after all events.\<close>

fun heating_throughout :: "build_config \<Rightarrow> (reading \<times> app_event) list \<Rightarrow> app_state \<times> diag_state \<Rightarrow> bool" where
  "heating_throughout cfg [] s = heating s"
| "heating_throughout cfg (e # es) s = (heating s \<and> heating_throughout cfg es (app_step cfg e s))"

lemma app_run_since:
  "heating_throughout cfg es s \<Longrightarrow>
     s_heating_enabled_since_us (fst (app_run cfg es s)) = s_heating_enabled_since_us (fst s)"
proof (induction es arbitrary: s)
  case (Cons e es)
  then have "heating (app_step cfg e s)" by (cases es) simp_all
  with Cons show ?case by (simp add: app_step_since)
qed simp

lemma apply_auto_off_expired:
  assumes "MEB_SAFETY_AUTO_OFF_ENABLED cfg" and "0 < MEB_SAFETY_AUTO_OFF_MINUTES cfg"
    and "0 < s_heating_enabled_since_us st"
    and "s_heating_enabled_since_us st + minutes_to_us (MEB_SAFETY_AUTO_OFF_MINUTES cfg) \<le> t"
    and "0 \<le> s_user_auto_off_deadline_us st"
  shows "\<not> heating_enabled (s_state (snd (meb_state_apply_auto_off cfg t st)))"
proof -
  have "0 < safety_auto_off_deadline_locked cfg st" "safety_auto_off_deadline_locked cfg st \<le> t"
    using assms by (auto simp: safety_auto_off_deadline_locked_def add_pos_nonneg)
  then show ?thesis
    using assms(5) by (auto simp: meb_state_apply_auto_off_def Let_def)
qed

lemmas app_defs =
  meb_state_set_heating_enabled_def set_heating_locked_def meb_state_set_auto_off_timer_minutes_def
  set_timer_locked_def meb_state_apply_auto_off_def safety_auto_off_deadline_locked_def
  effective_auto_off_deadline_locked_def meb_state_take_session_error_def Let_def

lemmas time_defs = minutes_to_us_def US_PER_MINUTE_def MEB_CAN_SIGNAL_STALE_US_def MEB_CAN_SIGNAL_STALE_MS_def

text \<open>
  C5: With the safety limit built in, heating that is switched on and then never switched off
  or timed out is off after the first auto-off check made at or after the limit, whatever
  events lie between: repeated requests and timer changes do not extend the limit. This holds
  for every history from boot.
\<close>

theorem heating_time_limited:
  assumes "MEB_SAFETY_AUTO_OFF_ENABLED cfg" and "0 < MEB_SAFETY_AUTO_OFF_MINUTES cfg"
    and "fst s0 = app_boot_state\<lparr>s_state_lock := b\<rparr>"
    and "list_all (\<lambda>e. 0 < rd_time_us (fst e)) (es0 @ (r0, SetHeating True) # es)"
    and "\<not> heating (app_run cfg es0 s0)"
    and "heating_throughout cfg es (app_run cfg (es0 @ [(r0, SetHeating True)]) s0)"
    and "rd_time_us r0 + minutes_to_us (MEB_SAFETY_AUTO_OFF_MINUTES cfg) \<le> rd_time_us r1"
  shows "\<not> heating (app_run cfg (es0 @ (r0, SetHeating True) # es @ [(r1, ApplyAutoOff)]) s0)"
proof -
  let ?s = "app_run cfg (es0 @ [(r0, SetHeating True)]) s0" and ?t = "app_run cfg (es0 @ (r0, SetHeating True) # es) s0"
  have "s_heating_enabled_since_us (fst ?s) = rd_time_us r0"
    using assms(5) by (cases "app_run cfg es0 s0") (simp add: app_defs)
  then have since: "s_heating_enabled_since_us (fst ?t) = rd_time_us r0"
    using app_run_since [OF assms(6)] by simp
  have "app_inv (fst ?t)" by (rule app_system.run_inv [OF assms(3,4)])
  then have "0 \<le> s_user_auto_off_deadline_us (fst ?t)"
    by (auto simp: app_inv_def auto_off_inv_def split: if_splits)
  then have "\<not> heating_enabled (s_state (snd (meb_state_apply_auto_off cfg (rd_time_us r1) (fst ?t))))"
    using assms(1,2,4,7) since by (intro apply_auto_off_expired) auto
  then show ?thesis by simp
qed

theorem heating_time_limited_witness:
  "\<not> heating (app_run default_config ([] @ (at_us 1000000, SetHeating True) #
      [(at_us 5000000, SetTimer 0), (at_us 6000000, SetHeating True)] @
      [(at_us 10801000000, ApplyAutoOff)]) (app_boot_state\<lparr>s_state_lock := True\<rparr>, diag_boot_state))"
  by (rule heating_time_limited)
    (simp_all add: default_config_def app_boot_state_def zero_snapshot_def app_defs time_defs)

text \<open>
  C15: In every state reachable from boot by calls at positive times, the heating start and both
  auto-off deadlines exist only while heating is requested, the user's deadline exists exactly
  when a timer is set, a signal marked valid has been stamped, and the decoded CAN fields stay
  within their bit widths.
\<close>

theorem app_state_invariant:
  assumes "list_all (\<lambda>e. 0 < rd_time_us (fst e)) es"
  shows "app_inv (fst (app_run cfg es (app_boot_state\<lparr>s_state_lock := b\<rparr>, d)))"
  by (rule app_system.run_inv) (simp_all add: assms)

theorem app_state_invariant_witness:
  "app_inv (fst (app_run default_config [(at_us 1, SetTimer 5), (at_us 7, SetHeating True)]
     (app_boot_state\<lparr>s_state_lock := True\<rparr>, diag_boot_state)))"
  by (rule app_state_invariant) simp

lemma apply_auto_off_eq:
  assumes "app_inv st"
  shows "meb_state_apply_auto_off cfg t st =
    (let user = s_user_auto_off_deadline_us st; safety = safety_auto_off_deadline_locked cfg st;
         due = effective_auto_off_deadline_locked cfg st
     in if heating_enabled (s_state st) \<and> 0 < due \<and> due \<le> t
        then (if 0 < user \<and> (safety = 0 \<or> user \<le> safety)
              then MEB_HEATING_AUTO_OFF_TIMER else MEB_HEATING_AUTO_OFF_SAFETY,
              set_heating_locked t False st)
        else (MEB_HEATING_AUTO_OFF_NONE, st))"
proof -
  have "0 \<le> safety_auto_off_deadline_locked cfg st"
    by (simp add: safety_auto_off_deadline_locked_def)
  moreover have "0 \<le> s_user_auto_off_deadline_us st"
    using assms by (auto simp: app_inv_def auto_off_inv_def split: if_splits)
  ultimately show ?thesis
    by (auto simp: meb_state_apply_auto_off_def effective_auto_off_deadline_locked_def
        set_heating_locked_def Let_def)
qed

text \<open>
  C26: The auto-off check and the deadline shown to the user agree. At any time the check turns
  heating off exactly when the effective deadline of the snapshot has passed, it changes nothing
  otherwise, and the reported reason is the timer exactly when the user's deadline is not later
  than the safety limit.
\<close>

theorem apply_auto_off_spec:
  assumes "app_inv st"
  shows "meb_state_apply_auto_off cfg t st =
    (let user = s_user_auto_off_deadline_us st; safety = safety_auto_off_deadline_locked cfg st;
         due = effective_auto_off_deadline_locked cfg st
     in if heating_enabled (s_state st) \<and> 0 < due \<and> due \<le> t
        then (if 0 < user \<and> (safety = 0 \<or> user \<le> safety)
              then MEB_HEATING_AUTO_OFF_TIMER else MEB_HEATING_AUTO_OFF_SAFETY,
              set_heating_locked t False st)
        else (MEB_HEATING_AUTO_OFF_NONE, st))"
  by (rule apply_auto_off_eq) (rule assms)

theorem apply_auto_off_spec_witness:
  "fst (meb_state_apply_auto_off default_config 60000007
     (set_heating_locked 7 True (set_timer_locked 3 1 app_boot_state))) = MEB_HEATING_AUTO_OFF_TIMER"
proof -
  have "app_inv (set_heating_locked 7 True (set_timer_locked 3 1 app_boot_state))"
    by (simp add: app_inv_def auto_off_inv_def signals_inv_def app_boot_state_def zero_snapshot_def
        app_defs time_defs)
  from apply_auto_off_spec [OF this, of default_config 60000007] show ?thesis
    by (simp add: app_boot_state_def zero_snapshot_def default_config_def app_defs time_defs)
qed

subsection \<open>The countdown\<close>

lemma remaining_minutes_ceil_pos:
  assumes "0 < us" and "us \<le> minutes_to_us (- 1)"
  shows "uint (remaining_minutes_ceil us) = (us + US_PER_MINUTE - 1) div US_PER_MINUTE"
    and "remaining_minutes_ceil us \<noteq> 0"
proof -
  let ?q = "(us + US_PER_MINUTE - 1) div US_PER_MINUTE"
  have "uint (- 1 :: u32) = 4294967295" by simp
  then have us: "us \<le> 4294967295 * US_PER_MINUTE"
    using assms(2) by (simp only: minutes_to_us_def)
  have "1 \<le> ?q" using assms(1) by (simp add: US_PER_MINUTE_def pos_imp_zdiv_nonneg_iff)
  moreover have "?q \<le> 4294967295" using us by (simp add: US_PER_MINUTE_def)
  ultimately show "uint (remaining_minutes_ceil us) = ?q"
    using assms(1) by (simp add: remaining_minutes_ceil_def uint_word_of_int)
  with \<open>1 \<le> ?q\<close> show "remaining_minutes_ceil us \<noteq> 0" by auto
qed

text \<open>
  C27: While heating is on with a deadline at most the largest timer away, the snapshot shows the
  minutes left rounded up, and it shows zero exactly when an auto-off check made at the same
  moment would turn heating off.
\<close>

theorem countdown_matches_auto_off:
  assumes "app_inv st" and "heating_enabled (s_state st)"
    and "0 < effective_auto_off_deadline_locked cfg st"
    and "effective_auto_off_deadline_locked cfg st - t \<le> minutes_to_us (- 1)"
  shows "let left = effective_auto_off_deadline_locked cfg st - t;
             shown = auto_off_remaining_minutes (meb_state_get_snapshot cfg t st)
         in nv_valid shown
          \<and> (nv_value shown = 0) = (fst (meb_state_apply_auto_off cfg t st) \<noteq> MEB_HEATING_AUTO_OFF_NONE)
          \<and> uint (nv_value shown) = (if left \<le> 0 then 0 else (left + US_PER_MINUTE - 1) div US_PER_MINUTE)"
proof (cases "effective_auto_off_deadline_locked cfg st \<le> t")
  case True
  then show ?thesis using assms(2,3)
    by (simp add: snapshot_control apply_auto_off_eq [OF assms(1)] remaining_minutes_ceil_def Let_def)
next
  case False
  then show ?thesis using assms(2-4)
    by (simp add: snapshot_control apply_auto_off_eq [OF assms(1)] remaining_minutes_ceil_pos Let_def)
qed

theorem countdown_matches_auto_off_witness:
  "uint (nv_value (auto_off_remaining_minutes (meb_state_get_snapshot default_config 60000008
     (set_heating_locked 7 True (set_timer_locked 3 2 app_boot_state))))) = 1"
proof -
  let ?st = "set_heating_locked 7 True (set_timer_locked 3 2 app_boot_state)"
  have inv: "app_inv ?st"
    by (simp add: app_inv_def auto_off_inv_def signals_inv_def app_boot_state_def zero_snapshot_def
        app_defs time_defs)
  have eff: "effective_auto_off_deadline_locked default_config ?st = 120000007"
    by (simp add: app_boot_state_def zero_snapshot_def default_config_def app_defs time_defs)
  have "heating_enabled (s_state ?st)" by (simp add: app_defs)
  moreover have "0 < effective_auto_off_deadline_locked default_config ?st" by (simp add: eff)
  moreover have "effective_auto_off_deadline_locked default_config ?st - 60000008 \<le> minutes_to_us (- 1)"
    unfolding eff by (simp add: time_defs)
  ultimately show ?thesis
    using countdown_matches_auto_off [OF inv, of default_config 60000008]
    by (simp add: eff Let_def US_PER_MINUTE_def)
qed

subsection \<open>All times fit their 64-bit variables\<close>

definition app_bounded :: "int \<Rightarrow> app_state \<Rightarrow> bool" where
  "app_bounded T st \<longleftrightarrow>
     0 \<le> s_heating_enabled_since_us st \<and> s_heating_enabled_since_us st \<le> T \<and>
     0 \<le> s_user_auto_off_deadline_us st \<and> s_user_auto_off_deadline_us st \<le> T + minutes_to_us (- 1) \<and>
     s_heating_status_seen_us st \<in> {0..T} \<and> s_temperature_status_charge_seen_us st \<in> {0..T} \<and>
     s_charge_limits_seen_us st \<in> {0..T} \<and> s_battery_temperature_seen_us st \<in> {0..T} \<and>
     s_bms_soc_percent_seen_us st \<in> {0..T}"

lemma minutes_to_us_max: "minutes_to_us m \<le> minutes_to_us (- 1)"
proof -
  have "uint m \<le> uint (- 1 :: u32)" by (metis word_le_def word_order.extremum)
  then show ?thesis by (simp add: minutes_to_us_def US_PER_MINUTE_def)
qed

lemma app_step_bounded:
  assumes "app_bounded T (fst s)" and "0 < rd_time_us (fst e)" and "rd_time_us (fst e) \<le> T"
  shows "app_bounded T (fst (app_step cfg e s))"
proof -
  obtain r ev where e: "e = (r, ev)" by fastforce
  obtain st d where s: "s = (st, d)" by fastforce
  have "t + minutes_to_us m \<le> T + minutes_to_us (- 1)" if "t \<le> T" for t m
    using that minutes_to_us_max [of m] by linarith
  with assms show ?thesis unfolding e s
    by (cases ev) (auto simp: app_bounded_def app_defs signal_defs add_pos_nonneg less_imp_le
        split: option.split if_splits)
qed

interpretation app_times: step_system "\<lambda>s. fst s = app_boot_state\<lparr>s_state_lock := b\<rparr>"
    "\<lambda>e. 0 < rd_time_us (fst e) \<and> rd_time_us (fst e) \<le> 2 ^ 62" "app_step cfg"
    "\<lambda>s. app_bounded (2 ^ 62) (fst s)" for b cfg
proof unfold_locales
  show "app_bounded (2 ^ 62) (fst s)" if "fst s = app_boot_state\<lparr>s_state_lock := b\<rparr>" for s :: "app_state \<times> diag_state"
    unfolding that by (simp add: app_bounded_def app_boot_state_def)
qed (auto intro: app_step_bounded)



section \<open>What the frames mean\<close>

lemma tenths_of_scaled:
  assumes "\<bar>x - of_int n / 10\<bar> \<le> 1 / 2 ^ 28"
  shows "tenths x = n"
proof (rule tenths_near)
  have "\<bar>10 * (x - of_int n / 10)\<bar> \<le> 10 * (1 / 2 ^ 28)"
    unfolding abs_mult using assms by (simp add: mult_left_mono)
  then show "\<bar>10 * x - of_int n\<bar> < 1 / 2" by (simp add: right_diff_distrib)
qed

lemma charge_raw_bounds:
  "0 \<le> charge_power_raw data" "charge_power_raw data \<le> 2 ^ 16"
  "0 \<le> charge_current_raw data" "charge_current_raw data \<le> 2 ^ 16"
  using u8_bound [of "data ! 7"] u8_bound [of "data ! 6"] u8_bound [of "data ! 3"] u8_bound [of "data ! 4"]
  by (simp_all add: charge_power_raw_eq charge_current_raw_eq pos_imp_zdiv_nonneg_iff)

lemma print_power:
  "print_f1 (double_mul (double_of_int (charge_power_raw data)) (to_double (1 / 10))) =
     print_tenths (32 * uint (data ! 7) + uint (data ! 6) div 8)"
proof -
  let ?x = "double_mul (double_of_int (charge_power_raw data)) (to_double (1 / 10))"
  have "\<bar>?x - of_int (charge_power_raw data) * (1 / 10)\<bar> \<le> 1 / 2 ^ 28"
    by (rule double_mul_near) (use charge_raw_bounds in auto)
  then have "tenths ?x = charge_power_raw data" by (intro tenths_of_scaled) simp
  moreover have "0 \<le> ?x"
    unfolding double_mul_def double_of_int_def
    by (intro to_double_nonneg mult_nonneg_nonneg) (simp_all add: charge_raw_bounds)
  ultimately show ?thesis by (simp add: print_f1_def charge_power_raw_eq)
qed

lemma print_current:
  "print_f1 (double_mul (double_of_int (charge_current_raw data)) (to_double (1 / 5))) =
     print_tenths (2 * (128 * (uint (data ! 4) mod 64) + uint (data ! 3) div 2))"
proof -
  let ?x = "double_mul (double_of_int (charge_current_raw data)) (to_double (1 / 5))"
  have "\<bar>?x - of_int (charge_current_raw data) * (1 / 5)\<bar> \<le> 1 / 2 ^ 28"
    by (rule double_mul_near) (use charge_raw_bounds in auto)
  then have "tenths ?x = 2 * charge_current_raw data" by (intro tenths_of_scaled) simp
  moreover have "0 \<le> ?x"
    unfolding double_mul_def double_of_int_def
    by (intro to_double_nonneg mult_nonneg_nonneg) (simp_all add: charge_raw_bounds)
  ultimately show ?thesis by (simp add: print_f1_def charge_current_raw_eq)
qed

lemma print_fifths:
  assumes "0 \<le> k" "k \<le> 255"
  shows "print_f1 (double_div (double_of_int k) (5 / 2)) = print_tenths (4 * k)"
proof -
  let ?x = "double_div (double_of_int k) (5 / 2)"
  have "\<bar>?x - of_int k / (5 / 2)\<bar> \<le> 1 / 2 ^ 28"
    by (rule double_div_near) (use assms in simp_all)
  then have "tenths ?x = 4 * k" by (intro tenths_of_scaled) (simp add: mult.commute)
  moreover have "0 \<le> ?x"
    unfolding double_div_def double_of_int_def
    by (intro to_double_nonneg divide_nonneg_nonneg) (use assms in simp_all)
  ultimately show ?thesis by (simp add: print_f1_def)
qed

lemma print_half_degrees:
  assumes "0 \<le> k" "k \<le> 255"
  shows "print_f1 (double_sub (double_mul (double_of_int k) (to_double (1 / 2))) 40) =
     (if k < 80 then ''-'' @ print_tenths (400 - 5 * k) else print_tenths (5 * k - 400))"
proof -
  let ?x = "double_sub (double_mul (double_of_int k) (to_double (1 / 2))) 40"
  have k: "of_int k \<le> (of_int 255 :: rat)" "(0 :: rat) \<le> of_int k"
    using assms by (simp_all only: of_int_le_iff of_int_0_le_iff)
  have "double_of_int k = of_int k" using assms by (intro double_of_int_exact) simp
  moreover have "to_double (1 / 2) = 1 / 2" by (rule to_double_half_exact [where k = 1]) simp_all
  moreover have "to_double (of_int k / 2) = of_int k / 2"
    by (rule to_double_half_exact) (use k in simp_all)
  ultimately have m: "double_mul (double_of_int k) (to_double (1 / 2)) = of_int k / 2"
    by (simp only: double_mul_def times_divide_eq_right mult_1_right)
  have "\<bar>of_int k / 2 - 40\<bar> \<le> (2 :: rat) ^ 20"
    unfolding abs_le_iff using k by simp
  moreover have "of_int k / 2 - 40 = (of_int (k - 80) / 2 :: rat)" by simp
  ultimately have c: "?x = of_int k / 2 - 40"
    unfolding double_sub_def m by (intro to_double_half_exact)
  then have t: "tenths ?x = 5 * k - 400"
    by (intro tenths_near) (simp add: algebra_simps)
  have "(?x < 0) = (of_int k < (of_int 80 :: rat))" unfolding c by simp
  then have "(?x < 0) = (k < 80)" by (simp only: of_int_less_iff)
  with t show ?thesis by (simp add: print_f1_def)
qed

text \<open>
  C29: The scaled quantities of long enough frames print, with one decimal, the exact decimal of
  the scaled integer in the frame, although the code's products and quotients are rounded to
  binary64: charging power in tenths of a kilowatt, charging current in fifths of an ampere, the
  temperatures in half degrees above minus forty, the state of charge in fifths of a percent.
\<close>

theorem scaled_signals_print_exactly:
  assumes "8 \<le> len" and "soc_response soc 5" and "soc ! 4 \<le> 250"
  shows "(let c = charge_limits (s_state (meb_state_update_dynamic t (Some data) len st))
          in print_f1 (cl_power_kw c) = print_tenths (32 * uint (data ! 7) + uint (data ! 6) div 8)
           \<and> print_f1 (cl_current_a c) =
               print_tenths (2 * (128 * (uint (data ! 4) mod 64) + uint (data ! 3) div 2)))
    \<and> (let b = battery_temperature (s_state (meb_state_update_temperature t (Some data) len st));
           show_half = (\<lambda>k. if k < 80 then ''-'' @ print_tenths (400 - 5 * k) else print_tenths (5 * k - 400))
       in print_f1 (bt_max_c b) = show_half (uint (data ! 3)) \<and> print_f1 (bt_min_c b) = show_half (uint (data ! 4)))
    \<and> print_f1 (nv_value (bms_soc_percent (s_state (fst (meb_state_update_diag_response r (Some soc) 5 (st, d))))))
        = print_tenths (4 * uint (soc ! 4))"
proof -
  have "\<not> len < 8" "\<not> len < 5" using assms(1) by (auto simp: not_less elim: order_trans [rotated])
  with assms(2,3) show ?thesis
    using print_power [of data] print_current [of data] print_fifths [of "uint (soc ! 4)"]
      print_half_degrees [of "uint (data ! 3)"] print_half_degrees [of "uint (data ! 4)"]
      u8_bound [of "soc ! 4"] u8_bound [of "data ! 3"] u8_bound [of "data ! 4"]
    by (simp add: signal_defs battery_celsius_def Let_def)
qed

theorem scaled_signals_print_exactly_witness:
  "print_f1 (nv_value (bms_soc_percent (s_state (fst (meb_state_update_diag_response (at_us 1)
     (Some [4, 0x62, 2, 0x8C, 125]) 5 (app_boot_state, diag_boot_state)))))) = ''50.0''"
proof -
  have "soc_response [4, 0x62, 2, 0x8C, 125] 5" "[4, 0x62, 2, 0x8C, 125 :: u8] ! 4 \<le> 250"
    by (simp_all add: soc_response_def)
  note exact = scaled_signals_print_exactly [of 8, OF order_refl this, THEN conjunct2, THEN conjunct2,
      of "at_us 1" app_boot_state diag_boot_state]
  show ?thesis by (subst exact) code_simp
qed

text \<open>
  The heating status and charging optimization frames set every field to the value of its
  bits in the frame.
\<close>

theorem status_frames_decode:
  assumes "8 \<le> len"
  shows "(let h = heating_status (s_state (meb_state_update_heating_status t (Some data) len st))
          in hs_valid h \<and> uint (hs_active h) = uint (data ! 4) div 64 mod 2
           \<and> uint (hs_request h) = uint (data ! 5) div 32
           \<and> uint (hs_cooling_request h) = uint (data ! 5) div 4 mod 8
           \<and> hs_power_w h = data ! 6 \<and> hs_power_req_w h = data ! 7)
    \<and> (let v = temperature_status_charge (s_state (meb_state_update_charging_optimization t (Some data) len st))
       in nv_valid v \<and> uint (nv_value v) = 2 * (uint (data ! 2) mod 4) + uint (data ! 1) div 128)"
proof -
  have "\<not> len < 8" "\<not> len < 3" using assms by (auto simp: not_less elim: order_trans [rotated])
  then show ?thesis
    by (simp add: signal_defs Let_def field_bit_6 field_bits_5_7 field_bits_2_4
        field_split [unfolded push_bit_eq_mult power_one_right] del: drop_bit_and push_bit_and)
qed

theorem status_frames_decode_witness:
  "uint (nv_value (temperature_status_charge (s_state (meb_state_update_charging_optimization 1
     (Some [0, 0x80, 0, 0, 0, 0, 0, 0]) 8 app_boot_state)))) = 1"
  using status_frames_decode [of 8 1 "[0, 0x80, 0, 0, 0, 0, 0, 0]" app_boot_state] by (simp add: Let_def)

end
