(* ===== verification/Can_Bus.thy ===== *)
theory Can_Bus
  imports App_State
begin

text \<open>
  \<open>main/can_bus.c\<close>: the CAN FD node. It holds the pool of eight transmit slots shared with the
  driver, the counters the interrupt callbacks keep and the receive task reports, the dispatch of
  received frames to the shared state, the three diagnostic requests, and the set-up of bit
  timing and filters. The driver (\<open>esp_twai\<close>) and FreeRTOS are third-party: their answers and the
  two conversions between a data length and a DLC are arguments, and the calls made of the
  driver are part of the results.
\<close>

section \<open>Data\<close>

definition TX_SLOT_COUNT :: nat where "TX_SLOT_COUNT = 8"
definition TWAI_FRAME_MAX_LEN :: u16 where "TWAI_FRAME_MAX_LEN = 8"
definition TWAIFD_FRAME_MAX_LEN :: nat where "TWAIFD_FRAME_MAX_LEN = 64"

definition MEB_CAN_ID_DIAG_REQ :: u32 where "MEB_CAN_ID_DIAG_REQ = 0x17FC007B"
definition MEB_CAN_ID_DIAG_RESP :: u32 where "MEB_CAN_ID_DIAG_RESP = 0x17FE007B"
definition MEB_CAN_ID_HEATING_STATUS :: u32 where "MEB_CAN_ID_HEATING_STATUS = 0x12DD54D2"
definition MEB_CAN_ID_CHARGING_OPTIMIZATION :: u32 where "MEB_CAN_ID_CHARGING_OPTIMIZATION = 0x1A5555B2"
definition MEB_CAN_ID_DYNAMIC :: u32 where "MEB_CAN_ID_DYNAMIC = 0x12DD54D0"
definition MEB_CAN_ID_TEMPERATURE :: u32 where "MEB_CAN_ID_TEMPERATURE = 0x16A954A6"

record twai_frame_header =
  th_id :: u32
  th_dlc :: u16
  th_ide :: bool
  th_rtr :: bool
  th_fdf :: bool
  th_brs :: bool

record meb_can_rx_message =
  rx_header :: twai_frame_header
  rx_data :: "u8 list"
  rx_len :: u16

record meb_can_tx_slot =
  sl_header :: twai_frame_header
  sl_buffer_len :: nat
  sl_data :: "u8 list"
  sl_id :: u32
  sl_in_use :: bool

record twai_node_status =
  ns_state :: u32
  ns_tx_error_count :: u16
  ns_rx_error_count :: u16
  ns_tx_queue_remaining :: u32

text \<open>
  The file's static variables, with those local to \<open>report_isr_diagnostics\<close> (\<open>last_\<dots>\<close>);
  \<open>s_twai_node\<close> and \<open>s_rx_queue\<close> tell whether the handle exists.
\<close>

record can_state =
  s_twai_node :: bool
  s_rx_queue :: bool
  s_tx_slots :: "meb_can_tx_slot list"
  s_rx_queue_overflow_count :: u32
  s_error_event_count :: u32
  s_last_error_flags :: u32
  s_error_flags_seen :: u32
  s_state_change_count :: u32
  s_last_old_state :: u32
  s_last_new_state :: u32
  s_state_entry_count :: "u32 list"
  s_tx_failure_count :: u32
  s_last_tx_failure_id :: u32
  s_tx_slot_exhaustion_count :: u32
  last_overflow_count :: u32
  last_error_event_count :: u32
  last_state_change_count :: u32
  last_tx_failure_count :: u32
  last_state_entry_count :: "u32 list"
  last_tx_slot_exhaustion_count :: u32

definition zero_header :: twai_frame_header where
  "zero_header = \<lparr>th_id = 0, th_dlc = 0, th_ide = False, th_rtr = False, th_fdf = False, th_brs = False\<rparr>"

definition zero_slot :: meb_can_tx_slot where
  "zero_slot = \<lparr>sl_header = zero_header, sl_buffer_len = 0,
     sl_data = replicate TWAIFD_FRAME_MAX_LEN 0, sl_id = 0, sl_in_use = False\<rparr>"

definition can_boot_state :: can_state where
  "can_boot_state = \<lparr>s_twai_node = False, s_rx_queue = False,
     s_tx_slots = replicate TX_SLOT_COUNT zero_slot,
     s_rx_queue_overflow_count = 0, s_error_event_count = 0, s_last_error_flags = 0,
     s_error_flags_seen = 0, s_state_change_count = 0, s_last_old_state = 0, s_last_new_state = 0,
     s_state_entry_count = replicate 4 0, s_tx_failure_count = 0, s_last_tx_failure_id = 0,
     s_tx_slot_exhaustion_count = 0, last_overflow_count = 0, last_error_event_count = 0,
     last_state_change_count = 0, last_tx_failure_count = 0,
     last_state_entry_count = replicate 4 0, last_tx_slot_exhaustion_count = 0\<rparr>"

section \<open>Transmit slots\<close>

text \<open>A slot is named by its index; the driver knows it by the address of its frame.\<close>

fun first_free :: "meb_can_tx_slot list \<Rightarrow> nat option" where
  "first_free [] = None"
| "first_free (slot # slots) = (if \<not> sl_in_use slot then Some 0 else map_option Suc (first_free slots))"

definition alloc_tx_slot :: "(nat \<Rightarrow> u16) \<Rightarrow> u32 \<Rightarrow> u8 list option \<Rightarrow> nat \<Rightarrow> can_state \<Rightarrow> nat option \<times> can_state" where
  "alloc_tx_slot twaifd_len2dlc ident data_ptr len st =
     (case data_ptr of
        None \<Rightarrow> (None, st)
      | Some data \<Rightarrow>
        if len > TWAIFD_FRAME_MAX_LEN then (None, st)
        else (case first_free (s_tx_slots st) of
          None \<Rightarrow> (None, st)
        | Some i \<Rightarrow>
          (Some i, st\<lparr>s_tx_slots := (s_tx_slots st)[i :=
             \<lparr>sl_header = zero_header\<lparr>th_id := ident, th_dlc := twaifd_len2dlc len,
                th_ide := True, th_fdf := True, th_brs := True\<rparr>,
              sl_buffer_len = len,
              sl_data = take len data @ drop len (sl_data (s_tx_slots st ! i)),
              sl_id = ident, sl_in_use = True\<rparr>]\<rparr>)))"

text \<open>
  \<open>frame\<close> is the address of a frame: \<open>Some i\<close> is the one of slot \<open>i\<close> when \<open>i\<close> is a slot and
  another frame otherwise. The result tells whether a slot was released and its id.
\<close>

definition release_tx_slot_from_isr :: "nat option \<Rightarrow> can_state \<Rightarrow> bool \<times> u32 option \<times> can_state" where
  "release_tx_slot_from_isr frame st =
     (case frame of
        None \<Rightarrow> (False, None, st)
      | Some i \<Rightarrow>
        if i < TX_SLOT_COUNT
        then (True, Some (sl_id (s_tx_slots st ! i)),
              st\<lparr>s_tx_slots := (s_tx_slots st)[i := (s_tx_slots st ! i)\<lparr>sl_in_use := False\<rparr>]\<rparr>)
        else (False, None, st))"

definition release_tx_slot :: "nat option \<Rightarrow> can_state \<Rightarrow> can_state" where
  "release_tx_slot slot st =
     (case slot of
        None \<Rightarrow> st
      | Some i \<Rightarrow> st\<lparr>s_tx_slots := (s_tx_slots st)[i := (s_tx_slots st ! i)\<lparr>sl_in_use := False\<rparr>]\<rparr>)"

section \<open>Interrupt callbacks\<close>

definition frame_payload_len :: "(u16 \<Rightarrow> u16) \<Rightarrow> twai_frame_header \<Rightarrow> u16" where
  "frame_payload_len twaifd_dlc2len header =
     (if th_fdf header then twaifd_dlc2len (th_dlc header)
      else if th_dlc header \<le> TWAI_FRAME_MAX_LEN then th_dlc header else TWAI_FRAME_MAX_LEN)"

text \<open>
  \<open>received\<close> is what \<open>twai_node_receive_from_isr\<close> leaves in the header and the 64 byte buffer
  (\<open>None\<close>: it failed), \<open>sent\<close> and \<open>woken\<close> what \<open>xQueueSendFromISR\<close> answers. The result is the
  callback's own, the message put into the queue, and the state.
\<close>

definition twai_rx_done_callback ::
    "(u16 \<Rightarrow> u16) \<Rightarrow> (twai_frame_header \<times> u8 list) option \<Rightarrow> bool \<times> bool \<Rightarrow> can_state \<Rightarrow>
     bool \<times> meb_can_rx_message option \<times> can_state" where
  "twai_rx_done_callback twaifd_dlc2len received queue_answer st =
     (let (sent, woken) = queue_answer in
      case received of
        None \<Rightarrow> (False, None, st)
      | Some (header, buffer) \<Rightarrow>
        let msg = \<lparr>rx_header = header, rx_data = buffer, rx_len = frame_payload_len twaifd_dlc2len header\<rparr> in
        if \<not> sent then (woken, None, st\<lparr>s_rx_queue_overflow_count := s_rx_queue_overflow_count st + 1\<rparr>)
        else (woken, Some msg, st))"

definition twai_tx_done_callback :: "nat option \<Rightarrow> bool \<Rightarrow> can_state \<Rightarrow> can_state" where
  "twai_tx_done_callback done_tx_frame is_tx_success st =
     (let (released, ident, st1) = release_tx_slot_from_isr done_tx_frame st;
          done_id = (case ident of None \<Rightarrow> 0 | Some i \<Rightarrow> i)
      in if \<not> is_tx_success
         then st1\<lparr>s_tx_failure_count := s_tx_failure_count st1 + 1, s_last_tx_failure_id := done_id\<rparr>
         else st1)"

definition twai_error_callback :: "u32 \<Rightarrow> can_state \<Rightarrow> can_state" where
  "twai_error_callback err_flags st =
     st\<lparr>s_error_event_count := s_error_event_count st + 1, s_last_error_flags := err_flags,
        s_error_flags_seen := s_error_flags_seen st OR err_flags\<rparr>"

definition twai_state_change_callback :: "u32 \<Rightarrow> u32 \<Rightarrow> can_state \<Rightarrow> can_state" where
  "twai_state_change_callback old_sta new_sta st =
     (let st1 = st\<lparr>s_state_change_count := s_state_change_count st + 1,
                   s_last_old_state := old_sta, s_last_new_state := new_sta\<rparr>
      in if new_sta < 4
         then st1\<lparr>s_state_entry_count :=
           (s_state_entry_count st1)[unat new_sta := s_state_entry_count st1 ! unat new_sta + 1]\<rparr>
         else st1)"

definition twai_state_name_short :: "u32 \<Rightarrow> string" where
  "twai_state_name_short state =
     (if state = 0 then ''act'' else if state = 1 then ''warn'' else if state = 2 then ''pass''
      else if state = 3 then ''off'' else ''?'')"

section \<open>Diagnostics for the console\<close>

record meb_can_diagnostics =
  cd_ready :: bool
  cd_arbitration_sample_point_permill :: u32
  cd_data_sample_point_permill :: u32
  cd_data_ssp_permill :: u32
  cd_rx_queue_overflow_count :: u32
  cd_error_event_count :: u32
  cd_state_change_count :: u32
  cd_tx_failure_count :: u32
  cd_last_error_flags :: u32
  cd_last_tx_failure_id :: u32
  cd_state_entry_count :: "u32 list"
  cd_node_status :: twai_node_status
  cd_bus_err_num :: u32

definition MEB_CAN_ARB_SAMPLE_POINT_PERMILL :: u32 where "MEB_CAN_ARB_SAMPLE_POINT_PERMILL = 875"
definition MEB_CAN_DATA_SAMPLE_POINT_PERMILL :: u32 where "MEB_CAN_DATA_SAMPLE_POINT_PERMILL = 750"
definition MEB_CAN_DATA_SSP_PERMILL :: u32 where "MEB_CAN_DATA_SSP_PERMILL = 700"

text \<open>\<open>info\<close> is what \<open>twai_node_get_info\<close> leaves in the status and the record.\<close>

definition meb_can_get_diagnostics :: "twai_node_status \<times> u32 \<Rightarrow> can_state \<Rightarrow> meb_can_diagnostics" where
  "meb_can_get_diagnostics info st =
     \<lparr>cd_ready = s_twai_node st,
      cd_arbitration_sample_point_permill = MEB_CAN_ARB_SAMPLE_POINT_PERMILL,
      cd_data_sample_point_permill = MEB_CAN_DATA_SAMPLE_POINT_PERMILL,
      cd_data_ssp_permill = MEB_CAN_DATA_SSP_PERMILL,
      cd_rx_queue_overflow_count = s_rx_queue_overflow_count st,
      cd_error_event_count = s_error_event_count st,
      cd_state_change_count = s_state_change_count st,
      cd_tx_failure_count = s_tx_failure_count st,
      cd_last_error_flags = s_last_error_flags st,
      cd_last_tx_failure_id = s_last_tx_failure_id st,
      cd_state_entry_count = s_state_entry_count st,
      cd_node_status = (if s_twai_node st then fst info
         else \<lparr>ns_state = 0, ns_tx_error_count = 0, ns_rx_error_count = 0, ns_tx_queue_remaining = 0\<rparr>),
      cd_bus_err_num = (if s_twai_node st then snd info else 0)\<rparr>"

section \<open>Names of error flags\<close>

text \<open>
  \<open>buf\<close> is the text in the buffer of \<open>buf_len\<close> bytes; \<open>*pos\<close> is its length. When the text does
  not fit, \<open>snprintf\<close> leaves what fits and \<open>*pos\<close> becomes \<open>buf_len - 1\<close>.
\<close>

definition append_flag_name :: "nat \<Rightarrow> string \<Rightarrow> string \<Rightarrow> string" where
  "append_flag_name buf_len name buf =
     (if length buf \<ge> buf_len - 1 then buf
      else buf @ snprintf (buf_len - length buf) ((if length buf > 0 then ''|'' else '''') @ name))"

definition format_error_flags :: "u32 \<Rightarrow> nat \<Rightarrow> string" where
  "format_error_flags flags buf_len =
     (if buf_len = 0 then ''''
      else if flags = 0 then snprintf buf_len ''unknown''
      else let b0 = (if bit flags 0 then append_flag_name buf_len ''arb'' '''' else '''');
               b1 = (if bit flags 1 then append_flag_name buf_len ''bit'' b0 else b0);
               b2 = (if bit flags 2 then append_flag_name buf_len ''form'' b1 else b1);
               b3 = (if bit flags 3 then append_flag_name buf_len ''stuff'' b2 else b2);
               b4 = (if bit flags 4 then append_flag_name buf_len ''ack'' b3 else b3)
      in if length b4 = 0 then snprintf buf_len ''other'' else b4)"

section \<open>Received frames\<close>

definition process_rx_message ::
    "reading \<Rightarrow> meb_can_rx_message \<Rightarrow> app_state \<times> diag_state \<Rightarrow> app_state \<times> diag_state" where
  "process_rx_message r msg s =
     (let ident = th_id (rx_header msg); data = Some (rx_data msg); len = rx_len msg; now = rd_time_us r in
      if \<not> th_ide (rx_header msg) then s
      else if ident = MEB_CAN_ID_DIAG_RESP then meb_state_update_diag_response r data len s
      else if ident = MEB_CAN_ID_HEATING_STATUS
        then (meb_state_update_heating_status now data len (fst s), snd s)
      else if ident = MEB_CAN_ID_CHARGING_OPTIMIZATION
        then (meb_state_update_charging_optimization now data len (fst s), snd s)
      else if ident = MEB_CAN_ID_DYNAMIC then (meb_state_update_dynamic now data len (fst s), snd s)
      else if ident = MEB_CAN_ID_TEMPERATURE
        then (meb_state_update_temperature now data len (fst s), snd s)
      else s)"

section \<open>Reports of the interrupt counters\<close>

text \<open>
  Each part of \<open>report_isr_diagnostics\<close> compares a counter with its value at the last report.
  \<open>r\<close> is what the platform answers when the event is recorded and \<open>node\<close> the node's status when
  \<open>twai_node_get_info\<close> delivered it.
\<close>

definition report_overflow :: "reading \<Rightarrow> can_state \<times> diag_state \<Rightarrow> can_state \<times> diag_state" where
  "report_overflow r = (\<lambda>(st, d).
     (let overflow_count = s_rx_queue_overflow_count st in
      if overflow_count \<noteq> last_overflow_count st then
        (let dropped = overflow_count - last_overflow_count st in
         (st\<lparr>last_overflow_count := overflow_count\<rparr>,
          meb_diag_record_eventf r ''can'' ''rx_queue_full'' (Some (''dropped='' @ print_dec (unat dropped))) d))
      else (st, d)))"

definition node_suffix :: "twai_node_status \<Rightarrow> string" where
  "node_suffix n = '' s='' @ twai_state_name_short (ns_state n)
     @ '' tec='' @ print_dec (unat (ns_tx_error_count n)) @ '' rec='' @ print_dec (unat (ns_rx_error_count n))"

text \<open>
  \<open>isr\<close> are the flags of the error interrupts that arrive after \<open>s_error_flags_seen\<close> is read and
  before it is zeroed; no lock excludes them.
\<close>

definition report_errors :: "reading \<Rightarrow> twai_node_status option \<Rightarrow> u32 list \<Rightarrow> can_state \<times> diag_state \<Rightarrow> can_state \<times> diag_state" where
  "report_errors r node isr = (\<lambda>(st, d).
     (let error_event_count = s_error_event_count st in
      if error_event_count \<noteq> last_error_event_count st then
        (let errors = error_event_count - last_error_event_count st;
             flags_seen = s_error_flags_seen st;
             st1 = fold twai_error_callback isr st;
             st2 = st1\<lparr>last_error_event_count := error_event_count, s_error_flags_seen := 0\<rparr>;
             flag_names = format_error_flags flags_seen 24;
             detail = ''n='' @ print_dec (unat errors) @ '' f=0x'' @ print_hex (unat flags_seen)
                @ ''('' @ flag_names @ '')'' @ (case node of None \<Rightarrow> '''' | Some n \<Rightarrow> node_suffix n)
         in (st2, meb_diag_record_eventf r ''can'' ''error'' (Some detail) d))
      else (fold twai_error_callback isr st, d)))"

definition report_states :: "reading \<Rightarrow> twai_node_status option \<Rightarrow> can_state \<times> diag_state \<Rightarrow> can_state \<times> diag_state" where
  "report_states r node = (\<lambda>(st, d).
     (let state_change_count = s_state_change_count st in
      if state_change_count \<noteq> last_state_change_count st then
        (let changes = state_change_count - last_state_change_count st;
             entries = (\<lambda>k. print_dec (unat (s_state_entry_count st ! k - last_state_entry_count st ! k)));
             detail = ''n='' @ print_dec (unat changes) @ '' '' @ twai_state_name_short (s_last_old_state st)
                @ ''>'' @ twai_state_name_short (s_last_new_state st) @ '' a='' @ entries 0 @ '' w='' @ entries 1
                @ '' p='' @ entries 2 @ '' b='' @ entries 3
                @ (case node of None \<Rightarrow> '''' | Some n \<Rightarrow> '' c='' @ twai_state_name_short (ns_state n))
         in (st\<lparr>last_state_change_count := state_change_count,
                last_state_entry_count := map (\<lambda>k. s_state_entry_count st ! k) [0, 1, 2, 3]\<rparr>,
             meb_diag_record_eventf r ''can'' ''state'' (Some detail) d))
      else (st, d)))"

definition report_tx_failures :: "reading \<Rightarrow> can_state \<times> diag_state \<Rightarrow> can_state \<times> diag_state" where
  "report_tx_failures r = (\<lambda>(st, d).
     (let tx_failure_count = s_tx_failure_count st in
      if tx_failure_count \<noteq> last_tx_failure_count st then
        (let failures = tx_failure_count - last_tx_failure_count st in
         (st\<lparr>last_tx_failure_count := tx_failure_count\<rparr>,
          meb_diag_record_eventf r ''can'' ''tx_failed_isr''
            (Some (''count='' @ print_dec (unat failures) @ '' id=0x'' @ print_hex (unat (s_last_tx_failure_id st)))) d))
      else (st, d)))"

definition report_slot_exhaustion :: "reading \<Rightarrow> can_state \<times> diag_state \<Rightarrow> can_state \<times> diag_state" where
  "report_slot_exhaustion r = (\<lambda>(st, d).
     (let tx_slot_exhaustion_count = s_tx_slot_exhaustion_count st in
      if tx_slot_exhaustion_count \<noteq> last_tx_slot_exhaustion_count st then
        (let dropped = tx_slot_exhaustion_count - last_tx_slot_exhaustion_count st in
         (st\<lparr>last_tx_slot_exhaustion_count := tx_slot_exhaustion_count\<rparr>,
          meb_diag_record_eventf r ''can'' ''tx_slots_full'' (Some (''count='' @ print_dec (unat dropped))) d))
      else (st, d)))"

text \<open>\<open>node_info\<close> is the answer of \<open>twai_node_get_info\<close>; it is asked only when the node exists.\<close>

definition report_isr_diagnostics ::
    "reading \<Rightarrow> twai_node_status option \<Rightarrow> u32 list \<Rightarrow> can_state \<times> diag_state \<Rightarrow> can_state \<times> diag_state" where
  "report_isr_diagnostics r node_info isr s =
     (let node = (if s_twai_node (fst s) then node_info else None) in
      report_slot_exhaustion r (report_tx_failures r (report_states r node
        (report_errors r node isr (report_overflow r s)))))"

definition DIAG_REPORT_PERIOD_MS :: nat where "DIAG_REPORT_PERIOD_MS = 1000"

text \<open>\<open>pdMS_TO_TICKS\<close> at the configured 100 ticks a second.\<close>

definition ms_to_ticks :: "nat \<Rightarrow> u32" where
  "ms_to_ticks ms = of_nat (ms * 100 div 1000)"

text \<open>
  One round of \<open>can_rx_task\<close>: a message received in time is processed, and the counters are
  reported when a second has passed since the last report (ticks wrap around). \<open>isr\<close> are the error
  interrupts that come while the report is made.
\<close>

definition can_rx_task_step ::
    "reading \<Rightarrow> meb_can_rx_message option \<Rightarrow> u32 \<Rightarrow> twai_node_status option \<Rightarrow> u32 list \<Rightarrow>
     u32 \<times> can_state \<times> app_state \<times> diag_state \<Rightarrow> u32 \<times> can_state \<times> app_state \<times> diag_state" where
  "can_rx_task_step r received now node_info isr = (\<lambda>(last_report_tick, can, app, d).
     (let (app1, d1) = (case received of None \<Rightarrow> (app, d) | Some msg \<Rightarrow> process_rx_message r msg (app, d))
      in if now - last_report_tick \<ge> ms_to_ticks DIAG_REPORT_PERIOD_MS
         then (let (can1, d2) = report_isr_diagnostics r node_info isr (can, d1) in (now, can1, app1, d2))
         else (last_report_tick, can, app1, d1)))"

section \<open>Requests\<close>

text \<open>
  \<open>tx_answer\<close> is the answer of \<open>twai_node_transmit\<close> and \<open>err_name\<close> is \<open>esp_err_to_name\<close>. The second
  component of the result is the slot whose frame was given to the driver, if any.
\<close>

definition transmit_fd_frame ::
    "(nat \<Rightarrow> u16) \<Rightarrow> (esp_err \<Rightarrow> string) \<Rightarrow> reading \<Rightarrow> esp_err \<Rightarrow> u32 \<Rightarrow> u8 list \<Rightarrow> string \<Rightarrow>
     can_state \<times> diag_state \<Rightarrow> esp_err \<times> nat option \<times> can_state \<times> diag_state" where
  "transmit_fd_frame twaifd_len2dlc err_name r tx_answer ident data name = (\<lambda>(st, d).
     (if \<not> s_twai_node st then (ESP_ERR_INVALID_STATE, None, st, d)
      else case alloc_tx_slot twaifd_len2dlc ident (Some data) 8 st of
        (None, st1) \<Rightarrow>
          (ESP_ERR_TIMEOUT, None, st1\<lparr>s_tx_slot_exhaustion_count := s_tx_slot_exhaustion_count st1 + 1\<rparr>, d)
      | (Some slot, st1) \<Rightarrow>
          if tx_answer \<noteq> ESP_OK
          then (tx_answer, Some slot, release_tx_slot (Some slot) st1,
                meb_diag_record_eventf r ''can'' ''tx_failed'' (Some (name @ '':'' @ err_name tx_answer)) d)
          else (tx_answer, Some slot, st1, d)))"

definition DIAG_SESSION_DATA :: "u8 list" where
  "DIAG_SESSION_DATA = [0x02, 0x10, 0x03, 0x00, 0x00, 0x00, 0x00, 0x00]"

definition HEAT_REQUEST_DATA :: "u8 list" where
  "HEAT_REQUEST_DATA = [0x07, 0x2F, 0x80, 0x37, 0x03, 0x00, 0x05, 0x32]"

definition BMS_SOC_DATA :: "u8 list" where
  "BMS_SOC_DATA = [0x03, 0x22, 0x02, 0x8C, 0x55, 0x55, 0x55, 0x55]"

definition meb_can_request_diag_session where
  "meb_can_request_diag_session len2dlc err_name r tx_answer =
     transmit_fd_frame len2dlc err_name r tx_answer MEB_CAN_ID_DIAG_REQ DIAG_SESSION_DATA ''diag_session''"

definition meb_can_send_heat_request where
  "meb_can_send_heat_request len2dlc err_name r tx_answer =
     transmit_fd_frame len2dlc err_name r tx_answer MEB_CAN_ID_DIAG_REQ HEAT_REQUEST_DATA ''heat_request''"

definition meb_can_request_bms_soc where
  "meb_can_request_bms_soc len2dlc err_name r tx_answer =
     transmit_fd_frame len2dlc err_name r tx_answer MEB_CAN_ID_DIAG_REQ BMS_SOC_DATA ''bms_soc''"

section \<open>Set-up\<close>

record twai_timing =
  tm_brp :: nat
  tm_prop_seg :: nat
  tm_tseg_1 :: nat
  tm_tseg_2 :: nat
  tm_sjw :: nat
  tm_ssp_offset :: nat

text \<open>The calls of the set-up, in the order they are made.\<close>

datatype can_call =
    CreateRxQueue nat
  | NewNode nat nat
  | ReconfigTiming twai_timing twai_timing
  | MaskFilter nat u32 u32
  | RangeFilter nat u32 u32
  | RegisterCallbacks
  | EnableNode
  | CreateRxTask

definition bit_timing :: twai_timing where
  "bit_timing = \<lparr>tm_brp = 4, tm_prop_seg = 8, tm_tseg_1 = 26, tm_tseg_2 = 5, tm_sjw = 2, tm_ssp_offset = 0\<rparr>"

definition MEB_TWAI_BITRATE :: nat where "MEB_TWAI_BITRATE = 500000"
definition MEB_TWAI_DATA_BITRATE :: nat where "MEB_TWAI_DATA_BITRATE = 2000000"

definition data_timing :: "nat \<Rightarrow> twai_timing option" where
  "data_timing data_bitrate =
     (let t = \<lparr>tm_brp = 0, tm_prop_seg = 7, tm_tseg_1 = 22, tm_tseg_2 = 10, tm_sjw = 5, tm_ssp_offset = 28\<rparr>
      in if data_bitrate = 1000000 then Some (t\<lparr>tm_brp := 2\<rparr>)
         else if data_bitrate = 2000000 then Some (t\<lparr>tm_brp := 1\<rparr>)
         else None)"

text \<open>
  A set-up step is a call with its answer; \<open>run_calls\<close> makes calls until one of them fails
  (\<open>ESP_RETURN_ON_ERROR\<close> after each).
\<close>

definition configure_exact_canfd_timing :: "(can_call \<Rightarrow> esp_err) \<Rightarrow> esp_err \<times> can_call list" where
  "configure_exact_canfd_timing answer =
     (case data_timing MEB_TWAI_DATA_BITRATE of
        None \<Rightarrow> (ESP_ERR_NOT_SUPPORTED, [])
      | Some dt \<Rightarrow> run_calls answer [ReconfigTiming bit_timing dt])"

definition FULL_MASK :: u32 where "FULL_MASK = 0x1FFFFFFF"

definition exact_ids :: "u32 list" where
  "exact_ids = [MEB_CAN_ID_DIAG_RESP, MEB_CAN_ID_CHARGING_OPTIMIZATION, MEB_CAN_ID_TEMPERATURE]"

definition filter_calls :: "nat \<Rightarrow> can_call list" where
  "filter_calls mask_filter_num =
     map (\<lambda>i. MaskFilter i (- 1) (- 1)) [0..<mask_filter_num]
     @ [RangeFilter 0 MEB_CAN_ID_DYNAMIC MEB_CAN_ID_HEATING_STATUS]
     @ map (\<lambda>i. MaskFilter i (exact_ids ! i) FULL_MASK) [0..<length exact_ids]"

definition configure_rx_filters :: "nat \<Rightarrow> (can_call \<Rightarrow> esp_err) \<Rightarrow> esp_err \<times> can_call list" where
  "configure_rx_filters mask_filter_num answer = run_calls answer (filter_calls mask_filter_num)"

text \<open>Steps in sequence: the first that fails ends the sequence.\<close>

definition checked :: "esp_err \<Rightarrow> (can_call \<Rightarrow> esp_err) \<Rightarrow> can_call \<Rightarrow> esp_err \<times> can_call list" where
  "checked err answer c = (if answer c \<noteq> ESP_OK then err else ESP_OK, [c])"

definition can_init_steps :: "nat \<Rightarrow> (can_call \<Rightarrow> esp_err) \<Rightarrow> esp_err \<times> can_call list" where
  "can_init_steps mask_filter_num answer =
     and_then (checked ESP_ERR_NO_MEM answer (CreateRxQueue 64))
    (and_then (run_calls answer [NewNode MEB_TWAI_BITRATE MEB_TWAI_DATA_BITRATE])
    (and_then (configure_exact_canfd_timing answer)
    (and_then (configure_rx_filters mask_filter_num answer)
    (and_then (run_calls answer [RegisterCallbacks, EnableNode])
              (checked ESP_ERR_NO_MEM answer CreateRxTask)))))"

definition can_started_text :: string where
  "can_started_text = print_dec MEB_TWAI_BITRATE @ ''/'' @ print_dec MEB_TWAI_DATA_BITRATE @ '' bit/s sp=''
     @ print_dec (unat MEB_CAN_ARB_SAMPLE_POINT_PERMILL) @ ''/''
     @ print_dec (unat MEB_CAN_DATA_SAMPLE_POINT_PERMILL) @ '' ssp=''
     @ print_dec (unat MEB_CAN_DATA_SSP_PERMILL)"

definition meb_can_init ::
    "nat \<Rightarrow> (can_call \<Rightarrow> esp_err) \<Rightarrow> reading \<Rightarrow> can_state \<times> diag_state \<Rightarrow>
     esp_err \<times> can_call list \<times> can_state \<times> diag_state" where
  "meb_can_init mask_filter_num answer r = (\<lambda>(st, d).
     (let new_node = NewNode MEB_TWAI_BITRATE MEB_TWAI_DATA_BITRATE;
          (err, calls) = can_init_steps mask_filter_num answer;
          st1 = st\<lparr>s_rx_queue := (answer (CreateRxQueue 64) = ESP_OK)\<rparr>;
          st2 = (if new_node \<in> set calls \<and> answer new_node = ESP_OK then st1\<lparr>s_twai_node := True\<rparr> else st1)
      in (err, calls, st2,
          if err = ESP_OK
          then meb_diag_record_eventf r ''can'' ''started'' (Some can_started_text) d
          else d)))"

section \<open>The transmit slots are never lost and never shared\<close>

datatype can_request = DiagSession | HeatRequest | BmsSoc

fun request_data :: "can_request \<Rightarrow> u8 list" where
  "request_data DiagSession = DIAG_SESSION_DATA"
| "request_data HeatRequest = HEAT_REQUEST_DATA"
| "request_data BmsSoc = BMS_SOC_DATA"

fun send_request where
  "send_request len2dlc err_name r tx_answer DiagSession = meb_can_request_diag_session len2dlc err_name r tx_answer"
| "send_request len2dlc err_name r tx_answer HeatRequest = meb_can_send_heat_request len2dlc err_name r tx_answer"
| "send_request len2dlc err_name r tx_answer BmsSoc = meb_can_request_bms_soc len2dlc err_name r tx_answer"

text \<open>
  The bench-test transmitter, which the build options switch off: one turn of its task with the
  value of its counter, and its start, which asks for the task only when the option is set.
\<close>

definition MEB_CAN_TEST_TX_ENABLED :: bool where "MEB_CAN_TEST_TX_ENABLED = False"
definition MEB_CAN_TEST_TX_ID :: u32 where "MEB_CAN_TEST_TX_ID = 0x12345678"

definition can_test_tx_task ::
    "(nat \<Rightarrow> u16) \<Rightarrow> (esp_err \<Rightarrow> string) \<Rightarrow> reading \<Rightarrow> esp_err \<Rightarrow>
     u8 \<times> can_state \<times> diag_state \<Rightarrow> u8 \<times> can_state \<times> diag_state" where
  "can_test_tx_task len2dlc err_name r tx_answer = (\<lambda>(counter, s).
     (let data = [0xCA, 0xFE, 0xBA, 0xBE, counter, NOT counter, 0x55, 0xAA];
          (err, slot, s1) = transmit_fd_frame len2dlc err_name r tx_answer MEB_CAN_TEST_TX_ID data ''test_tx'' s
      in (counter + 1, s1)))"

definition meb_can_start_test_tx :: "bool \<Rightarrow> esp_err" where
  "meb_can_start_test_tx task_created =
     (if MEB_CAN_TEST_TX_ENABLED then (if task_created then ESP_OK else ESP_ERR_NO_MEM) else ESP_OK)"

text \<open>
  The frames the driver has accepted and not completed, with the bytes the request asked for.
  The driver completes them in any order.
\<close>

datatype tx_event = TxRequest can_request esp_err | TxDone nat bool

type_synonym tx_flight = "(nat \<times> u8 list) list"

fun tx_step :: "(nat \<Rightarrow> u16) \<Rightarrow> (esp_err \<Rightarrow> string) \<Rightarrow> reading \<times> tx_event \<Rightarrow>
    (can_state \<times> diag_state) \<times> tx_flight \<Rightarrow> (can_state \<times> diag_state) \<times> tx_flight" where
  "tx_step len2dlc err_name (r, TxRequest k tx_answer) (s, flight) =
     (let (err, slot, s1) = send_request len2dlc err_name r tx_answer k s
      in (s1, case slot of
                Some i \<Rightarrow> if err = ESP_OK then flight @ [(i, request_data k)] else flight
              | None \<Rightarrow> flight))"
| "tx_step len2dlc err_name (r, TxDone k success) ((st, d), flight) =
     (if k < length flight
      then ((twai_tx_done_callback (Some (fst (flight ! k))) success st, d), take k flight @ drop (Suc k) flight)
      else ((st, d), flight))"

text \<open>What the driver finds at the address of the frame while it holds it.\<close>

definition slot_holds :: "(nat \<Rightarrow> u16) \<Rightarrow> meb_can_tx_slot \<Rightarrow> u8 list \<Rightarrow> bool" where
  "slot_holds len2dlc slot data \<longleftrightarrow>
     sl_in_use slot \<and> sl_id slot = MEB_CAN_ID_DIAG_REQ \<and> sl_buffer_len slot = 8 \<and>
     take 8 (sl_data slot) = data \<and>
     sl_header slot = zero_header\<lparr>th_id := MEB_CAN_ID_DIAG_REQ, th_dlc := len2dlc 8,
        th_ide := True, th_fdf := True, th_brs := True\<rparr>"

definition slots_inv :: "(nat \<Rightarrow> u16) \<Rightarrow> meb_can_tx_slot list \<Rightarrow> tx_flight \<Rightarrow> bool" where
  "slots_inv len2dlc slots flight \<longleftrightarrow>
     length slots = TX_SLOT_COUNT \<and> distinct (map fst flight) \<and>
     set (map fst flight) = {i. i < TX_SLOT_COUNT \<and> sl_in_use (slots ! i)} \<and>
     (\<forall>(i, data) \<in> set flight. slot_holds len2dlc (slots ! i) data \<and> data \<in> range request_data)"

definition tx_inv :: "(nat \<Rightarrow> u16) \<Rightarrow> (can_state \<times> diag_state) \<times> tx_flight \<Rightarrow> bool" where
  "tx_inv len2dlc s = slots_inv len2dlc (s_tx_slots (fst (fst s))) (snd s)"

lemma first_free_None: "first_free slots = None \<longleftrightarrow> (\<forall>i < length slots. sl_in_use (slots ! i))"
  by (induction slots) (auto simp: nth_Cons split: nat.splits)

lemma first_free_Some: "first_free slots = Some i \<Longrightarrow> i < length slots \<and> \<not> sl_in_use (slots ! i)"
  by (induction slots arbitrary: i) (auto split: if_splits)

lemma send_request_transmits:
  "send_request len2dlc err_name r tx_answer k s =
     transmit_fd_frame len2dlc err_name r tx_answer MEB_CAN_ID_DIAG_REQ (request_data k)
       (case k of DiagSession \<Rightarrow> ''diag_session'' | HeatRequest \<Rightarrow> ''heat_request'' | BmsSoc \<Rightarrow> ''bms_soc'') s"
  by (cases k) (simp_all add: meb_can_request_diag_session_def meb_can_send_heat_request_def meb_can_request_bms_soc_def)

lemma request_data_length [simp]: "length (request_data k) = 8"
  by (cases k) (simp_all add: DIAG_SESSION_DATA_def HEAT_REQUEST_DATA_def BMS_SOC_DATA_def)

lemma without_nth:
  assumes "k < length xs" and "distinct (map f xs)"
  shows "set (map f (take k xs @ drop (Suc k) xs)) = set (map f xs) - {f (xs ! k)}"
    and "distinct (map f (take k xs @ drop (Suc k) xs))"
proof -
  have xs: "xs = take k xs @ xs ! k # drop (Suc k) xs" using assms(1) by (rule id_take_nth_drop)
  then have d: "distinct (map f (take k xs @ xs ! k # drop (Suc k) xs))" using assms(2) by simp
  have "set (map f xs) = set (map f (take k xs @ xs ! k # drop (Suc k) xs))" using xs by metis
  with d show "set (map f (take k xs @ drop (Suc k) xs)) = set (map f xs) - {f (xs ! k)}" by auto
  from d show "distinct (map f (take k xs @ drop (Suc k) xs))" by auto
qed

lemma slots_inv_other:
  assumes "slots_inv len2dlc slots flight" and "\<not> sl_in_use (slots ! i)"
  shows "\<forall>(j, b) \<in> set flight. j \<noteq> i"
proof safe
  fix b assume "(i, b) \<in> set flight"
  then have "i \<in> set (map fst flight)" by force
  then show False using assms by (simp add: slots_inv_def)
qed

lemma slots_take:
  assumes inv: "slots_inv len2dlc slots flight" and i: "i < TX_SLOT_COUNT" "\<not> sl_in_use (slots ! i)"
    and new: "slot_holds len2dlc S data" "data \<in> range request_data"
  shows "slots_inv len2dlc (slots[i := S]) (flight @ [(i, data)])"
proof -
  have "{j. j < TX_SLOT_COUNT \<and> sl_in_use (slots[i := S] ! j)} = insert i {j. j < TX_SLOT_COUNT \<and> sl_in_use (slots ! j)}"
    using i new(1) inv by (auto simp: nth_list_update slots_inv_def slot_holds_def)
  moreover have "\<forall>(j, b) \<in> set (flight @ [(i, data)]). slot_holds len2dlc (slots[i := S] ! j) b \<and> b \<in> range request_data"
    using inv new slots_inv_other [OF inv i(2)] i(1) by (fastforce simp: slots_inv_def nth_list_update)
  ultimately show ?thesis using inv i by (auto simp: slots_inv_def)
qed

lemma slots_leave_free:
  assumes inv: "slots_inv len2dlc slots flight" and i: "i < TX_SLOT_COUNT" "\<not> sl_in_use (slots ! i)"
    and new: "\<not> sl_in_use S"
  shows "slots_inv len2dlc (slots[i := S]) flight"
proof -
  have "{j. j < TX_SLOT_COUNT \<and> sl_in_use (slots[i := S] ! j)} = {j. j < TX_SLOT_COUNT \<and> sl_in_use (slots ! j)}"
    using i new inv by (auto simp: nth_list_update slots_inv_def)
  moreover have "\<forall>(j, b) \<in> set flight. slot_holds len2dlc (slots[i := S] ! j) b \<and> b \<in> range request_data"
    using inv slots_inv_other [OF inv i(2)] by (fastforce simp: slots_inv_def)
  ultimately show ?thesis using inv by (simp add: slots_inv_def)
qed

lemma slots_release:
  assumes inv: "slots_inv len2dlc slots flight" and k: "k < length flight" and new: "\<not> sl_in_use S"
  shows "slots_inv len2dlc (slots[fst (flight ! k) := S]) (take k flight @ drop (Suc k) flight)"
proof -
  let ?i = "fst (flight ! k)" and ?rest = "take k flight @ drop (Suc k) flight"
  have dist: "distinct (map fst flight)" using inv by (simp add: slots_inv_def)
  note rest = without_nth [OF k dist]
  have "?i \<in> set (map fst flight)" using k by simp
  then have i: "?i < length slots" using inv by (simp add: slots_inv_def)
  have "\<forall>(j, b) \<in> set ?rest. slot_holds len2dlc (slots[?i := S] ! j) b \<and> b \<in> range request_data"
  proof (rule ballI, rule case_prodI2)
    fix x j b assume x: "x \<in> set ?rest" "x = (j, b)"
    have "j \<in> set (map fst ?rest)" using x by force
    then have "j \<noteq> ?i" unfolding rest(1) by simp
    moreover have "x \<in> set flight" using x(1) by (auto dest: in_set_takeD in_set_dropD)
    ultimately show "slot_holds len2dlc (slots[?i := S] ! j) b \<and> b \<in> range request_data"
      using inv x(2) by (auto simp: slots_inv_def)
  qed
  moreover have "{j. j < TX_SLOT_COUNT \<and> sl_in_use (slots[?i := S] ! j)} = {j. j < TX_SLOT_COUNT \<and> sl_in_use (slots ! j)} - {?i}"
    using new inv i by (auto simp: nth_list_update slots_inv_def split: if_splits)
  ultimately show ?thesis using inv rest unfolding slots_inv_def by simp
qed

lemma transmit_inv:
  assumes inv: "slots_inv len2dlc (s_tx_slots st) flight" and data: "data \<in> range request_data"
    and out: "transmit_fd_frame len2dlc err_name r tx_answer MEB_CAN_ID_DIAG_REQ data name (st, d) = (err, slot, st', d')"
  shows "slots_inv len2dlc (s_tx_slots st') (case slot of Some i \<Rightarrow> if err = ESP_OK then flight @ [(i, data)] else flight | None \<Rightarrow> flight)"
proof (cases "s_twai_node st \<and> first_free (s_tx_slots st) \<noteq> None")
  case False
  then show ?thesis using inv out
    by (auto simp: transmit_fd_frame_def alloc_tx_slot_def TWAIFD_FRAME_MAX_LEN_def split: if_splits)
next
  case True
  then obtain i where node: "s_twai_node st" and i: "first_free (s_tx_slots st) = Some i" by auto
  from first_free_Some [OF i] have free: "i < TX_SLOT_COUNT" "\<not> sl_in_use (s_tx_slots st ! i)"
    using inv by (simp_all add: slots_inv_def)
  have len: "length data = 8" using data by auto
  have range: "i < length (s_tx_slots st)" using free(1) inv by (simp add: slots_inv_def)
  show ?thesis
  proof (cases "tx_answer = ESP_OK")
    case True
    have *: "slots_inv len2dlc ((s_tx_slots st)[i := S]) (flight @ [(i, data)])" if "slot_holds len2dlc S data" for S
      by (rule slots_take [OF inv free that data])
    show ?thesis using out node len True
      by (auto simp: transmit_fd_frame_def alloc_tx_slot_def TWAIFD_FRAME_MAX_LEN_def i slot_holds_def intro!: *)
  next
    case False
    have *: "slots_inv len2dlc ((s_tx_slots st)[i := S]) flight" if "\<not> sl_in_use S" for S
      by (rule slots_leave_free [OF inv free that])
    show ?thesis using out node range False
      by (auto simp: transmit_fd_frame_def alloc_tx_slot_def release_tx_slot_def TWAIFD_FRAME_MAX_LEN_def i intro!: *)
  qed
qed

lemma tx_done_slots:
  "i < TX_SLOT_COUNT \<Longrightarrow> s_tx_slots (twai_tx_done_callback (Some i) success st) =
     (s_tx_slots st)[i := (s_tx_slots st ! i)\<lparr>sl_in_use := False\<rparr>]"
  by (simp add: twai_tx_done_callback_def release_tx_slot_from_isr_def Let_def)

lemma tx_done_inv:
  assumes "slots_inv len2dlc (s_tx_slots st) flight" and k: "k < length flight"
  shows "slots_inv len2dlc (s_tx_slots (twai_tx_done_callback (Some (fst (flight ! k))) success st)) (take k flight @ drop (Suc k) flight)"
proof -
  have "fst (flight ! k) \<in> set (map fst flight)" using k by simp
  then have "fst (flight ! k) < TX_SLOT_COUNT" using assms(1) by (simp add: slots_inv_def)
  then show ?thesis using assms by (simp add: tx_done_slots slots_release)
qed

lemma tx_step_inv: "tx_inv len2dlc s \<Longrightarrow> tx_inv len2dlc (tx_step len2dlc err_name e s)"
proof -
  assume inv: "tx_inv len2dlc s"
  obtain r ev where e: "e = (r, ev)" by fastforce
  obtain st d flight where s: "s = ((st, d), flight)" by (metis surj_pair)
  show ?thesis
  proof (cases ev)
    case (TxRequest k tx_answer)
    obtain err slot st' d' where "send_request len2dlc err_name r tx_answer k (st, d) = (err, slot, st', d')"
      by (metis surj_pair)
    then show ?thesis using transmit_inv [of len2dlc st flight "request_data k"] inv
      unfolding e s TxRequest by (simp add: send_request_transmits tx_inv_def)
  next
    case (TxDone k success)
    then show ?thesis using inv tx_done_inv [of len2dlc st flight k success] unfolding e s by (simp add: tx_inv_def)
  qed
qed

lemma tx_boot_inv: "s_tx_slots st = replicate TX_SLOT_COUNT zero_slot \<Longrightarrow> tx_inv len2dlc ((st, d), [])"
  by (auto simp: tx_inv_def slots_inv_def zero_slot_def)

interpretation tx_system: step_system
    "\<lambda>s. s_tx_slots (fst (fst s)) = replicate TX_SLOT_COUNT zero_slot \<and> snd s = []" "\<lambda>e. True"
    "tx_step len2dlc err_name" "tx_inv len2dlc" for len2dlc err_name
  by unfold_locales (auto intro: tx_boot_inv tx_step_inv)

lemma slots_full:
  assumes "slots_inv len2dlc slots flight"
  shows "length flight \<le> TX_SLOT_COUNT" and "(first_free slots = None) = (length flight = TX_SLOT_COUNT)"
proof -
  let ?used = "{i. i < TX_SLOT_COUNT \<and> sl_in_use (slots ! i)}"
  have len: "card ?used = length flight"
    using assms distinct_card [of "map fst flight"] by (simp add: slots_inv_def del: set_map)
  have "?used \<subseteq> {..<TX_SLOT_COUNT}" by auto
  then show "length flight \<le> TX_SLOT_COUNT" using card_mono [of "{..<TX_SLOT_COUNT}" ?used] len by simp
  have "(first_free slots = None) = (?used = {..<TX_SLOT_COUNT})"
    using assms by (auto simp: first_free_None slots_inv_def)
  also have "\<dots> = (card ?used = TX_SLOT_COUNT)"
    using card_subset_eq [of "{..<TX_SLOT_COUNT}" ?used] \<open>?used \<subseteq> _\<close> by auto
  finally show "(first_free slots = None) = (length flight = TX_SLOT_COUNT)" using len by simp
qed

lemma transmit_result:
  assumes "s_twai_node st"
  shows "fst (send_request len2dlc err_name r ESP_OK k (st, d)) =
    (if first_free (s_tx_slots st) = None then ESP_ERR_TIMEOUT else ESP_OK)"
  using assms
  by (auto simp: send_request_transmits transmit_fd_frame_def alloc_tx_slot_def TWAIFD_FRAME_MAX_LEN_def split: option.split)

text \<open>
  C12: The transmit slots are neither lost nor shared. After any interleaving of requests,
  accepted or rejected by the driver, and completions in any order, the frames the driver still
  holds occupy different slots, each slot still holds exactly the request's bytes under the
  diagnostic identifier (so no frame in flight is ever overwritten), no other slot is taken, and
  a request is refused for lack of slots exactly when eight frames are in flight.
\<close>

theorem tx_slots_exact:
  assumes "s_tx_slots st0 = replicate TX_SLOT_COUNT zero_slot"
    and "fold (tx_step len2dlc err_name) es ((st0, d0), []) = ((st, d), flight)"
  shows "distinct (map fst flight)
    \<and> (\<forall>(i, data) \<in> set flight. slot_holds len2dlc (s_tx_slots st ! i) data \<and> data \<in> range request_data)
    \<and> set (map fst flight) = {i. i < TX_SLOT_COUNT \<and> sl_in_use (s_tx_slots st ! i)}
    \<and> length flight \<le> TX_SLOT_COUNT
    \<and> (s_twai_node st \<longrightarrow> fst (send_request len2dlc err_name r ESP_OK k (st, d)) =
         (if length flight = TX_SLOT_COUNT then ESP_ERR_TIMEOUT else ESP_OK))"
proof -
  have "tx_inv len2dlc (fold (tx_step len2dlc err_name) es ((st0, d0), []))"
    by (rule tx_system.run_inv) (simp_all add: assms(1) list_all_iff)
  then have inv: "slots_inv len2dlc (s_tx_slots st) flight" by (simp add: assms(2) tx_inv_def)
  then show ?thesis using slots_full [OF inv] transmit_result [of st]
    by (simp add: slots_inv_def del: set_map)
qed

theorem tx_slots_exact_witness:
  "let s = fold (tx_step (\<lambda>n. of_nat n) (\<lambda>e. ''ESP_FAIL''))
         [(at_us 1, TxRequest BmsSoc ESP_OK), (at_us 2, TxRequest HeatRequest ESP_FAIL),
          (at_us 3, TxRequest HeatRequest ESP_OK), (at_us 4, TxDone 0 True)]
         ((can_boot_state\<lparr>s_twai_node := True\<rparr>, diag_boot_state), [])
   in map fst (snd s) = [1] \<and> {i. i < TX_SLOT_COUNT \<and> sl_in_use (s_tx_slots (fst (fst s)) ! i)} = {1}"
proof -
  let ?es = "[(at_us 1, TxRequest BmsSoc ESP_OK), (at_us 2, TxRequest HeatRequest ESP_FAIL),
          (at_us 3, TxRequest HeatRequest ESP_OK), (at_us 4, TxDone 0 True)]"
  let ?s = "fold (tx_step (\<lambda>n. of_nat n) (\<lambda>e. ''ESP_FAIL'')) ?es ((can_boot_state\<lparr>s_twai_node := True\<rparr>, diag_boot_state), [])"
  have flight: "map fst (snd ?s) = [1]" by code_simp
  have "s_tx_slots (can_boot_state\<lparr>s_twai_node := True\<rparr>) = replicate TX_SLOT_COUNT zero_slot"
    by (simp add: can_boot_state_def)
  from tx_slots_exact [OF this, of "\<lambda>n. of_nat n" "\<lambda>e. ''ESP_FAIL''" ?es diag_boot_state "fst (fst ?s)" "snd (fst ?s)" "snd ?s"]
  have "set (map fst (snd ?s)) = {i. i < TX_SLOT_COUNT \<and> sl_in_use (s_tx_slots (fst (fst ?s)) ! i)}"
    by (metis prod.collapse)
  with flight show ?thesis by (simp add: Let_def)
qed

section \<open>Filters\<close>

text \<open>
  What the filters admit after a sequence of calls (ESP-IDF's documented meaning): a mask filter
  passes an extended identifier that agrees with it on the mask's bits and is off when both
  fields are \<open>0xFFFFFFFF\<close>, a range filter one within its bounds. The last configuration of a
  filter counts.
\<close>

record filter_bank =
  fb_mask :: "nat \<Rightarrow> (u32 \<times> u32) option"
  fb_range :: "nat \<Rightarrow> (u32 \<times> u32) option"

fun set_filter :: "can_call \<Rightarrow> filter_bank \<Rightarrow> filter_bank" where
  "set_filter (MaskFilter i ident msk) fb =
     fb\<lparr>fb_mask := (fb_mask fb)(i := if ident = - 1 \<and> msk = - 1 then None else Some (ident, msk))\<rparr>"
| "set_filter (RangeFilter i lo hi) fb = fb\<lparr>fb_range := (fb_range fb)(i := Some (lo, hi))\<rparr>"
| "set_filter _ fb = fb"

definition admits :: "filter_bank \<Rightarrow> u32 \<Rightarrow> bool" where
  "admits fb ident \<longleftrightarrow>
     (\<exists>i f msk. fb_mask fb i = Some (f, msk) \<and> (ident XOR f) AND msk = 0)
   \<or> (\<exists>i lo hi. fb_range fb i = Some (lo, hi) \<and> lo \<le> ident \<and> ident \<le> hi)"

lemma disable_all:
  "fold set_filter (map (\<lambda>i. MaskFilter i (- 1) (- 1)) [0..<n]) fb =
     fb\<lparr>fb_mask := (\<lambda>i. if i < n then None else fb_mask fb i)\<rparr>"
  by (induction n) (auto simp: fun_eq_iff)

lemma xor_masked:
  assumes "x < 0x20000000" "f < 0x20000000"
  shows "((x XOR f) AND FULL_MASK = 0) = (x = (f :: u32))"
proof -
  have m: "FULL_MASK = mask 29" by (simp add: FULL_MASK_def mask_eq_exp_minus_1)
  have "(x XOR f) AND mask 29 = (x AND mask 29) XOR (f AND mask 29)"
    by (rule bit_eqI) (auto simp: bit_simps)
  also have "\<dots> = x XOR f" using assms less_mask_eq [of x 29] less_mask_eq [of f 29] by simp
  finally have "((x XOR f) AND FULL_MASK = 0) = (x XOR f = 0)" by (simp add: m)
  also have "\<dots> = (x = f)" by (metis xor.assoc xor.left_neutral xor.right_neutral xor_self_eq)
  finally show ?thesis .
qed

text \<open>The frames the dispatch looks at.\<close>

definition handled_ids :: "u32 list" where
  "handled_ids = [MEB_CAN_ID_DIAG_RESP, MEB_CAN_ID_HEATING_STATUS, MEB_CAN_ID_CHARGING_OPTIMIZATION,
     MEB_CAN_ID_DYNAMIC, MEB_CAN_ID_TEMPERATURE]"

lemmas can_ids = MEB_CAN_ID_DIAG_RESP_def MEB_CAN_ID_HEATING_STATUS_def MEB_CAN_ID_CHARGING_OPTIMIZATION_def
  MEB_CAN_ID_DYNAMIC_def MEB_CAN_ID_TEMPERATURE_def

lemma filters_set:
  assumes "3 \<le> n"
  shows "fold set_filter (filter_calls n) \<lparr>fb_mask = (\<lambda>_. None), fb_range = (\<lambda>_. None)\<rparr> =
     \<lparr>fb_mask = (\<lambda>i. if i < 3 then Some (exact_ids ! i, FULL_MASK) else None),
      fb_range = (\<lambda>i. if i = 0 then Some (MEB_CAN_ID_DYNAMIC, MEB_CAN_ID_HEATING_STATUS) else None)\<rparr>"
proof -
  have three: "[0..<length exact_ids] = [0, 1, 2]" by (simp add: exact_ids_def upt_rec)
  have "FULL_MASK \<noteq> - 1" by (simp add: FULL_MASK_def)
  then show ?thesis unfolding filter_calls_def three fold_append disable_all comp_def
    by (auto simp: disable_all fun_eq_iff less_Suc_eq numeral_3_eq_3 numeral_2_eq_2)
qed

lemma range_ids: "(0x12DD54D0 \<le> x \<and> x \<le> (0x12DD54D2 :: u32)) = (x \<in> {0x12DD54D0, 0x12DD54D1, 0x12DD54D2})"
proof -
  have "(316495056 \<le> n \<and> n \<le> 316495058) = (n = 316495056 \<or> n = 316495057 \<or> n = 316495058)" for n :: int
    by auto
  from this [of "uint x"] show ?thesis
    by (simp add: word_le_def word_uint_eq_iff)
qed

text \<open>
  C39: On a chip with at least three mask filters whose driver accepts every call, the receive
  filters admit, of all 29 bit identifiers, exactly the five the dispatch handles and the one
  identifier between the heating status and the charging limits; so no frame the firmware decodes
  is filtered out, and a frame with any other identifier leaves the state unchanged.
\<close>

theorem rx_filters_admit_handled:
  assumes "3 \<le> n" and "fst (configure_rx_filters n answer) = ESP_OK" and "ident < 0x20000000"
  shows "admits (fold set_filter (snd (configure_rx_filters n answer))
            \<lparr>fb_mask = (\<lambda>_. None), fb_range = (\<lambda>_. None)\<rparr>) ident
          = (ident \<in> set handled_ids \<or> ident = MEB_CAN_ID_DYNAMIC + 1)
    \<and> (ident \<notin> set handled_ids \<longrightarrow> process_rx_message r
          \<lparr>rx_header = h\<lparr>th_id := ident\<rparr>, rx_data = data, rx_len = len\<rparr> s = s)"
proof -
  have calls: "snd (configure_rx_filters n answer) = filter_calls n"
    using assms(2) unfolding configure_rx_filters_def by (rule run_calls_ok)
  have below: "exact_ids ! i < 0x20000000" if "i < 3" for i
    using that by (auto simp: exact_ids_def can_ids less_Suc_eq numeral_3_eq_3 nth_Cons')
  have "(\<exists>i < 3. ident = exact_ids ! i) = (ident \<in> set exact_ids)"
    by (auto simp: exact_ids_def less_Suc_eq numeral_3_eq_3 nth_Cons')
  then show ?thesis
    unfolding calls filters_set [OF assms(1)] admits_def
    using xor_masked [OF assms(3) below] range_ids [of ident]
    by (auto simp: handled_ids_def exact_ids_def can_ids process_rx_message_def Let_def split: if_splits)
qed

theorem rx_filters_admit_handled_witness:
  "admits (fold set_filter (snd (configure_rx_filters 3 (\<lambda>c. ESP_OK)))
     \<lparr>fb_mask = (\<lambda>_. None), fb_range = (\<lambda>_. None)\<rparr>) MEB_CAN_ID_TEMPERATURE"
proof -
  have "fst (configure_rx_filters 3 (\<lambda>c. ESP_OK)) = ESP_OK" by code_simp
  from rx_filters_admit_handled [OF order_refl this, of MEB_CAN_ID_TEMPERATURE] show ?thesis
    by (simp add: handled_ids_def MEB_CAN_ID_TEMPERATURE_def)
qed

section \<open>Error flags\<close>

text \<open>The names of the flags that are set, lowest bit first, separated by bars.\<close>

fun join_bars :: "string list \<Rightarrow> string" where
  "join_bars [] = ''''"
| "join_bars [x] = x"
| "join_bars (x # y # ys) = x @ ''|'' @ join_bars (y # ys)"

definition flag_names :: "u32 \<Rightarrow> string list" where
  "flag_names flags = map snd (filter (\<lambda>(k, name). bit flags k)
     [(0, ''arb''), (1, ''bit''), (2, ''form''), (3, ''stuff''), (4, ''ack'')])"

text \<open>
  For every value of the flags the text put into the 24 byte buffer is complete: the names of
  all set flags it knows joined by bars, \<open>unknown\<close> when no flag is set and \<open>other\<close> when only flags
  without a name are set.
\<close>

theorem error_flags_text_complete:
  "format_error_flags flags 24 =
     (if flags = 0 then ''unknown'' else if flag_names flags = [] then ''other''
      else join_bars (flag_names flags))"
  by (simp add: format_error_flags_def append_flag_name_def snprintf_def flag_names_def Let_def)

section \<open>Error reports\<close>

text \<open>The state right after a report: no error is waiting to be reported.\<close>

definition errors_reported :: "can_state \<Rightarrow> bool" where
  "errors_reported st \<longleftrightarrow> last_error_event_count st = s_error_event_count st \<and> s_error_flags_seen st = 0"

lemma error_callbacks:
  "s_error_event_count (fold twai_error_callback fs st) = s_error_event_count st + of_nat (length fs)"
  "s_error_flags_seen (fold twai_error_callback fs st) = fold (\<lambda>f acc. acc OR f) fs (s_error_flags_seen st)"
  "last_error_event_count (fold twai_error_callback fs st) = last_error_event_count st"
  by (induction fs arbitrary: st) (simp_all add: twai_error_callback_def)



section \<open>The life of a signal\<close>

datatype signal = SigHeating | SigThermal | SigLimits | SigTemperature | SigSoc

fun signal_valid :: "signal \<Rightarrow> meb_state_snapshot \<Rightarrow> bool" where
  "signal_valid SigHeating s = hs_valid (heating_status s)"
| "signal_valid SigThermal s = nv_valid (temperature_status_charge s)"
| "signal_valid SigLimits s = cl_valid (charge_limits s)"
| "signal_valid SigTemperature s = bt_valid (battery_temperature s)"
| "signal_valid SigSoc s = nv_valid (bms_soc_percent s)"

fun signal_seen :: "signal \<Rightarrow> app_state \<Rightarrow> int" where
  "signal_seen SigHeating st = s_heating_status_seen_us st"
| "signal_seen SigThermal st = s_temperature_status_charge_seen_us st"
| "signal_seen SigLimits st = s_charge_limits_seen_us st"
| "signal_seen SigTemperature st = s_battery_temperature_seen_us st"
| "signal_seen SigSoc st = s_bms_soc_percent_seen_us st"

text \<open>Whether a message is the extended frame that carries the signal and is long enough.\<close>

fun carries_signal :: "signal \<Rightarrow> meb_can_rx_message \<Rightarrow> bool" where
  "carries_signal SigHeating m = (th_id (rx_header m) = MEB_CAN_ID_HEATING_STATUS \<and> rx_len m \<ge> 8)"
| "carries_signal SigThermal m = (th_id (rx_header m) = MEB_CAN_ID_CHARGING_OPTIMIZATION \<and> rx_len m \<ge> 3)"
| "carries_signal SigLimits m = (th_id (rx_header m) = MEB_CAN_ID_DYNAMIC \<and> rx_len m \<ge> 8)"
| "carries_signal SigTemperature m = (th_id (rx_header m) = MEB_CAN_ID_TEMPERATURE \<and> rx_len m \<ge> 5)"
| "carries_signal SigSoc m = (th_id (rx_header m) = MEB_CAN_ID_DIAG_RESP \<and>
     soc_response (rx_data m) (rx_len m) \<and> rx_data m ! 4 \<le> 250)"

text \<open>What happens to the shared state: frames the CAN task dispatches and calls of other tasks.\<close>

datatype control_call = CallSetHeating bool | CallSetTimer u32 | CallApplyAutoOff | CallTakeSessionError

fun as_app_event :: "control_call \<Rightarrow> app_event" where
  "as_app_event (CallSetHeating b) = SetHeating b"
| "as_app_event (CallSetTimer n) = SetTimer n"
| "as_app_event CallApplyAutoOff = ApplyAutoOff"
| "as_app_event CallTakeSessionError = TakeSessionError"

datatype bus_event = Frame meb_can_rx_message | Call control_call

fun bus_step :: "build_config \<Rightarrow> reading \<times> bus_event \<Rightarrow> app_state \<times> diag_state \<Rightarrow> app_state \<times> diag_state" where
  "bus_step cfg (r, Frame m) s = process_rx_message r m s"
| "bus_step cfg (r, Call c) s = app_step cfg (r, as_app_event c) s"

fun quiet :: "signal \<Rightarrow> reading \<times> bus_event \<Rightarrow> bool" where
  "quiet k (r, Frame m) = (\<not> (th_ide (rx_header m) \<and> carries_signal k m))"
| "quiet k (r, Call c) = True"

lemma can_ids_distinct [simp]: "distinct handled_ids"
  by (simp add: handled_ids_def can_ids)

lemma process_rx_signal:
  assumes "th_ide (rx_header m)" and "carries_signal k m"
  shows "signal_valid k (s_state (fst (process_rx_message r m s))) \<and> signal_seen k (fst (process_rx_message r m s)) = rd_time_us r"
  using assms
  by (cases k; cases s) (auto simp: process_rx_message_def signal_defs can_ids Let_def)

lemma process_rx_quiet:
  assumes "\<not> (th_ide (rx_header m) \<and> carries_signal k m)"
  shows "signal_valid k (s_state (fst (process_rx_message r m s))) = signal_valid k (s_state (fst s))
    \<and> signal_seen k (fst (process_rx_message r m s)) = signal_seen k (fst s)"
  using assms
  by (cases k; cases s) (auto simp: process_rx_message_def signal_defs Let_def not_less split: if_splits)

lemma call_quiet:
  "signal_valid k (s_state (fst (app_step cfg (r, as_app_event c) s))) = signal_valid k (s_state (fst s))
    \<and> signal_seen k (fst (app_step cfg (r, as_app_event c) s)) = signal_seen k (fst s)"
  by (cases k; cases c; cases s) (auto simp: app_defs)

lemma bus_step_quiet:
  "quiet k e \<Longrightarrow> signal_valid k (s_state (fst (bus_step cfg e s))) = signal_valid k (s_state (fst s))
    \<and> signal_seen k (fst (bus_step cfg e s)) = signal_seen k (fst s)"
  using process_rx_quiet call_quiet by (cases e; cases "snd e") auto

lemma bus_run_quiet:
  "list_all (quiet k) es \<Longrightarrow> signal_valid k (s_state (fst (fold (bus_step cfg) es s))) = signal_valid k (s_state (fst s))
    \<and> signal_seen k (fst (fold (bus_step cfg) es s)) = signal_seen k (fst s)"
  by (induction es arbitrary: s) (simp_all add: bus_step_quiet)

lemma snapshot_signal:
  "signal_valid k (meb_state_get_snapshot cfg now st) =
     (signal_valid k (s_state st) \<and> can_signal_is_fresh now (signal_seen k st))"
  using heating_signal.snapshot_valid thermal_signal.snapshot_valid limits_signal.snapshot_valid
    temperature_signal.snapshot_valid soc_signal.snapshot_valid
  by (cases k) simp_all

text \<open>
  C13: A decoded signal is reported for exactly 30 seconds after its frame. For each of the five
  signals, when an extended frame that carries it is dispatched at time \<open>t\<close> and then any sequence
  of other frames and of calls of other tasks follows, a snapshot taken at time \<open>now\<close> marks the
  signal valid exactly when \<open>now\<close> is before \<open>t\<close> plus 30 seconds; without such a frame since boot
  it is never valid.
\<close>

theorem signal_valid_thirty_seconds:
  assumes "th_ide (rx_header m)" and "carries_signal k m" and "0 < rd_time_us r"
    and "list_all (quiet k) es"
  shows "signal_valid k (meb_state_get_snapshot cfg now (fst (fold (bus_step cfg) ((r, Frame m) # es) s)))
      = (now < rd_time_us r + 30 * 1000000)
    \<and> \<not> signal_valid k (meb_state_get_snapshot cfg now (fst (fold (bus_step cfg) es (app_boot_state\<lparr>s_state_lock := b\<rparr>, d))))"
proof
  show "signal_valid k (meb_state_get_snapshot cfg now (fst (fold (bus_step cfg) ((r, Frame m) # es) s)))
      = (now < rd_time_us r + 30 * 1000000)"
    using bus_run_quiet [OF assms(4), of cfg "process_rx_message r m s"] process_rx_signal [OF assms(1,2), of r s] assms(3)
    by (auto simp: snapshot_signal can_signal_is_fresh_def time_defs)
  have "signal_seen k (fst (app_boot_state\<lparr>s_state_lock := b\<rparr>, d)) = 0" by (cases k) (simp_all add: app_boot_state_def)
  then show "\<not> signal_valid k (meb_state_get_snapshot cfg now (fst (fold (bus_step cfg) es (app_boot_state\<lparr>s_state_lock := b\<rparr>, d))))"
    using bus_run_quiet [OF assms(4), of cfg "(app_boot_state\<lparr>s_state_lock := b\<rparr>, d)"]
    by (simp add: snapshot_signal can_signal_is_fresh_def)
qed

theorem signal_valid_thirty_seconds_witness:
  "let m = \<lparr>rx_header = zero_header\<lparr>th_id := MEB_CAN_ID_TEMPERATURE, th_ide := True\<rparr>, rx_data = replicate 64 0x7F, rx_len = 8\<rparr>
   in signal_valid SigTemperature (meb_state_get_snapshot default_config 30000006
        (fst (fold (bus_step default_config) [(at_us 7, Frame m), (at_us 9, Call (CallSetHeating True))] (app_boot_state, diag_boot_state))))"
proof -
  let ?m = "\<lparr>rx_header = zero_header\<lparr>th_id := MEB_CAN_ID_TEMPERATURE, th_ide := True\<rparr>, rx_data = replicate 64 0x7F, rx_len = 8\<rparr>"
  have "th_ide (rx_header ?m)" "carries_signal SigTemperature ?m" "0 < rd_time_us (at_us 7)"
      "list_all (quiet SigTemperature) [(at_us 9, Call (CallSetHeating True))]"
    by simp_all
  from signal_valid_thirty_seconds [OF this, of default_config 30000006 "(app_boot_state, diag_boot_state)"]
  show ?thesis by (simp add: Let_def del: bus_step.simps)
qed

section \<open>Bit timing\<close>

text \<open>
  The rate and the sample points, in parts per thousand, of a timing with the node's 80 MHz clock:
  a bit is one quantum of synchronisation, the propagation segment and the two phase segments.
\<close>

definition bit_quanta :: "twai_timing \<Rightarrow> nat" where
  "bit_quanta t = 1 + tm_prop_seg t + tm_tseg_1 t + tm_tseg_2 t"

definition bit_rate :: "twai_timing \<Rightarrow> nat" where
  "bit_rate t = 80000000 div (tm_brp t * bit_quanta t)"

definition sample_point :: "twai_timing \<Rightarrow> nat" where
  "sample_point t = 1000 * (1 + tm_prop_seg t + tm_tseg_1 t) div bit_quanta t"

definition secondary_sample_point :: "twai_timing \<Rightarrow> nat" where
  "secondary_sample_point t = 1000 * tm_ssp_offset t div bit_quanta t"

text \<open>
  The exact timings give the configured rates and the sample points the diagnostics report:
  500 kbit/s with 87.5 percent in the arbitration phase, and for the data rates the code knows,
  1 and 2 Mbit/s and no other, that rate with 75 percent and a secondary point of 70 percent; a
  bit is then exactly 40 quanta, so no rounding is involved.
\<close>

theorem bit_timing_exact:
  "bit_rate bit_timing = MEB_TWAI_BITRATE \<and> sample_point bit_timing = unat MEB_CAN_ARB_SAMPLE_POINT_PERMILL
    \<and> bit_quanta bit_timing = 40
    \<and> map (map_option (\<lambda>t. (bit_rate t, bit_quanta t, sample_point t, secondary_sample_point t)) \<circ> data_timing)
        [1000000, MEB_TWAI_DATA_BITRATE]
      = map (\<lambda>rate. Some (rate, 40, unat MEB_CAN_DATA_SAMPLE_POINT_PERMILL, unat MEB_CAN_DATA_SSP_PERMILL))
        [1000000, MEB_TWAI_DATA_BITRATE]
    \<and> (data_timing rate \<noteq> None) = (rate \<in> {1000000, 2000000})"
  by (auto simp: bit_rate_def sample_point_def secondary_sample_point_def bit_quanta_def bit_timing_def
      data_timing_def MEB_TWAI_BITRATE_def MEB_TWAI_DATA_BITRATE_def MEB_CAN_ARB_SAMPLE_POINT_PERMILL_def
      MEB_CAN_DATA_SAMPLE_POINT_PERMILL_def MEB_CAN_DATA_SSP_PERMILL_def Let_def)

section \<open>The set-up\<close>

definition planned_calls :: "nat \<Rightarrow> can_call list" where
  "planned_calls n =
     [CreateRxQueue 64, NewNode 500000 2000000,
      ReconfigTiming bit_timing \<lparr>tm_brp = 1, tm_prop_seg = 7, tm_tseg_1 = 22, tm_tseg_2 = 10, tm_sjw = 5, tm_ssp_offset = 28\<rparr>]
     @ filter_calls n @ [RegisterCallbacks, EnableNode, CreateRxTask]"

definition same_progress :: "esp_err \<times> 'c list \<Rightarrow> esp_err \<times> 'c list \<Rightarrow> bool" where
  "same_progress a b \<longleftrightarrow> snd a = snd b \<and> (fst a = ESP_OK) = (fst b = ESP_OK)"

lemma same_progress_and_then:
  "same_progress a a' \<Longrightarrow> same_progress b b' \<Longrightarrow> same_progress (and_then a b) (and_then a' b')"
  by (auto simp: same_progress_def and_then_def)

lemma same_progress_checked:
  "err \<noteq> ESP_OK \<Longrightarrow> same_progress (checked err answer c) (run_calls answer [c])"
  by (simp add: same_progress_def checked_def)

text \<open>
  The set-up makes its calls in a fixed order, queue, node, timing, filters, callbacks, enable,
  receive task, and stops at the first call that fails; so the node is enabled only after its
  timing, filters and callbacks are in place. It reports success exactly when every call
  succeeds, and records the start only then.
\<close>

theorem can_init_in_order:
  "case meb_can_init n answer r (st, d) of (err, calls, st', d') \<Rightarrow>
     calls = snd (run_calls answer (planned_calls n))
     \<and> (err = ESP_OK) = list_all (\<lambda>c. answer c = ESP_OK) (planned_calls n)
     \<and> (if err = ESP_OK
        then s_twai_node st' \<and> s_rx_queue st' \<and> d' = meb_diag_record_eventf r ''can'' ''started''
            (Some ''500000/2000000 bit/s sp=875/750 ssp=700'') d
        else d' = d)"
proof -
  let ?t = "\<lparr>tm_brp = 1, tm_prop_seg = 7, tm_tseg_1 = 22, tm_tseg_2 = 10, tm_sjw = 5, tm_ssp_offset = 28\<rparr>"
  have started: "can_started_text = ''500000/2000000 bit/s sp=875/750 ssp=700''"
    by (simp add: can_started_text_def print_dec_def print_base.simps digit_char_def
        MEB_TWAI_BITRATE_def MEB_TWAI_DATA_BITRATE_def MEB_CAN_ARB_SAMPLE_POINT_PERMILL_def
        MEB_CAN_DATA_SAMPLE_POINT_PERMILL_def MEB_CAN_DATA_SSP_PERMILL_def) code_simp
  have plan: "planned_calls n = [CreateRxQueue 64] @ [NewNode MEB_TWAI_BITRATE MEB_TWAI_DATA_BITRATE]
      @ [ReconfigTiming bit_timing ?t] @ filter_calls n @ [RegisterCallbacks, EnableNode] @ [CreateRxTask]"
    by (simp add: planned_calls_def MEB_TWAI_BITRATE_def MEB_TWAI_DATA_BITRATE_def)
  have timing: "configure_exact_canfd_timing answer = run_calls answer [ReconfigTiming bit_timing ?t]"
    by (simp add: configure_exact_canfd_timing_def data_timing_def MEB_TWAI_DATA_BITRATE_def)
  have "same_progress (can_init_steps n answer) (run_calls answer (planned_calls n))"
    unfolding can_init_steps_def plan run_calls_append timing configure_rx_filters_def
    by (intro same_progress_and_then same_progress_checked) (simp_all add: same_progress_def)
  moreover obtain err calls where steps: "can_init_steps n answer = (err, calls)" by fastforce
  ultimately have calls: "calls = snd (run_calls answer (planned_calls n))"
      and ok: "(err = ESP_OK) = list_all (\<lambda>c. answer c = ESP_OK) (planned_calls n)"
    by (simp_all add: same_progress_def run_calls_all)
  let ?new = "NewNode MEB_TWAI_BITRATE MEB_TWAI_DATA_BITRATE"
  have in_plan: "?new \<in> set (planned_calls n)" "CreateRxQueue 64 \<in> set (planned_calls n)"
    unfolding plan by simp_all
  have made: "?new \<in> set calls \<and> answer ?new = ESP_OK \<and> answer (CreateRxQueue 64) = ESP_OK" if "err = ESP_OK"
  proof -
    have all: "list_all (\<lambda>c. answer c = ESP_OK) (planned_calls n)" using that ok by simp
    then have "calls = planned_calls n" unfolding calls by (intro run_calls_ok) (simp only: run_calls_all)
    with in_plan all show ?thesis unfolding list_all_iff by blast
  qed
  show ?thesis
    using calls ok made by (cases "err = ESP_OK") (simp_all add: meb_can_init_def steps started Let_def)
qed

end
