(* ===== verification/Text_Codecs.thy ===== *)
theory Text_Codecs
  imports Prelude
begin

text \<open>
  The text decoders of \<open>main/ota_update.c\<close>: hexadecimal digests (\<open>hex_digit\<close>,
  \<open>parse_sha256\<close>) and base64 chunks (\<open>base64_value\<close>, \<open>decode_base64\<close>), with the encoders
  they invert.
\<close>

section \<open>Hexadecimal digests\<close>

definition hex_digit :: "char \<Rightarrow> int" where
  "hex_digit c =
     (let n = int (of_char c :: nat) in
      if 48 \<le> n \<and> n \<le> 57 then n - 48
      else if 97 \<le> n \<and> n \<le> 102 then n - 97 + 10
      else if 65 \<le> n \<and> n \<le> 70 then n - 65 + 10
      else - 1)"

fun parse_hex_pairs :: "string \<Rightarrow> esp_err + u8 list" where
  "parse_hex_pairs (c1 # c2 # rest) =
     (let hi = hex_digit c1; lo = hex_digit c2 in
      if hi < 0 \<or> lo < 0 then Inl ESP_ERR_INVALID_ARG
      else case parse_hex_pairs rest of
        Inl e \<Rightarrow> Inl e
      | Inr out \<Rightarrow> Inr (word_of_int (push_bit 4 hi OR lo) # out))"
| "parse_hex_pairs _ = Inr []"

definition parse_sha256 :: "string option \<Rightarrow> esp_err + u8 list" where
  "parse_sha256 hex_ptr =
     (case hex_ptr of
        None \<Rightarrow> Inl ESP_ERR_INVALID_ARG
      | Some hex \<Rightarrow> if length hex \<noteq> 64 then Inl ESP_ERR_INVALID_ARG else parse_hex_pairs hex)"

section \<open>Base64 chunks\<close>

definition base64_value :: "char \<Rightarrow> int" where
  "base64_value c =
     (let n = int (of_char c :: nat) in
      if 65 \<le> n \<and> n \<le> 90 then n - 65
      else if 97 \<le> n \<and> n \<le> 122 then n - 97 + 26
      else if 48 \<le> n \<and> n \<le> 57 then n - 48 + 52
      else if c = CHR ''+'' then 62
      else if c = CHR ''/'' then 63
      else - 1)"

text \<open>
  The inner loop of \<open>decode_base64\<close> over one group: \<open>final\<close> tells whether the group ends the
  text, \<open>j\<close> is the position in the group, \<open>val\<close> and \<open>pad\<close> are the loop's variables.
\<close>

fun scan_group :: "bool \<Rightarrow> nat \<Rightarrow> int list \<Rightarrow> nat \<Rightarrow> string \<Rightarrow> (int list \<times> nat) option" where
  "scan_group final j val pad [] = Some (val, pad)"
| "scan_group final j val pad (c # cs) =
     (if c = CHR ''='' then
        (if j < 2 \<or> \<not> final then None else scan_group final (Suc j) val (Suc pad) cs)
      else if 0 < pad then None
      else let v = base64_value c in
           if v < 0 then None else scan_group final (Suc j) (val[j := v]) pad cs)"

fun decode_groups :: "nat \<Rightarrow> string \<Rightarrow> u8 list \<Rightarrow> esp_err + u8 list" where
  "decode_groups dst_len (c0 # c1 # c2 # c3 # rest) out =
     (case scan_group (rest = []) 0 [0, 0, 0, 0] 0 [c0, c1, c2, c3] of
        None \<Rightarrow> Inl ESP_ERR_INVALID_ARG
      | Some (val, pad) \<Rightarrow>
          if length out \<ge> dst_len then Inl ESP_ERR_INVALID_SIZE
          else let out1 = out @ [word_of_int (push_bit 2 (val ! 0) OR drop_bit 4 (val ! 1))] in
          if pad < 2 \<and> length out1 \<ge> dst_len then Inl ESP_ERR_INVALID_SIZE
          else let out2 = (if pad < 2
                 then out1 @ [word_of_int (push_bit 4 (val ! 1 AND 0x0F) OR drop_bit 2 (val ! 2))]
                 else out1) in
          if pad < 1 \<and> length out2 \<ge> dst_len then Inl ESP_ERR_INVALID_SIZE
          else let out3 = (if pad < 1
                 then out2 @ [word_of_int (push_bit 6 (val ! 2 AND 0x03) OR (val ! 3))]
                 else out2)
          in decode_groups dst_len rest out3)"
| "decode_groups dst_len _ out = Inr out"

definition decode_base64 :: "string \<Rightarrow> nat \<Rightarrow> esp_err + u8 list" where
  "decode_base64 src dst_len =
     (let src_len = length src in
      if src_len = 0 \<or> src_len mod 4 \<noteq> 0 then Inl ESP_ERR_INVALID_ARG
      else decode_groups dst_len src [])"

section \<open>The encoders\<close>

definition hex_char :: "bool \<Rightarrow> nat \<Rightarrow> char" where
  "hex_char upper d = char_of (if d < 10 then 48 + d else if upper then 55 + d else 87 + d)"

definition hex_text :: "bool \<Rightarrow> u8 list \<Rightarrow> string" where
  "hex_text upper bs = concat (map (\<lambda>b. [hex_char upper (unat b div 16), hex_char upper (unat b mod 16)]) bs)"

definition base64_char :: "nat \<Rightarrow> char" where
  "base64_char v =
     (if v < 26 then char_of (65 + v) else if v < 52 then char_of (71 + v)
      else if v < 62 then char_of (v - 4) else if v = 62 then CHR ''+'' else CHR ''/'')"

fun base64_text :: "u8 list \<Rightarrow> string" where
  "base64_text (a # b # c # rest) =
     base64_char (unat a div 4) # base64_char (unat a mod 4 * 16 + unat b div 16) #
     base64_char (unat b mod 16 * 4 + unat c div 64) # base64_char (unat c mod 64) #
     base64_text rest"
| "base64_text [a, b] =
     [base64_char (unat a div 4), base64_char (unat a mod 4 * 16 + unat b div 16),
      base64_char (unat b mod 16 * 4), CHR ''='']"
| "base64_text [a] =
     [base64_char (unat a div 4), base64_char (unat a mod 4 * 16), CHR ''='', CHR ''='']"
| "base64_text [] = []"

section \<open>Hexadecimal round trip\<close>

lemma hex_digit_hex_char: "d < 16 \<Longrightarrow> hex_digit (hex_char upper d) = int d"
  by (auto simp: hex_digit_def hex_char_def Let_def)

lemma hex_digit_range: "0 \<le> hex_digit c \<Longrightarrow> hex_digit c < 16"
  by (auto simp: hex_digit_def Let_def)

lemma parse_hex_pairs_hex_text: "parse_hex_pairs (hex_text upper bs) = Inr bs"
proof (induction bs)
  case Nil
  then show ?case by (simp add: hex_text_def)
next
  case (Cons b bs)
  have b: "unat b div 16 < 16" "unat b mod 16 < 16"
    using unsigned_less [of b, where ?'a = nat] by (simp_all add: less_mult_imp_div_less)
  have "push_bit 4 (int (unat b div 16)) OR int (unat b mod 16) = int (unat b div 16) * 2 ^ 4 + int (unat b mod 16)"
    by (rule push_or) simp_all
  also have "\<dots> = int (unat b)" by (simp add: zdiv_int zmod_int)
  finally have "word_of_int (push_bit 4 (int (unat b div 16)) OR int (unat b mod 16)) = b" by simp
  with Cons.IH b show ?case
    by (simp add: hex_text_def hex_digit_hex_char)
qed

lemma hex_text_length [simp]: "length (hex_text upper bs) = 2 * length bs"
  by (induction bs) (simp_all add: hex_text_def)



lemma parse_hex_pairs_length: "parse_hex_pairs s = Inr out \<Longrightarrow> length out = length s div 2"
  by (induction s arbitrary: out rule: parse_hex_pairs.induct)
    (auto simp: Let_def split: if_splits sum.splits)

lemma parse_hex_pairs_digits:
  "parse_hex_pairs s = Inr out \<Longrightarrow> even (length s) \<Longrightarrow> list_all (\<lambda>c. 0 \<le> hex_digit c) s"
  by (induction s arbitrary: out rule: parse_hex_pairs.induct)
    (auto simp: Let_def not_less split: if_splits sum.splits)

lemma parse_hex_pairs_total:
  "list_all (\<lambda>c. 0 \<le> hex_digit c) s \<Longrightarrow> \<exists>out. parse_hex_pairs s = Inr out"
proof (induction s rule: parse_hex_pairs.induct)
  case (1 c1 c2 rest)
  then show ?case by (cases "parse_hex_pairs rest") (auto simp: Let_def)
qed auto

text \<open>
  A digest text is accepted exactly when it is 64 hexadecimal digits of either case; it then
  denotes 32 bytes, and printing any 32 bytes in lower or upper case reads back as those bytes.
\<close>

theorem sha256_text_round_trip:
  "(\<exists>out. parse_sha256 (Some hex) = Inr out \<and> length out = 32)
      = (length hex = 64 \<and> list_all (\<lambda>c. 0 \<le> hex_digit c) hex)
   \<and> parse_sha256 (Some (hex_text upper bs))
      = (if length bs = 32 then Inr bs else Inl ESP_ERR_INVALID_ARG)"
proof
  show "(\<exists>out. parse_sha256 (Some hex) = Inr out \<and> length out = 32)
      = (length hex = 64 \<and> list_all (\<lambda>c. 0 \<le> hex_digit c) hex)"
  proof (cases "length hex = 64 \<and> list_all (\<lambda>c. 0 \<le> hex_digit c) hex")
    case True
    then obtain out where "parse_hex_pairs hex = Inr out" using parse_hex_pairs_total by blast
    with True parse_hex_pairs_length show ?thesis by (fastforce simp: parse_sha256_def)
  next
    case False
    then show ?thesis using parse_hex_pairs_digits [of hex] by (auto simp: parse_sha256_def)
  qed
  show "parse_sha256 (Some (hex_text upper bs))
      = (if length bs = 32 then Inr bs else Inl ESP_ERR_INVALID_ARG)"
    by (simp add: parse_sha256_def parse_hex_pairs_hex_text)
qed

lemma parse_sha256_hex_text: "length bs = 32 \<Longrightarrow> parse_sha256 (Some (hex_text upper bs)) = Inr bs"
  by (simp add: parse_sha256_def parse_hex_pairs_hex_text)

section \<open>Base64 round trip\<close>

lemma base64_value_char: "v < 64 \<Longrightarrow> base64_value (base64_char v) = int v"
  by (auto simp: base64_value_def base64_char_def Let_def)

lemma base64_char_not_pad: "v < 64 \<Longrightarrow> base64_char v \<noteq> CHR ''=''"
proof
  assume "v < 64" and "base64_char v = CHR ''=''"
  then have "base64_value (CHR ''='') = int v" using base64_value_char by metis
  then show False by (simp add: base64_value_def)
qed

lemma base64_value_range: "0 \<le> base64_value c \<Longrightarrow> base64_value c < 64"
  by (auto simp: base64_value_def Let_def)

lemma sextets:
  fixes a b c :: u8
  shows "unat a div 4 < 64" "unat a mod 4 * 16 + unat b div 16 < 64" "unat a mod 4 * 16 < 64"
    "unat b mod 16 * 4 + unat c div 64 < 64" "unat b mod 16 * 4 < 64" "unat c mod 64 < 64"
proof -
  have "unat a < 256" "unat b < 256" "unat c < 256"
    using unsigned_less [of a, where ?'a = nat] unsigned_less [of b, where ?'a = nat]
      unsigned_less [of c, where ?'a = nat] by simp_all
  then have "unat a div 4 < 64" "unat b div 16 < 16" "unat c div 64 < 4"
    by (simp_all add: less_mult_imp_div_less)
  moreover have "unat a mod 4 < 4" "unat b mod 16 < 16" "unat c mod 64 < 64" by simp_all
  ultimately show "unat a div 4 < 64" "unat a mod 4 * 16 + unat b div 16 < 64" "unat a mod 4 * 16 < 64"
    "unat b mod 16 * 4 + unat c div 64 < 64" "unat b mod 16 * 4 < 64" "unat c mod 64 < 64"
    by linarith+
qed

lemma sextets_below: "unat (b :: u8) div 16 < 16" "unat (b :: u8) div 64 < 4"
  using unsigned_less [of b, where ?'a = nat] by (simp_all add: less_mult_imp_div_less)

lemma low_bits: "int x AND 15 = int (x mod 16)" "int x AND 3 = int (x mod 4)"
  using take_bit_eq_mask [of 4 "int x"] take_bit_eq_mask [of 2 "int x"]
  by (simp_all add: mask_eq_exp_minus_1 take_bit_eq_mod zmod_int)

lemma high_bits: "drop_bit 4 (int x) = int (x div 16)" "drop_bit 2 (int x) = int (x div 4)"
  by (simp_all add: drop_bit_eq_div zdiv_int)

lemma parts_join: "push_bit n (int (x div 2 ^ n)) OR int (x mod 2 ^ n) = int x"
proof -
  have "push_bit n (int (x div 2 ^ n)) OR int (x mod 2 ^ n) = int (x div 2 ^ n) * 2 ^ n + int (x mod 2 ^ n)"
    by (rule push_or) (simp_all add: zmod_int)
  also have "\<dots> = int (x div 2 ^ n * 2 ^ n + x mod 2 ^ n)" by simp
  finally show ?thesis by (simp only: div_mult_mod_eq)
qed

lemma byte_of_parts:
  "word_of_int (push_bit 2 (int (unat b div 4)) OR int (unat b mod 4)) = (b :: u8)"
  "word_of_int (push_bit 4 (int (unat b div 16)) OR int (unat b mod 16)) = (b :: u8)"
  "word_of_int (push_bit 6 (int (unat b div 64)) OR int (unat b mod 64)) = (b :: u8)"
  using parts_join [of 2 "unat b"] parts_join [of 4 "unat b"] parts_join [of 6 "unat b"] by simp_all

lemma sextet_bytes:
  fixes a b c :: u8
  shows "k < 16 \<Longrightarrow> word_of_int (push_bit 2 (int (unat a div 4)) OR drop_bit 4 (int (unat a mod 4 * 16 + k))) = a"
    and "j < 4 \<Longrightarrow> word_of_int (push_bit 4 (int (unat a mod 4 * 16 + unat b div 16) AND 15) OR
           drop_bit 2 (int (unat b mod 16 * 4 + j))) = b"
    and "word_of_int (push_bit 6 (int (unat b mod 16 * 4 + unat c div 64) AND 3) OR int (unat c mod 64)) = c"
proof -
  have k: "(unat a mod 4 * 16 + k) div 16 = unat a mod 4" if "k < 16" for k
    using that by simp
  have j: "(unat b mod 16 * 4 + j) div 4 = unat b mod 16" "(unat b mod 16 * 4 + j) mod 4 = j" if "j < 4" for j
    using that by simp_all
  have m: "(unat a mod 4 * 16 + unat b div 16) mod 16 = unat b div 16"
    using sextets_below [of b] by simp
  show "k < 16 \<Longrightarrow> word_of_int (push_bit 2 (int (unat a div 4)) OR drop_bit 4 (int (unat a mod 4 * 16 + k))) = a"
    by (simp only: high_bits k byte_of_parts)
  show "j < 4 \<Longrightarrow> word_of_int (push_bit 4 (int (unat a mod 4 * 16 + unat b div 16) AND 15) OR
           drop_bit 2 (int (unat b mod 16 * 4 + j))) = b"
    by (simp only: high_bits low_bits m j byte_of_parts)
  show "word_of_int (push_bit 6 (int (unat b mod 16 * 4 + unat c div 64) AND 3) OR int (unat c mod 64)) = c"
    by (simp only: low_bits j sextets_below byte_of_parts)
qed

text \<open>How much a text of base64 can decode to.\<close>

lemma decode_groups_length:
  "decode_groups n s out = Inr res \<Longrightarrow> length out \<le> n \<Longrightarrow> length res \<le> n"
proof (induction n s out arbitrary: res rule: decode_groups.induct)
  case (1 n c0 c1 c2 c3 rest out)
  then show ?case
    by (auto simp: Let_def simp del: scan_group.simps split: option.splits prod.splits if_splits)
qed simp_all

lemma decode_groups_fits:
  "length out + 3 * (length s div 4) \<le> n \<Longrightarrow> decode_groups n s out \<noteq> Inl ESP_ERR_INVALID_SIZE"
proof (induction n s out rule: decode_groups.induct)
  case (1 n c0 c1 c2 c3 rest out)
  have "length (c0 # c1 # c2 # c3 # rest) div 4 = (length rest + 4) div 4" by simp
  also have "\<dots> = Suc (length rest div 4)" by simp
  finally have r: "3 * (length (c0 # c1 # c2 # c3 # rest) div 4) = 3 + 3 * (length rest div 4)" by simp
  show ?case
  proof (cases "scan_group (rest = []) 0 [0, 0, 0, 0] 0 [c0, c1, c2, c3]")
    case None
    then show ?thesis by (simp del: scan_group.simps)
  next
    case (Some vp)
    obtain v p where [simp]: "vp = (v, p)" by fastforce
    show ?thesis using 1 Some r
      by (simp add: Let_def del: scan_group.simps split: if_splits)
  qed
qed simp_all

lemma base64_text_length: "length (base64_text bs) = 4 * ((length bs + 2) div 3)"
proof (induction bs rule: base64_text.induct)
  case (1 a b c rest)
  have "(length (a # b # c # rest) + 2) div 3 = (length rest + 2 + 3) div 3" by simp
  also have "\<dots> = Suc ((length rest + 2) div 3)" by simp
  finally show ?case using "1.IH" by simp
qed simp_all

lemma decode_groups_base64_text:
  "length out + length bs \<le> n \<Longrightarrow> decode_groups n (base64_text bs) out = Inr (out @ bs)"
proof (induction bs arbitrary: out rule: base64_text.induct)
  case (1 a b c rest)
  then show ?case
    using sextet_bytes(1) [of "unat b div 16" a] sextet_bytes(2) [of "unat c div 64" a b] sextet_bytes(3) [of b c]
    by (simp add: base64_char_not_pad base64_value_char sextets sextets_below Let_def
        del: push_bit_and drop_bit_and of_nat_add of_nat_mult)
next
  case (2 a b)
  then show ?case
    using sextet_bytes(1) [of "unat b div 16" a] sextet_bytes(2) [of 0 a b]
    by (simp add: base64_char_not_pad base64_value_char sextets sextets_below Let_def
        del: push_bit_and drop_bit_and of_nat_add of_nat_mult)
next
  case (3 a)
  then show ?case
    using sextet_bytes(1) [of 0 a]
    by (simp add: base64_char_not_pad base64_value_char sextets sextets_below Let_def
        del: push_bit_and drop_bit_and of_nat_add of_nat_mult)
next
  case 4
  then show ?case by simp
qed

lemma decode_base64_base64_text:
  assumes "bs \<noteq> []" and "length bs \<le> n"
  shows "decode_base64 (base64_text bs) n = Inr bs"
proof -
  have "0 < (length bs + 2) div 3" using assms(1) by (cases bs) auto
  then show ?thesis
    using assms decode_groups_base64_text [of "[]" bs n]
    by (simp add: decode_base64_def base64_text_length)
qed

text \<open>
  C35: Decoding undoes standard base64 encoding: for every non-empty list of bytes that fits the
  destination, the padded text of its encoding decodes to exactly those bytes.
\<close>

theorem base64_round_trip:
  assumes "bs \<noteq> []" and "length bs \<le> n"
  shows "decode_base64 (base64_text bs) n = Inr bs"
  using assms by (rule decode_base64_base64_text)

theorem base64_round_trip_witness: "decode_base64 ''QUJDRA=='' 576 = Inr [65, 66, 67, 68]"
proof -
  have "base64_text [65, 66, 67, 68 :: u8] = ''QUJDRA==''" by code_simp
  then show ?thesis using base64_round_trip [of "[65, 66, 67, 68]" 576] by simp
qed

lemma decode_base64_length: "decode_base64 s n = Inr out \<Longrightarrow> length out \<le> n"
  using decode_groups_length [of n s "[]"] by (auto simp: decode_base64_def Let_def split: if_splits)

text \<open>
  The decoder never writes past its destination, and a text of at most four characters per
  three bytes of the destination is never refused for its size; so a refusal then means that the
  text is not base64.
\<close>

theorem base64_respects_buffer:
  "(\<forall>out. decode_base64 s n = Inr out \<longrightarrow> length out \<le> n)
   \<and> (3 * length s \<le> 4 * n \<longrightarrow> decode_base64 s n \<noteq> Inl ESP_ERR_INVALID_SIZE)"
proof -
  have "3 * (length s div 4) \<le> n" if "3 * length s \<le> 4 * n"
    using that by linarith
  then show ?thesis
    using decode_base64_length [of s n] decode_groups_fits [of "[]" s n]
    by (auto simp: decode_base64_def)
qed

theorem base64_respects_buffer_witness:
  "decode_base64 (replicate 768 CHR ''A'') 576 \<noteq> Inl ESP_ERR_INVALID_SIZE"
  using base64_respects_buffer [of "replicate 768 CHR ''A''" 576] by simp

end
