(* ===== verification/Ota_Update.thy ===== *)
theory Ota_Update
  imports Text_Codecs
begin

text \<open>
  \<open>main/ota_update.c\<close>: the firmware update session (begin, write, end, cancel, status). The hash
  is TinyCrypt's and the flash is ESP-IDF's: the hash functions are fields of an argument, the
  answers of the flash driver are the fields of an argument of each operation, and the calls an
  operation makes of the flash driver are part of its result. The session refines an abstract
  machine that keeps the received image instead of counters and a hash context.
\<close>

section \<open>Data\<close>

record esp_partition =
  part_label :: string
  part_size :: u32

text \<open>TinyCrypt's SHA-256, as the module calls it: return codes, contexts and a digest.\<close>

record 'c sha_api =
  sha_zeroed :: 'c
  tc_sha256_init :: "'c \<Rightarrow> int \<times> 'c"
  tc_sha256_update :: "'c \<Rightarrow> u8 list \<Rightarrow> int \<times> 'c"
  tc_sha256_final :: "'c \<Rightarrow> int \<times> u8 list"

record ota_answers =
  an_next_partition :: "esp_partition option"
  an_begin :: "esp_err \<times> u32"
  an_write :: esp_err
  an_end :: esp_err
  an_set_boot :: esp_err
  an_running :: "esp_partition option"

text \<open>A call of the flash driver, with its answer.\<close>

datatype ota_call =
    OtaBegin esp_partition esp_err u32
  | OtaWrite u32 "u8 list" esp_err
  | OtaEnd u32 esp_err
  | OtaAbort u32
  | SetBoot esp_partition esp_err

record 'c ota_update_state =
  ota_active :: bool
  ota_pending_reboot :: bool
  ota_handle :: u32
  ota_partition :: "esp_partition option"
  ota_expected_size :: u32
  ota_written :: u32
  ota_has_sha256 :: bool
  ota_expected_sha256 :: "u8 list"
  ota_sha256_ctx :: 'c

record meb_ota_status =
  os_active :: bool
  os_pending_reboot :: bool
  os_expected_size :: u32
  os_written :: u32
  os_partition_size :: u32
  os_has_sha256 :: bool
  os_partition_label :: string

definition MEB_OTA_MAX_BASE64_CHARS :: nat where "MEB_OTA_MAX_BASE64_CHARS = 768"

definition ota_zero :: "'c sha_api \<Rightarrow> 'c ota_update_state" where
  "ota_zero api = \<lparr>ota_active = False, ota_pending_reboot = False, ota_handle = 0,
     ota_partition = None, ota_expected_size = 0, ota_written = 0, ota_has_sha256 = False,
     ota_expected_sha256 = replicate 32 0, ota_sha256_ctx = sha_zeroed api\<rparr>"

section \<open>Operations\<close>

definition abort_active_update ::
    "'c sha_api \<Rightarrow> 'c ota_update_state \<Rightarrow> 'c ota_update_state \<times> ota_call list" where
  "abort_active_update api st =
     (ota_zero api, if ota_active st then [OtaAbort (ota_handle st)] else [])"

definition meb_ota_update_begin ::
    "'c sha_api \<Rightarrow> ota_answers \<Rightarrow> u32 \<Rightarrow> string option \<Rightarrow> 'c ota_update_state \<Rightarrow>
     esp_err \<times> 'c ota_update_state \<times> ota_call list" where
  "meb_ota_update_begin api an img_size sha256_hex st =
     (if ota_active st \<or> ota_pending_reboot st then (ESP_ERR_INVALID_STATE, st, [])
      else if img_size = 0 then (ESP_ERR_INVALID_SIZE, st, [])
      else case parse_sha256 sha256_hex of
        Inl err \<Rightarrow> (err, st, [])
      | Inr expected_sha256 \<Rightarrow>
      (case an_next_partition an of
        None \<Rightarrow> (ESP_ERR_NOT_FOUND, st, [])
      | Some part \<Rightarrow>
        if img_size > part_size part then (ESP_ERR_INVALID_SIZE, st, [])
        else let (err, handle) = an_begin an; call = OtaBegin part err handle in
        if err \<noteq> ESP_OK then (err, st, [call])
        else let st1 = (ota_zero api)\<lparr>ota_active := True, ota_handle := handle,
                   ota_partition := Some part, ota_expected_size := img_size,
                   ota_has_sha256 := True, ota_expected_sha256 := expected_sha256\<rparr>;
                 (code, ctx) = tc_sha256_init api (ota_sha256_ctx st1);
                 st2 = st1\<lparr>ota_sha256_ctx := ctx\<rparr>
        in if code \<noteq> 1 then (let (st3, calls) = abort_active_update api st2 in (ESP_FAIL, st3, call # calls))
           else (ESP_OK, st2, [call])))"

text \<open>The second component of the result is \<open>*decoded_len\<close>.\<close>

definition meb_ota_update_write ::
    "'c sha_api \<Rightarrow> ota_answers \<Rightarrow> u32 \<Rightarrow> string option \<Rightarrow> 'c ota_update_state \<Rightarrow>
     esp_err \<times> u32 \<times> 'c ota_update_state \<times> ota_call list" where
  "meb_ota_update_write api an offset base64_data st =
     (if \<not> ota_active st then (ESP_ERR_INVALID_STATE, 0, st, [])
      else case base64_data of
        None \<Rightarrow> (MEB_ERR_OTA_PROTOCOL, 0, st, [])
      | Some text \<Rightarrow>
        if offset \<noteq> ota_written st then (MEB_ERR_OTA_PROTOCOL, 0, st, [])
        else if length text = 0 \<or> length text > MEB_OTA_MAX_BASE64_CHARS then (ESP_ERR_INVALID_SIZE, 0, st, [])
        else (case decode_base64 text (MEB_OTA_MAX_BASE64_CHARS div 4 * 3) of
          Inl err \<Rightarrow> (err, 0, st, [])
        | Inr decoded \<Rightarrow>
          let olen = (of_nat (length decoded) :: u32) in
          if ota_written st + olen > ota_expected_size st then (ESP_ERR_INVALID_SIZE, 0, st, [])
          else let err = an_write an; call = OtaWrite (ota_handle st) decoded err in
          if err \<noteq> ESP_OK then (err, 0, st, [call])
          else let (code, ctx) = tc_sha256_update api (ota_sha256_ctx st) decoded;
                   st1 = st\<lparr>ota_sha256_ctx := ctx\<rparr> in
          if code \<noteq> 1 then (ESP_FAIL, 0, st1, [call])
          else (ESP_OK, olen, st1\<lparr>ota_written := ota_written st + olen\<rparr>, [call])))"

definition meb_ota_update_end ::
    "'c sha_api \<Rightarrow> ota_answers \<Rightarrow> 'c ota_update_state \<Rightarrow> esp_err \<times> 'c ota_update_state \<times> ota_call list" where
  "meb_ota_update_end api an st =
     (if \<not> ota_active st then (ESP_ERR_INVALID_STATE, st, [])
      else if ota_written st \<noteq> ota_expected_size st then (ESP_ERR_INVALID_SIZE, st, [])
      else let (code, actual_sha256) = tc_sha256_final api (ota_sha256_ctx st);
               (zeroed, aborted) = abort_active_update api st in
      if code \<noteq> 1 then (ESP_FAIL, zeroed, aborted)
      else if actual_sha256 \<noteq> ota_expected_sha256 st then (MEB_ERR_OTA_CHECKSUM, zeroed, aborted)
      else let err = an_end an; call = OtaEnd (ota_handle st) err in
      if err \<noteq> ESP_OK then (err, zeroed, call # aborted)
      else (case ota_partition st of
        None \<Rightarrow> (ESP_ERR_INVALID_ARG, ota_zero api, [call])
      | Some part \<Rightarrow>
        let err = an_set_boot an; boot = SetBoot part err in
        if err \<noteq> ESP_OK then (err, ota_zero api, [call, boot])
        else (ESP_OK, st\<lparr>ota_pending_reboot := True, ota_active := False\<rparr>, [call, boot])))"

definition meb_ota_update_cancel ::
    "'c sha_api \<Rightarrow> ota_answers \<Rightarrow> 'c ota_update_state \<Rightarrow> esp_err \<times> 'c ota_update_state \<times> ota_call list" where
  "meb_ota_update_cancel api an st =
     (if ota_active st then (let (st1, calls) = abort_active_update api st in (ESP_OK, st1, calls))
      else if ota_pending_reboot st then
        (case an_running an of
          None \<Rightarrow> (ESP_ERR_NOT_FOUND, st, [])
        | Some running \<Rightarrow>
          let err = an_set_boot an; boot = SetBoot running err in
          if err \<noteq> ESP_OK then (err, st, [boot]) else (ESP_OK, ota_zero api, [boot]))
      else (ESP_ERR_INVALID_STATE, st, []))"

definition meb_ota_update_get_status :: "'c ota_update_state \<Rightarrow> meb_ota_status" where
  "meb_ota_update_get_status st =
     (let status = \<lparr>os_active = ota_active st, os_pending_reboot = ota_pending_reboot st,
            os_expected_size = ota_expected_size st, os_written = ota_written st,
            os_partition_size = 0, os_has_sha256 = ota_has_sha256 st, os_partition_label = ''''\<rparr>
      in case ota_partition st of
        None \<Rightarrow> status
      | Some p \<Rightarrow> status\<lparr>os_partition_size := part_size p, os_partition_label := snprintf 17 (part_label p)\<rparr>)"

fun meb_ota_update_err_message :: "esp_err \<Rightarrow> string" where
  "meb_ota_update_err_message ESP_OK = ''OK''"
| "meb_ota_update_err_message ESP_ERR_INVALID_ARG = ''Invalid OTA argument''"
| "meb_ota_update_err_message ESP_ERR_INVALID_SIZE = ''Invalid OTA size''"
| "meb_ota_update_err_message ESP_ERR_INVALID_STATE = ''OTA update is not in the required state''"
| "meb_ota_update_err_message ESP_ERR_NOT_FOUND = ''No OTA update partition available''"
| "meb_ota_update_err_message ESP_ERR_NO_MEM = ''Not enough memory for OTA update''"
| "meb_ota_update_err_message MEB_ERR_OTA_CHECKSUM = ''Firmware SHA-256 mismatch''"
| "meb_ota_update_err_message MEB_ERR_OTA_PROTOCOL = ''Unexpected firmware chunk offset or payload''"
| "meb_ota_update_err_message _ = ''OTA operation failed''"

text \<open>\<open>meb_ota_update_schedule_reboot\<close>: the answer of \<open>xTaskCreate\<close> decides; the task it creates restarts the chip after the delay.\<close>

definition meb_ota_update_schedule_reboot :: "bool \<Rightarrow> u32 \<Rightarrow> esp_err \<times> u32 option" where
  "meb_ota_update_schedule_reboot task_created delay_ms =
     (if task_created then (ESP_OK, Some delay_ms) else (ESP_ERR_NO_MEM, None))"

section \<open>The abstract session\<close>

text \<open>
  What a session is to its client: nothing, an image being received, or an image that is verified
  and selected for the next boot. A request carries the answers of the flash driver; the output
  is the error code, the number of accepted bytes and the calls of the flash driver.
\<close>

datatype ota_request =
    ReqBegin u32 "string option" | ReqWrite u32 "string option" | ReqEnd | ReqCancel

datatype session =
    Idle
  | Receiving esp_partition u32 u32 "u8 list" "u8 list"
  | Ready esp_partition u32

type_synonym ota_output = "esp_err \<times> u32 \<times> ota_call list"

fun spec_serve :: "(u8 list \<Rightarrow> u8 list) \<Rightarrow> ota_answers \<times> ota_request \<Rightarrow> session \<Rightarrow> ota_output \<times> session" where
  "spec_serve H (an, ReqBegin n hex) Idle =
     (if n = 0 then ((ESP_ERR_INVALID_SIZE, 0, []), Idle)
      else case parse_sha256 hex of
        Inl e \<Rightarrow> ((e, 0, []), Idle)
      | Inr digest \<Rightarrow>
      (case an_next_partition an of
        None \<Rightarrow> ((ESP_ERR_NOT_FOUND, 0, []), Idle)
      | Some p \<Rightarrow>
        if n > part_size p then ((ESP_ERR_INVALID_SIZE, 0, []), Idle)
        else ((fst (an_begin an), 0, [OtaBegin p (fst (an_begin an)) (snd (an_begin an))]),
              if fst (an_begin an) = ESP_OK then Receiving p (snd (an_begin an)) n digest [] else Idle)))"
| "spec_serve H (an, ReqBegin n hex) s = ((ESP_ERR_INVALID_STATE, 0, []), s)"
| "spec_serve H (an, ReqWrite offset b64) (Receiving p h n digest img) =
     (let refuse = (\<lambda>e. ((e, 0, []), Receiving p h n digest img)) in
      case b64 of
        None \<Rightarrow> refuse MEB_ERR_OTA_PROTOCOL
      | Some text \<Rightarrow>
        if unat offset \<noteq> length img then refuse MEB_ERR_OTA_PROTOCOL
        else if text = [] \<or> length text > MEB_OTA_MAX_BASE64_CHARS then refuse ESP_ERR_INVALID_SIZE
        else (case decode_base64 text 576 of
          Inl e \<Rightarrow> refuse e
        | Inr chunk \<Rightarrow>
          if length img + length chunk > unat n then refuse ESP_ERR_INVALID_SIZE
          else ((an_write an, if an_write an = ESP_OK then of_nat (length chunk) else 0,
                 [OtaWrite h chunk (an_write an)]),
                Receiving p h n digest (if an_write an = ESP_OK then img @ chunk else img))))"
| "spec_serve H (an, ReqWrite offset b64) s = ((ESP_ERR_INVALID_STATE, 0, []), s)"
| "spec_serve H (an, ReqEnd) (Receiving p h n digest img) =
     (if length img \<noteq> unat n then ((ESP_ERR_INVALID_SIZE, 0, []), Receiving p h n digest img)
      else if H img \<noteq> digest then ((MEB_ERR_OTA_CHECKSUM, 0, [OtaAbort h]), Idle)
      else if an_end an \<noteq> ESP_OK then ((an_end an, 0, [OtaEnd h (an_end an), OtaAbort h]), Idle)
      else ((an_set_boot an, 0, [OtaEnd h ESP_OK, SetBoot p (an_set_boot an)]),
            if an_set_boot an = ESP_OK then Ready p n else Idle))"
| "spec_serve H (an, ReqEnd) s = ((ESP_ERR_INVALID_STATE, 0, []), s)"
| "spec_serve H (an, ReqCancel) Idle = ((ESP_ERR_INVALID_STATE, 0, []), Idle)"
| "spec_serve H (an, ReqCancel) (Receiving p h n digest img) = ((ESP_OK, 0, [OtaAbort h]), Idle)"
| "spec_serve H (an, ReqCancel) (Ready p n) =
     (case an_running an of
        None \<Rightarrow> ((ESP_ERR_NOT_FOUND, 0, []), Ready p n)
      | Some running \<Rightarrow>
        ((an_set_boot an, 0, [SetBoot running (an_set_boot an)]),
         if an_set_boot an = ESP_OK then Idle else Ready p n))"

fun ota_serve :: "'c sha_api \<Rightarrow> ota_answers \<times> ota_request \<Rightarrow> 'c ota_update_state \<Rightarrow>
    ota_output \<times> 'c ota_update_state" where
  "ota_serve api (an, ReqBegin n hex) st =
     (let (err, st', calls) = meb_ota_update_begin api an n hex st in ((err, 0, calls), st'))"
| "ota_serve api (an, ReqWrite offset b64) st =
     (let (err, len, st', calls) = meb_ota_update_write api an offset b64 st in ((err, len, calls), st'))"
| "ota_serve api (an, ReqEnd) st =
     (let (err, st', calls) = meb_ota_update_end api an st in ((err, 0, calls), st'))"
| "ota_serve api (an, ReqCancel) st =
     (let (err, st', calls) = meb_ota_update_cancel api an st in ((err, 0, calls), st'))"

section \<open>Refinement\<close>

text \<open>
  What TinyCrypt documents: the functions return 1, and a context that absorbed some bytes yields
  their hash. \<open>absorbed\<close> relates a context to the bytes it has absorbed.
\<close>

definition sha_lawful :: "'c sha_api \<Rightarrow> ('c \<Rightarrow> u8 list \<Rightarrow> bool) \<Rightarrow> (u8 list \<Rightarrow> u8 list) \<Rightarrow> bool" where
  "sha_lawful api absorbed H \<longleftrightarrow>
     (\<forall>c. fst (tc_sha256_init api c) = 1 \<and> absorbed (snd (tc_sha256_init api c)) [])
   \<and> (\<forall>c bs chunk. absorbed c bs \<longrightarrow>
        fst (tc_sha256_update api c chunk) = 1 \<and> absorbed (snd (tc_sha256_update api c chunk)) (bs @ chunk))
   \<and> (\<forall>c bs. absorbed c bs \<longrightarrow> tc_sha256_final api c = (1, H bs))"

text \<open>A flash partition is smaller than 4 GiB by more than a chunk.\<close>

definition flash_ok :: "ota_answers \<Rightarrow> bool" where
  "flash_ok an = pred_option (\<lambda>p. unat (part_size p) + 576 < 2 ^ 32) (an_next_partition an)"

fun session_rel :: "('c \<Rightarrow> u8 list \<Rightarrow> bool) \<Rightarrow> 'c sha_api \<Rightarrow> 'c ota_update_state \<Rightarrow> session \<Rightarrow> bool" where
  "session_rel absorbed api st Idle = (st = ota_zero api)"
| "session_rel absorbed api st (Receiving p h n digest img) =
     (ota_active st \<and> \<not> ota_pending_reboot st \<and> ota_handle st = h \<and> ota_partition st = Some p \<and>
      ota_expected_size st = n \<and> n \<noteq> 0 \<and> unat n + 576 < 2 ^ 32 \<and> ota_has_sha256 st \<and>
      ota_expected_sha256 st = digest \<and> unat (ota_written st) = length img \<and>
      length img \<le> unat n \<and> absorbed (ota_sha256_ctx st) img)"
| "session_rel absorbed api st (Ready p n) =
     (\<not> ota_active st \<and> ota_pending_reboot st \<and> ota_partition st = Some p \<and>
      ota_expected_size st = n \<and> ota_written st = n \<and> ota_has_sha256 st)"

lemmas sha_laws = sha_lawful_def [THEN iffD1, THEN conjunct1, rule_format]
  sha_lawful_def [THEN iffD1, THEN conjunct2, THEN conjunct1, rule_format]
  sha_lawful_def [THEN iffD1, THEN conjunct2, THEN conjunct2, rule_format]

lemma ota_zero_simps [simp]:
  "\<not> ota_active (ota_zero api)" "\<not> ota_pending_reboot (ota_zero api)" "ota_written (ota_zero api) = 0"
  by (simp_all add: ota_zero_def)

lemma begin_sim:
  assumes law: "sha_lawful api absorbed H" and "session_rel absorbed api st s" and "flash_ok an"
  shows "fst (ota_serve api (an, ReqBegin n hex) st) = fst (spec_serve H (an, ReqBegin n hex) s)
    \<and> session_rel absorbed api (snd (ota_serve api (an, ReqBegin n hex) st)) (snd (spec_serve H (an, ReqBegin n hex) s))"
proof (cases s)
  case Idle
  have size: "n \<le> part_size p \<Longrightarrow> unat n + 576 < 2 ^ 32" if "an_next_partition an = Some p" for p
    using assms(3) that by (auto simp: flash_ok_def word_le_nat_alt)
  show ?thesis using assms(2) size sha_laws(1) [OF law] unfolding Idle
    by (auto simp: meb_ota_update_begin_def Let_def split_beta not_less split: sum.split option.split)
qed (use assms(2) in \<open>auto simp: meb_ota_update_begin_def\<close>)

lemma write_sim:
  assumes law: "sha_lawful api absorbed H" and "session_rel absorbed api st s"
  shows "fst (ota_serve api (an, ReqWrite offset b64) st) = fst (spec_serve H (an, ReqWrite offset b64) s)
    \<and> session_rel absorbed api (snd (ota_serve api (an, ReqWrite offset b64) st)) (snd (spec_serve H (an, ReqWrite offset b64) s))"
proof (cases s)
  case (Receiving p h n digest img)
  have off: "(offset \<noteq> ota_written st) = (unat offset \<noteq> length img)"
    using assms(2) unfolding Receiving by (auto simp: word_unat_eq_iff)
  have sum: "unat (ota_written st + of_nat (length chunk)) = length img + length chunk"
    if "decode_base64 b 576 = Inr chunk" for b chunk
  proof -
    have "length chunk \<le> 576" using that by (rule decode_base64_length)
    then show ?thesis using assms(2) unfolding Receiving
      by (simp add: unat_word_ariths unat_of_nat)
  qed
  show ?thesis using assms(2) off sum sha_laws(2) [OF law] unfolding Receiving
    by (auto simp: meb_ota_update_write_def MEB_OTA_MAX_BASE64_CHARS_def Let_def split_beta
        word_less_nat_alt split: sum.split option.split)
qed (use assms(2) in \<open>auto simp: meb_ota_update_write_def\<close>)

lemma end_sim:
  assumes law: "sha_lawful api absorbed H" and "session_rel absorbed api st s"
  shows "fst (ota_serve api (an, ReqEnd) st) = fst (spec_serve H (an, ReqEnd) s)
    \<and> session_rel absorbed api (snd (ota_serve api (an, ReqEnd) st)) (snd (spec_serve H (an, ReqEnd) s))"
proof (cases s)
  case (Receiving p h n digest img)
  have full: "(ota_written st \<noteq> ota_expected_size st) = (length img \<noteq> unat n)"
    using assms(2) unfolding Receiving by (auto simp: word_unat_eq_iff)
  show ?thesis using assms(2) full sha_laws(3) [OF law] unfolding Receiving
    by (auto simp: meb_ota_update_end_def abort_active_update_def Let_def split_beta split: option.split)
qed (use assms(2) in \<open>auto simp: meb_ota_update_end_def\<close>)

lemma cancel_sim:
  assumes "session_rel absorbed api st s"
  shows "fst (ota_serve api (an, ReqCancel) st) = fst (spec_serve H (an, ReqCancel) s)
    \<and> session_rel absorbed api (snd (ota_serve api (an, ReqCancel) st)) (snd (spec_serve H (an, ReqCancel) s))"
  using assms
  by (cases s) (auto simp: meb_ota_update_cancel_def abort_active_update_def Let_def split_beta split: option.split)

interpretation ota_refines: simulation "ota_serve api" "spec_serve H" "\<lambda>e. flash_ok (fst e)"
    "\<lambda>st s. sha_lawful api absorbed H \<and> session_rel absorbed api st s" for api H absorbed
proof unfold_locales
  fix st s and e :: "ota_answers \<times> ota_request"
  assume "sha_lawful api absorbed H \<and> session_rel absorbed api st s" and "flash_ok (fst e)"
  moreover obtain an req where "e = (an, req)" by fastforce
  ultimately show "fst (ota_serve api e st) = fst (spec_serve H e s) \<and>
      sha_lawful api absorbed H \<and> session_rel absorbed api (snd (ota_serve api e st)) (snd (spec_serve H e s))"
    using begin_sim [of api absorbed H st s an] write_sim [of api absorbed H st s an]
      end_sim [of api absorbed H st s an] cancel_sim [of absorbed api st s an H]
    by (cases req) (simp_all add: conj_commute)
qed

section \<open>Properties\<close>

fun session_status :: "session \<Rightarrow> meb_ota_status" where
  "session_status Idle = \<lparr>os_active = False, os_pending_reboot = False, os_expected_size = 0,
     os_written = 0, os_partition_size = 0, os_has_sha256 = False, os_partition_label = ''''\<rparr>"
| "session_status (Receiving p h n digest img) = \<lparr>os_active = True, os_pending_reboot = False,
     os_expected_size = n, os_written = of_nat (length img), os_partition_size = part_size p,
     os_has_sha256 = True, os_partition_label = take 16 (part_label p)\<rparr>"
| "session_status (Ready p n) = \<lparr>os_active = False, os_pending_reboot = True, os_expected_size = n,
     os_written = n, os_partition_size = part_size p, os_has_sha256 = True,
     os_partition_label = take 16 (part_label p)\<rparr>"

lemma status_rel: "session_rel absorbed api st s \<Longrightarrow> meb_ota_update_get_status st = session_status s"
  by (cases s) (auto simp: meb_ota_update_get_status_def snprintf_def ota_zero_def Let_def intro: word_of_unat)

text \<open>The state and the calls after a history of requests that starts from power-on.\<close>

abbreviation ota_after where
  "ota_after api es \<equiv> snd (run_outputs (ota_serve api) es (ota_zero api))"

abbreviation ota_outputs where
  "ota_outputs api es \<equiv> fst (run_outputs (ota_serve api) es (ota_zero api))"

lemma ota_run_sim:
  assumes "sha_lawful api absorbed H" and "list_all (\<lambda>e. flash_ok (fst e)) es"
  shows "ota_outputs api es = fst (run_outputs (spec_serve H) es Idle)"
    and "session_rel absorbed api (ota_after api es) (snd (run_outputs (spec_serve H) es Idle))"
  using ota_refines.run_sim [of api absorbed H "ota_zero api" Idle es] assms by auto

text \<open>
  C7: The update session refines its abstract machine: for every history of begin, write, end and
  cancel requests from power-on, whatever the flash driver answers, every response and every
  driver call is the one of the machine that stores the received bytes and compares their hash,
  and the status report describes that machine's state.
\<close>

theorem ota_session_refines:
  assumes "sha_lawful api absorbed H" and "list_all (\<lambda>e. flash_ok (fst e)) es"
  shows "ota_outputs api es = fst (run_outputs (spec_serve H) es Idle)
    \<and> meb_ota_update_get_status (ota_after api es) = session_status (snd (run_outputs (spec_serve H) es Idle))"
  using ota_run_sim [OF assms] status_rel by blast

text \<open>A hash that satisfies the laws, for the witnesses: the first 32 bytes, padded with zeros.\<close>

definition plain_hash :: "u8 list \<Rightarrow> u8 list" where
  "plain_hash bs = take 32 (bs @ replicate 32 0)"

definition plain_sha :: "u8 list sha_api" where
  "plain_sha = \<lparr>sha_zeroed = [], tc_sha256_init = (\<lambda>c. (1, [])),
     tc_sha256_update = (\<lambda>c chunk. (1, c @ chunk)), tc_sha256_final = (\<lambda>c. (1, plain_hash c))\<rparr>"

lemma plain_sha_lawful: "sha_lawful plain_sha (=) plain_hash"
  by (simp add: sha_lawful_def plain_sha_def)

definition good_flash :: ota_answers where
  "good_flash = \<lparr>an_next_partition = Some \<lparr>part_label = ''ota_1'', part_size = 0x1E0000\<rparr>,
     an_begin = (ESP_OK, 1), an_write = ESP_OK, an_end = ESP_OK, an_set_boot = ESP_OK,
     an_running = Some \<lparr>part_label = ''ota_0'', part_size = 0x1E0000\<rparr>\<rparr>"

lemma good_flash_ok: "flash_ok good_flash"
  by (simp add: flash_ok_def good_flash_def)

theorem ota_session_refines_witness:
  "os_written (meb_ota_update_get_status (ota_after plain_sha
     [(good_flash, ReqBegin 3 (Some (replicate 64 CHR ''0''))), (good_flash, ReqWrite 0 (Some ''QUJD''))])) = 3"
proof -
  let ?es = "[(good_flash, ReqBegin 3 (Some (replicate 64 CHR ''0''))), (good_flash, ReqWrite 0 (Some ''QUJD''))]"
  have "os_written (session_status (snd (run_outputs (spec_serve plain_hash) ?es Idle))) = 3"
    by code_simp
  moreover have "list_all (\<lambda>e. flash_ok (fst e)) ?es" by (simp add: good_flash_ok)
  ultimately show ?thesis using ota_session_refines [OF plain_sha_lawful, of ?es] by (simp del: run_outputs.simps)
qed

subsection \<open>The boot partition\<close>

text \<open>What the flash holds after a sequence of driver calls: the partition opened last and the bytes written to it.\<close>

fun flash_after :: "ota_call \<Rightarrow> (esp_partition \<times> u8 list) option \<Rightarrow> (esp_partition \<times> u8 list) option" where
  "flash_after (OtaBegin p err h) s = (if err = ESP_OK then Some (p, []) else s)"
| "flash_after (OtaWrite h chunk err) s =
     (if err = ESP_OK then map_option (\<lambda>(p, bs). (p, bs @ chunk)) s else s)"
| "flash_after (OtaAbort h) s = None"
| "flash_after _ s = s"

definition flash_image :: "ota_output list \<Rightarrow> (esp_partition \<times> u8 list) option" where
  "flash_image outs = fold flash_after (concat (map (\<lambda>(err, len, calls). calls) outs)) None"

text \<open>The size and the digest of the last begin request that was accepted.\<close>

fun announced :: "((ota_answers \<times> ota_request) \<times> ota_output) \<Rightarrow> (u32 \<times> u8 list) option \<Rightarrow> (u32 \<times> u8 list) option" where
  "announced ((an, ReqBegin n hex), (err, len, calls)) s =
     (if err = ESP_OK then (case parse_sha256 hex of Inr digest \<Rightarrow> Some (n, digest) | Inl _ \<Rightarrow> s) else s)"
| "announced _ s = s"

definition announced_image :: "(ota_answers \<times> ota_request) list \<Rightarrow> ota_output list \<Rightarrow> (u32 \<times> u8 list) option" where
  "announced_image es outs = fold announced (zip es outs) None"

fun traced :: "session \<Rightarrow> (esp_partition \<times> u8 list) option \<Rightarrow> (u32 \<times> u8 list) option \<Rightarrow> bool" where
  "traced (Receiving p h n digest img) flash ann = (flash = Some (p, img) \<and> ann = Some (n, digest))"
| "traced _ flash ann = True"

lemma traced_step:
  assumes "traced s flash ann"
  shows "traced (snd (spec_serve H e s)) (fold flash_after (snd (snd (fst (spec_serve H e s)))) flash)
     (announced (e, fst (spec_serve H e s)) ann)"
proof -
  obtain an req where "e = (an, req)" by fastforce
  with assms show ?thesis
    by (cases s; cases req) (auto simp: Let_def split: sum.split option.split)
qed

lemma flash_image_snoc: "flash_image (outs @ [out]) = fold flash_after (snd (snd out)) (flash_image outs)"
  by (simp add: flash_image_def split_beta)

lemma announced_image_snoc:
  "length outs = length es \<Longrightarrow> announced_image (es @ [e]) (outs @ [out]) = announced (e, out) (announced_image es outs)"
  by (simp add: announced_image_def)

lemma spec_traced:
  "traced (snd (run_outputs (spec_serve H) es Idle)) (flash_image (fst (run_outputs (spec_serve H) es Idle)))
     (announced_image es (fst (run_outputs (spec_serve H) es Idle)))"
proof (induction es rule: rev_induct)
  case Nil
  then show ?case by simp
next
  case (snoc e es)
  have "length (fst (run_outputs (spec_serve H) es Idle)) = length es" by (rule run_outputs_length)
  with traced_step [OF snoc.IH, of H e] show ?case
    by (simp add: run_outputs_append split_beta Let_def flash_image_snoc announced_image_snoc)
qed

lemma spec_boot_switch:
  assumes "SetBoot q ESP_OK \<in> set (snd (snd (fst (spec_serve H (an, req) s))))"
  shows "(req = ReqEnd \<and> (\<exists>h n digest img. s = Receiving q h n digest img \<and> length img = unat n \<and> H img = digest))
       \<or> (req = ReqCancel \<and> an_running an = Some q)"
  using assms
  by (cases s; cases req) (auto simp: Let_def split: sum.splits option.splits if_splits)

text \<open>
  C11: The boot partition is switched to a new image only when the image is verified: whatever
  requests came before and whatever the flash answered, a request that selects partition \<open>q\<close> for
  the next boot is either an end request, and then the bytes the flash accepted into \<open>q\<close> since
  it was opened have exactly the size and the SHA-256 announced by the last accepted begin
  request, or a cancel request, and then \<open>q\<close> is the running partition.
\<close>

theorem boot_switch_needs_verified_image:
  assumes "sha_lawful api absorbed H" and "list_all (\<lambda>e. flash_ok (fst e)) es" and "flash_ok an"
    and "SetBoot q ESP_OK \<in> set (snd (snd (fst (ota_serve api (an, req) (ota_after api es)))))"
  shows "(req = ReqEnd \<and> (\<exists>n img. flash_image (ota_outputs api es) = Some (q, img)
            \<and> announced_image es (ota_outputs api es) = Some (n, H img) \<and> length img = unat n))
       \<or> (req = ReqCancel \<and> an_running an = Some q)"
proof -
  let ?s = "snd (run_outputs (spec_serve H) es Idle)"
  note run = ota_run_sim [OF assms(1,2)]
  have "fst (ota_serve api (an, req) (ota_after api es)) = fst (spec_serve H (an, req) ?s)"
    using ota_refines.sim [of api absorbed H "ota_after api es" ?s "(an, req)"] assms(1,3) run(2) by simp
  with assms(4) have "SetBoot q ESP_OK \<in> set (snd (snd (fst (spec_serve H (an, req) ?s))))" by simp
  from spec_boot_switch [OF this] spec_traced [of H es] show ?thesis
    unfolding run(1) by fastforce
qed

definition sample_upload :: "(ota_answers \<times> ota_request) list" where
  "sample_upload = [(good_flash, ReqBegin 3 (Some (hex_text True (plain_hash [65, 66, 67])))),
     (good_flash, ReqWrite 0 (Some ''QUI='')), (good_flash, ReqWrite 2 (Some ''Qw==''))]"

theorem boot_switch_needs_verified_image_witness:
  "let q = \<lparr>part_label = ''ota_1'', part_size = 0x1E0000\<rparr>
   in SetBoot q ESP_OK \<in> set (snd (snd (fst (ota_serve plain_sha (good_flash, ReqEnd) (ota_after plain_sha sample_upload)))))
    \<and> (\<exists>img. flash_image (ota_outputs plain_sha sample_upload) = Some (q, img))"
proof -
  let ?q = "\<lparr>part_label = ''ota_1'', part_size = 0x1E0000\<rparr> :: esp_partition"
  have "snd (snd (fst (ota_serve plain_sha (good_flash, ReqEnd) (ota_after plain_sha sample_upload)))) = [OtaEnd 1 ESP_OK, SetBoot ?q ESP_OK]"
    by code_simp
  then have boot: "SetBoot ?q ESP_OK \<in> set (snd (snd (fst (ota_serve plain_sha (good_flash, ReqEnd) (ota_after plain_sha sample_upload)))))"
    by simp
  have "list_all (\<lambda>e. flash_ok (fst e)) sample_upload" by (simp add: sample_upload_def good_flash_ok)
  from boot_switch_needs_verified_image [OF plain_sha_lawful this good_flash_ok boot] boot
  show ?thesis by auto
qed

subsection \<open>A complete upload\<close>

text \<open>The requests of a client that sends the chunks in order, each as base64.\<close>

fun upload :: "ota_answers \<Rightarrow> nat \<Rightarrow> u8 list list \<Rightarrow> (ota_answers \<times> ota_request) list" where
  "upload an offset [] = []"
| "upload an offset (chunk # chunks) =
     (an, ReqWrite (of_nat offset) (Some (base64_text chunk))) # upload an (offset + length chunk) chunks"

definition flash_works :: "ota_answers \<Rightarrow> bool" where
  "flash_works an \<longleftrightarrow> fst (an_begin an) = ESP_OK \<and> an_write an = ESP_OK \<and> an_end an = ESP_OK \<and> an_set_boot an = ESP_OK"

lemma base64_text_bounds:
  "bs \<noteq> [] \<Longrightarrow> length bs \<le> 576 \<Longrightarrow> base64_text bs \<noteq> [] \<and> length (base64_text bs) \<le> 768"
proof -
  assume "bs \<noteq> []" and b: "length bs \<le> 576"
  then have "0 < (length bs + 2) div 3" by (cases bs) auto
  then have "length (base64_text bs) \<noteq> 0" by (simp add: base64_text_length)
  moreover have "length (base64_text bs) \<le> 768"
    unfolding base64_text_length using div_le_mono [of "length bs + 2" 578 3] b by simp
  ultimately show ?thesis by simp
qed

lemma spec_upload:
  assumes "an_write an = ESP_OK" and "list_all (\<lambda>c. c \<noteq> [] \<and> length c \<le> 576) chunks"
    and "length img + length (concat chunks) \<le> unat n"
  shows "run_outputs (spec_serve H) (upload an (length img) chunks) (Receiving p h n digest img) =
     (map (\<lambda>c. (ESP_OK, of_nat (length c), [OtaWrite h c ESP_OK])) chunks, Receiving p h n digest (img @ concat chunks))"
  using assms(2,3)
proof (induction chunks arbitrary: img)
  case Nil
  then show ?case by simp
next
  case (Cons c chunks)
  have off: "unat (of_nat (length img) :: u32) = length img"
    using Cons.prems(2) unat_u32_bound [of n] by (simp add: unat_of_nat)
  have c: "base64_text c \<noteq> []" "length (base64_text c) \<le> MEB_OTA_MAX_BASE64_CHARS"
    "decode_base64 (base64_text c) 576 = Inr c"
    using Cons.prems(1) base64_text_bounds [of c] decode_base64_base64_text [of c 576]
    by (simp_all add: MEB_OTA_MAX_BASE64_CHARS_def)
  have "spec_serve H (an, ReqWrite (of_nat (length img)) (Some (base64_text c))) (Receiving p h n digest img) =
     ((ESP_OK, of_nat (length c), [OtaWrite h c ESP_OK]), Receiving p h n digest (img @ c))"
    using Cons.prems(2) c assms(1) by (simp add: off Let_def)
  then show ?case using Cons.IH [of "img @ c"] Cons.prems by simp
qed

lemma upload_flash_ok: "flash_ok an \<Longrightarrow> list_all (\<lambda>e. flash_ok (fst e)) (upload an k chunks)"
  by (induction chunks arbitrary: k) simp_all

text \<open>
  C18: An upload succeeds whenever the image fits the partition, the digest announced is its hash
  and the flash accepts every call: for every non-empty image, every division of it into chunks of
  1 to 576 bytes and either case of the digest text, begin, the writes and end all answer OK, the
  driver is called exactly to open the partition, to write the chunks in order, to close it and to
  select it, and the session ends ready to reboot.
\<close>

theorem upload_completes:
  assumes law: "sha_lawful api absorbed H" and "flash_ok an" and "flash_works an"
    and "an_next_partition an = Some p" and "length (H (concat chunks)) = 32"
    and "list_all (\<lambda>c. c \<noteq> [] \<and> length c \<le> 576) chunks" and "chunks \<noteq> []"
    and "length (concat chunks) \<le> unat (part_size p)"
  shows "let img = concat chunks; h = snd (an_begin an);
             es = [(an, ReqBegin (of_nat (length img)) (Some (hex_text upper (H img))))] @ upload an 0 chunks @ [(an, ReqEnd)]
         in ota_outputs api es =
              [(ESP_OK, 0, [OtaBegin p ESP_OK h])]
              @ map (\<lambda>c. (ESP_OK, of_nat (length c), [OtaWrite h c ESP_OK])) chunks
              @ [(ESP_OK, 0, [OtaEnd h ESP_OK, SetBoot p ESP_OK])]
          \<and> os_pending_reboot (meb_ota_update_get_status (ota_after api es))"
proof -
  let ?img = "concat chunks" and ?h = "snd (an_begin an)"
  let ?n = "of_nat (length ?img) :: u32"
  let ?es = "[(an, ReqBegin ?n (Some (hex_text upper (H ?img))))] @ upload an 0 chunks @ [(an, ReqEnd)]"
  have n: "unat ?n = length ?img"
    using assms(8) unat_u32_bound [of "part_size p"] by (simp add: unat_of_nat)
  have ne: "?img \<noteq> []" using assms(6,7) by (cases chunks) auto
  have begin_out: "spec_serve H (an, ReqBegin ?n (Some (hex_text upper (H ?img)))) Idle =
      ((ESP_OK, 0, [OtaBegin p ESP_OK ?h]), Receiving p ?h ?n (H ?img) [])"
    using assms(3-5,8) n ne
    by (auto simp: flash_works_def parse_sha256_hex_text word_less_nat_alt simp flip: unat_eq_zero)
  have "run_outputs (spec_serve H) (upload an 0 chunks) (Receiving p ?h ?n (H ?img) []) =
     (map (\<lambda>c. (ESP_OK, of_nat (length c), [OtaWrite ?h c ESP_OK])) chunks, Receiving p ?h ?n (H ?img) ?img)"
    using spec_upload [of an chunks "[]" ?n H p ?h "H ?img"] assms(3,6) n by (simp add: flash_works_def)
  moreover have "spec_serve H (an, ReqEnd) (Receiving p ?h ?n (H ?img) ?img) =
      ((ESP_OK, 0, [OtaEnd ?h ESP_OK, SetBoot p ESP_OK]), Ready p ?n)"
    using assms(3) n by (simp add: flash_works_def)
  ultimately have spec: "run_outputs (spec_serve H) ?es Idle =
     ([(ESP_OK, 0, [OtaBegin p ESP_OK ?h])]
        @ map (\<lambda>c. (ESP_OK, of_nat (length c), [OtaWrite ?h c ESP_OK])) chunks
        @ [(ESP_OK, 0, [OtaEnd ?h ESP_OK, SetBoot p ESP_OK])], Ready p ?n)"
    by (simp add: begin_out run_outputs_append del: spec_serve.simps)
  have "list_all (\<lambda>e. flash_ok (fst e)) ?es" using assms(2) by (simp add: upload_flash_ok)
  note run = ota_run_sim [OF law this]
  have "os_pending_reboot (meb_ota_update_get_status (ota_after api ?es))"
    unfolding status_rel [OF run(2)] spec by simp
  then show ?thesis unfolding Let_def run(1) spec by simp
qed

theorem upload_completes_witness:
  "os_pending_reboot (meb_ota_update_get_status (ota_after plain_sha
     [(good_flash, ReqBegin 3 (Some (hex_text True (plain_hash [65, 66, 67])))),
      (good_flash, ReqWrite 0 (Some (base64_text [65, 66]))), (good_flash, ReqWrite 2 (Some (base64_text [67]))),
      (good_flash, ReqEnd)]))"
  using upload_completes [OF plain_sha_lawful good_flash_ok, of "\<lparr>part_label = ''ota_1'', part_size = 0x1E0000\<rparr>"
      "[[65, 66], [67]]" True]
  by (simp add: flash_works_def good_flash_def plain_hash_def Let_def del: run_outputs.simps base64_text.simps)

end
