(* ===== verification/Line_Framing.thy ===== *)
theory Line_Framing
  imports Prelude
begin

text \<open>
  How the two transports cut their byte streams into command lines: the loop of
  \<open>uart_command_task\<close> (\<open>main/serial_console.c\<close>) and \<open>feed_rx_bytes\<close> (\<open>main/ble_console.c\<close>).
  Both wait for an opening brace, collect up to 1023 bytes and end a line at CR or LF; they
  differ when a line is too long.
\<close>

section \<open>The two loops\<close>

definition CMD_RX_BUF_SIZE :: nat where "CMD_RX_BUF_SIZE = 1024"
definition BLE_CMD_RX_BUF_SIZE :: nat where "BLE_CMD_RX_BUF_SIZE = 1024"

definition byte_char :: "u8 \<Rightarrow> char" where
  "byte_char b = char_of (unat b)"

definition is_newline :: "u8 \<Rightarrow> bool" where
  "is_newline c \<longleftrightarrow> c = 10 \<or> c = 13"

text \<open>
  One byte of the UART loop: \<open>buf\<close> holds the bytes collected so far, the first component of the
  result the command that is executed (the buffer as a C string).
\<close>

definition uart_feed_byte :: "u8 \<Rightarrow> string \<Rightarrow> string option \<times> string" where
  "uart_feed_byte c cmd_buf =
     (if is_newline c then (if length cmd_buf > 0 then (Some (c_str cmd_buf), []) else (None, cmd_buf))
      else if length cmd_buf = 0 then (if c = 0x7B then (None, cmd_buf @ [byte_char c]) else (None, cmd_buf))
      else if length cmd_buf < CMD_RX_BUF_SIZE - 1 then (None, cmd_buf @ [byte_char c])
      else (Some (c_str cmd_buf), []))"

text \<open>One byte of the BLE loop: what is handed to \<open>queue_line\<close>, whether a line was dropped, and the buffer.\<close>

definition ble_feed_byte :: "u8 \<Rightarrow> string \<Rightarrow> string option \<times> bool \<times> string" where
  "ble_feed_byte c rx_line =
     (if is_newline c then (if length rx_line > 0 then (Some (c_str rx_line), False, []) else (None, False, rx_line))
      else if length rx_line = 0 then (if c = 0x7B then (None, False, rx_line @ [byte_char c]) else (None, False, rx_line))
      else if length rx_line < BLE_CMD_RX_BUF_SIZE - 1 then (None, False, rx_line @ [byte_char c])
      else (None, True, []))"

fun uart_feed :: "u8 list \<Rightarrow> string \<Rightarrow> string list \<times> string" where
  "uart_feed [] buf = ([], buf)"
| "uart_feed (c # cs) buf =
     (let (cmd, buf1) = uart_feed_byte c buf; (cmds, buf2) = uart_feed cs buf1
      in ((case cmd of None \<Rightarrow> cmds | Some l \<Rightarrow> l # cmds), buf2))"

fun ble_feed :: "u8 list \<Rightarrow> string \<Rightarrow> string list \<times> string" where
  "ble_feed [] buf = ([], buf)"
| "ble_feed (c # cs) buf =
     (let (cmd, dropped, buf1) = ble_feed_byte c buf; (cmds, buf2) = ble_feed cs buf1
      in ((case cmd of None \<Rightarrow> cmds | Some l \<Rightarrow> l # cmds), buf2))"

section \<open>The contract of a framer\<close>

text \<open>
  A line is a list of bytes without CR and LF that starts with an opening brace; the framer's
  buffer holds at most \<open>cap\<close> bytes.
\<close>

definition plain :: "u8 list \<Rightarrow> bool" where
  "plain bs \<longleftrightarrow> list_all (\<lambda>c. \<not> is_newline c) bs"

definition text_of :: "u8 list \<Rightarrow> string" where
  "text_of bs = map byte_char bs"

text \<open>
  A byte stream: noise without an opening brace, then a line and the CR or LF that ends it, and so on.
\<close>

fun command_stream :: "(u8 list \<times> u8 list \<times> u8) list \<Rightarrow> u8 list" where
  "command_stream [] = []"
| "command_stream ((noise, bs, c) # lines) = noise @ 0x7B # bs @ c # command_stream lines"

definition good_line :: "u8 list \<times> u8 list \<times> u8 \<Rightarrow> bool" where
  "good_line = (\<lambda>(noise, bs, c).
     0x7B \<notin> set noise \<and> plain bs \<and> length bs < 1023 \<and> is_newline c)"

definition line_text :: "u8 list \<times> u8 list \<times> u8 \<Rightarrow> string" where
  "line_text = (\<lambda>(noise, bs, c). c_str (text_of (0x7B # bs)))"

text \<open>Feeding a stream that arrives in pieces.\<close>

fun feed_chunks :: "(u8 list \<Rightarrow> string \<Rightarrow> string list \<times> string) \<Rightarrow> u8 list list \<Rightarrow> string \<Rightarrow> string list \<times> string" where
  "feed_chunks feed [] buf = ([], buf)"
| "feed_chunks feed (chunk # chunks) buf =
     (let (cmds, buf1) = feed chunk buf; (cmds', buf2) = feed_chunks feed chunks buf1 in (cmds @ cmds', buf2))"

locale line_framer =
  fixes feed :: "u8 list \<Rightarrow> string \<Rightarrow> string list \<times> string"
    and cap :: nat
  assumes cap_pos: "0 < cap"
    and feed_nil: "feed [] buf = ([], buf)"
    and feed_append: "feed (xs @ ys) buf = (let (a, b) = feed xs buf; (c, d) = feed ys b in (a @ c, d))"
    and feed_newline: "is_newline c \<Longrightarrow>
      feed (c # cs) buf = (let (cmds, buf') = feed cs [] in ((if buf = [] then cmds else c_str buf # cmds), buf'))"
    and feed_start: "\<not> is_newline c \<Longrightarrow> feed (c # cs) [] = feed cs (if c = 0x7B then [byte_char c] else [])"
    and feed_more: "\<not> is_newline c \<Longrightarrow> buf \<noteq> [] \<Longrightarrow> length buf < cap \<Longrightarrow> feed (c # cs) buf = feed cs (buf @ [byte_char c])"
begin

lemma collect:
  "plain bs \<Longrightarrow> buf \<noteq> [] \<Longrightarrow> length buf + length bs \<le> cap \<Longrightarrow> feed (bs @ cs) buf = feed cs (buf @ text_of bs)"
  by (induction bs arbitrary: buf) (simp_all add: plain_def text_of_def feed_more)

lemma skip: "0x7B \<notin> set bs \<Longrightarrow> feed (bs @ cs) [] = feed cs []"
proof (induction bs)
  case (Cons c bs)
  then show ?case by (cases "is_newline c") (auto simp: feed_newline feed_start Let_def)
qed simp

lemma line:
  assumes "plain bs" and "Suc (length bs) \<le> cap" and "is_newline c"
  shows "feed (0x7B # bs @ c # cs) [] = (let (cmds, buf) = feed cs [] in (c_str (text_of (0x7B # bs)) # cmds, buf))"
proof -
  have "\<not> is_newline 0x7B" by (simp add: is_newline_def)
  then have "feed (0x7B # bs @ c # cs) [] = feed (c # cs) ([byte_char 0x7B] @ text_of bs)"
    using assms(1,2) by (simp add: feed_start collect)
  then show ?thesis using assms(3) by (simp add: feed_newline text_of_def Let_def split_beta)
qed

text \<open>Every command is delivered, in order, and nothing else, whatever is between them.\<close>

lemma lines: "1023 \<le> cap \<Longrightarrow> list_all good_line ls \<Longrightarrow> feed (command_stream ls) [] = (map line_text ls, [])"
  by (induction ls rule: command_stream.induct)
    (simp_all add: feed_nil skip line good_line_def line_text_def)

lemma chunks: "feed_chunks feed chunks buf = feed (concat chunks) buf"
  by (induction chunks arbitrary: buf) (simp_all add: feed_nil feed_append split_beta Let_def)

lemma chunked_lines:
  "1023 \<le> cap \<Longrightarrow> list_all good_line ls \<Longrightarrow> concat chunks = command_stream ls \<Longrightarrow>
     feed_chunks feed chunks [] = (map line_text ls, [])"
  by (simp add: chunks lines)

end

lemma uart_feed_append: "uart_feed (xs @ ys) buf =
    (let (a, b) = uart_feed xs buf; (c, d) = uart_feed ys b in (a @ c, d))"
  by (induction xs arbitrary: buf) (simp_all add: Let_def split_beta split: option.split)

lemma ble_feed_append: "ble_feed (xs @ ys) buf =
    (let (a, b) = ble_feed xs buf; (c, d) = ble_feed ys b in (a @ c, d))"
  by (induction xs arbitrary: buf) (simp_all add: Let_def split_beta split: option.split)

interpretation uart_lines: line_framer uart_feed "CMD_RX_BUF_SIZE - 1"
  by unfold_locales
    (auto simp: uart_feed_byte_def CMD_RX_BUF_SIZE_def uart_feed_append Let_def split_beta)

interpretation ble_lines: line_framer ble_feed "BLE_CMD_RX_BUF_SIZE - 1"
  by unfold_locales
    (auto simp: ble_feed_byte_def BLE_CMD_RX_BUF_SIZE_def ble_feed_append Let_def split_beta)

section \<open>Properties\<close>

text \<open>
  C25: Both transports deliver the same commands. A byte stream of lines that start with an
  opening brace, hold at most 1023 bytes and end with CR or LF, with any noise without an opening
  brace between them, cut into any chunks, yields on UART and on BLE exactly those lines, in
  order, and leaves the buffer empty.
\<close>

theorem transports_deliver_commands:
  assumes "list_all good_line ls" and "concat chunks = command_stream ls"
  shows "feed_chunks uart_feed chunks [] = (map line_text ls, [])
    \<and> feed_chunks ble_feed chunks [] = (map line_text ls, [])"
  using assms
  by (simp add: uart_lines.chunked_lines ble_lines.chunked_lines CMD_RX_BUF_SIZE_def BLE_CMD_RX_BUF_SIZE_def)

theorem transports_deliver_commands_witness:
  "feed_chunks uart_feed [[0x20, 0x7B], [0x31, 0x7D, 10, 13], [0x7B, 0x7D, 13]] [] = ([''{1}'', ''{}''], [])"
proof -
  let ?ls = "[([0x20], [0x31, 0x7D], 10), ([13], [0x7D], 13)]"
  have "list_all good_line ?ls" by (simp add: good_line_def plain_def is_newline_def)
  moreover have "map line_text ?ls = [''{1}'', ''{}'']" by code_simp
  ultimately show ?thesis
    using transports_deliver_commands [of ?ls "[[0x20, 0x7B], [0x31, 0x7D, 10, 13], [0x7B, 0x7D, 13]]"]
    by (simp del: uart_feed.simps ble_feed.simps feed_chunks.simps)
qed

text \<open>What a framer's buffer can hold: nothing, or at most 1023 bytes that start with an opening brace.\<close>

definition buffer_ok :: "string \<Rightarrow> bool" where
  "buffer_ok buf \<longleftrightarrow> buf = [] \<or> (hd buf = CHR ''{'' \<and> length buf \<le> 1023)"

definition command_ok :: "string \<Rightarrow> bool" where
  "command_ok cmd \<longleftrightarrow> cmd \<noteq> [] \<and> hd cmd = CHR ''{'' \<and> length cmd \<le> 1023 \<and> NUL \<notin> set cmd"

lemma buffer_command: "buffer_ok buf \<Longrightarrow> buf \<noteq> [] \<Longrightarrow> command_ok (c_str buf)"
  using c_str_length [of buf]
  by (cases buf) (auto simp: buffer_ok_def command_ok_def c_str_def NUL_def dest: set_takeWhileD)

lemma byte_char_brace: "byte_char 0x7B = CHR ''{''"
  by code_simp

lemma feed_byte_ok:
  assumes "buffer_ok buf"
  shows "pred_option command_ok (fst (uart_feed_byte c buf)) \<and> buffer_ok (snd (uart_feed_byte c buf))
    \<and> pred_option command_ok (fst (ble_feed_byte c buf)) \<and> buffer_ok (snd (snd (ble_feed_byte c buf)))"
  using assms buffer_command [OF assms]
  by (auto simp: uart_feed_byte_def ble_feed_byte_def CMD_RX_BUF_SIZE_def BLE_CMD_RX_BUF_SIZE_def
      buffer_ok_def byte_char_brace)

lemma feed_ok:
  "buffer_ok buf \<Longrightarrow> list_all command_ok (fst (uart_feed cs buf)) \<and> buffer_ok (snd (uart_feed cs buf))
    \<and> list_all command_ok (fst (ble_feed cs buf)) \<and> buffer_ok (snd (ble_feed cs buf))"
proof (induction cs arbitrary: buf)
  case (Cons c cs)
  note step = feed_byte_ok [OF Cons.prems, of c]
  show ?case
    using step Cons.IH [of "snd (uart_feed_byte c buf)"] Cons.IH [of "snd (snd (ble_feed_byte c buf))"]
    by (auto simp: Let_def split_beta split: option.split)
qed simp

text \<open>
  No byte stream overruns the 1024 byte buffers: on both transports the buffer never holds
  more than 1023 bytes before its terminator, and every command handed on is a string of 1 to 1023
  characters that starts with an opening brace and has no NUL.
\<close>

theorem framing_bounded:
  "list_all command_ok (fst (uart_feed cs [])) \<and> length (snd (uart_feed cs [])) \<le> 1023
   \<and> list_all command_ok (fst (ble_feed cs [])) \<and> length (snd (ble_feed cs [])) \<le> 1023"
  using feed_ok [of "[]" cs] by (auto simp: buffer_ok_def)

text \<open>
  On an overlong line the transports differ. After an opening brace and 1023 further bytes
  without a line end, the UART has executed the first 1023 bytes as a command and the BLE side has
  dropped them without one; both then look for the next opening brace.
\<close>

theorem overlong_lines_differ:
  assumes "plain bs" and "length bs = 1022" and "\<not> is_newline c"
  shows "uart_feed (0x7B # bs @ [c]) [] = ([line_text ([], bs, c)], [])
    \<and> ble_feed (0x7B # bs @ [c]) [] = ([], [])"
proof -
  have start: "\<not> is_newline 0x7B" by (simp add: is_newline_def)
  have u: "uart_feed (0x7B # bs @ [c]) [] = uart_feed [c] (text_of (0x7B # bs))"
    using uart_lines.collect [OF assms(1), of "[byte_char 0x7B]" "[c]"] assms(2)
    by (simp add: uart_lines.feed_start [OF start] CMD_RX_BUF_SIZE_def text_of_def del: uart_feed.simps)
  have b: "ble_feed (0x7B # bs @ [c]) [] = ble_feed [c] (text_of (0x7B # bs))"
    using ble_lines.collect [OF assms(1), of "[byte_char 0x7B]" "[c]"] assms(2)
    by (simp add: ble_lines.feed_start [OF start] BLE_CMD_RX_BUF_SIZE_def text_of_def del: ble_feed.simps)
  show ?thesis unfolding u b using assms(2,3)
    by (simp add: uart_feed_byte_def ble_feed_byte_def CMD_RX_BUF_SIZE_def BLE_CMD_RX_BUF_SIZE_def text_of_def line_text_def)
qed

theorem overlong_lines_differ_witness:
  "ble_feed (0x7B # replicate 1022 0x20 @ [0x7D]) [] = ([], [])"
  using overlong_lines_differ [of "replicate 1022 0x20" "0x7D"] by (simp add: plain_def is_newline_def list_all_iff)

end
