(* ===== verification/Ble_Console.thy ===== *)
theory Ble_Console
  imports Line_Framing Diagnostics Text_Codecs
begin

text \<open>
  \<open>main/ble_console.c\<close> with NimBLE enabled: the table of connected peers, the GATT and GAP
  callbacks, advertising, the queueing of received lines and the notifications that carry the
  output. NimBLE and FreeRTOS are third-party; their answers are arguments and the calls made of
  them are results. The number of peers (\<open>CONFIG_BT_NIMBLE_MAX_CONNECTIONS\<close>) is the length of the
  table.
\<close>

section \<open>Data\<close>

record ble_peer =
  bp_in_use :: bool
  bp_notify_enabled :: bool
  bp_conn_handle :: u16

record ble_state =
  s_command_queue :: bool
  s_notify_lock :: bool
  s_peers :: "ble_peer list"
  s_rx_line :: string
  s_ble_started :: bool
  s_rx_val_handle :: u16
  s_tx_val_handle :: u16
  s_own_addr_type :: u8

definition zero_peer :: ble_peer where
  "zero_peer = \<lparr>bp_in_use = False, bp_notify_enabled = False, bp_conn_handle = 0\<rparr>"

definition ble_boot_state :: "nat \<Rightarrow> ble_state" where
  "ble_boot_state max_connections = \<lparr>s_command_queue = False, s_notify_lock = False,
     s_peers = replicate max_connections zero_peer, s_rx_line = '''', s_ble_started = False,
     s_rx_val_handle = 0, s_tx_val_handle = 0, s_own_addr_type = 0\<rparr>"

section \<open>Peers\<close>

text \<open>A peer is named by its index in the table.\<close>

fun find_first :: "('a \<Rightarrow> bool) \<Rightarrow> 'a list \<Rightarrow> nat option" where
  "find_first P [] = None"
| "find_first P (x # xs) = (if P x then Some 0 else map_option Suc (find_first P xs))"

definition find_peer :: "u16 \<Rightarrow> ble_peer list \<Rightarrow> nat option" where
  "find_peer conn_handle peers = find_first (\<lambda>p. bp_in_use p \<and> bp_conn_handle p = conn_handle) peers"

definition alloc_peer :: "u16 \<Rightarrow> ble_peer list \<Rightarrow> nat option \<times> ble_peer list" where
  "alloc_peer conn_handle peers =
     (case find_peer conn_handle peers of
        Some i \<Rightarrow> (Some i, peers)
      | None \<Rightarrow>
        (case find_first (\<lambda>p. \<not> bp_in_use p) peers of
           Some i \<Rightarrow> (Some i, peers[i := \<lparr>bp_in_use = True, bp_notify_enabled = False, bp_conn_handle = conn_handle\<rparr>])
         | None \<Rightarrow> (None, peers)))"

definition remove_peer :: "u16 \<Rightarrow> ble_peer list \<Rightarrow> ble_peer list" where
  "remove_peer conn_handle peers =
     (case find_peer conn_handle peers of Some i \<Rightarrow> peers[i := zero_peer] | None \<Rightarrow> peers)"

section \<open>Received bytes\<close>

text \<open>
  \<open>sent\<close> is the answer of \<open>xQueueSend\<close>. The first component of the result is the command that
  enters the queue.
\<close>

definition queue_line :: "reading \<Rightarrow> bool \<Rightarrow> string \<Rightarrow> ble_state \<times> diag_state \<Rightarrow> string option \<times> ble_state \<times> diag_state" where
  "queue_line r sent line = (\<lambda>(st, d).
     (if \<not> s_command_queue st \<or> line = '''' then (None, st, d)
      else let cmd = snprintf BLE_CMD_RX_BUF_SIZE line in
      if \<not> sent then (None, st, meb_diag_record_event r (Some ''ble'') (Some ''cmd_queue_full'') (Some '''') d)
      else (Some cmd, st, d)))"

text \<open>Each byte comes with the answer of \<open>xQueueSend\<close> in case it completes a line.\<close>

fun feed_rx_bytes :: "reading \<Rightarrow> (u8 \<times> bool) list \<Rightarrow> ble_state \<times> diag_state \<Rightarrow> string list \<times> ble_state \<times> diag_state" where
  "feed_rx_bytes r [] s = ([], s)"
| "feed_rx_bytes r ((c, sent) # rest) (st, d) =
     (let (line, dropped, buf) = ble_feed_byte c (s_rx_line st);
          (queued, st1, d1) = (case line of
             Some l \<Rightarrow> queue_line r sent l (st, d)
           | None \<Rightarrow> (None, st, if dropped
               then meb_diag_record_event r (Some ''ble'') (Some ''cmd_overlong'') (Some '''') d else d));
          (cmds, s2) = feed_rx_bytes r rest (st1\<lparr>s_rx_line := buf\<rparr>, d1)
      in ((case queued of Some cmd \<Rightarrow> cmd # cmds | None \<Rightarrow> cmds), s2))"

definition BLE_ATT_ERR_UNLIKELY :: int where "BLE_ATT_ERR_UNLIKELY = 0x0E"
definition BLE_ATT_ERR_INVALID_ATTR_VALUE_LEN :: int where "BLE_ATT_ERR_INVALID_ATTR_VALUE_LEN = 0x0D"
definition BLE_ATT_ERR_INSUFFICIENT_RES :: int where "BLE_ATT_ERR_INSUFFICIENT_RES = 0x11"

text \<open>
  A write carries the length of its packet and, when \<open>ble_hs_mbuf_to_flat\<close> succeeds, the bytes;
  a read carries the answer of \<open>os_mbuf_append\<close>.
\<close>

datatype gatt_access =
    GattWrite u16 "(u8 \<times> bool) list option"
  | GattRead bool
  | GattOther

text \<open>The result: the ATT code, the text appended to a read, the queued commands and the state.\<close>

definition gatt_access_cb ::
    "reading \<Rightarrow> u16 \<Rightarrow> gatt_access \<Rightarrow> ble_state \<times> diag_state \<Rightarrow>
     int \<times> string option \<times> string list \<times> ble_state \<times> diag_state" where
  "gatt_access_cb r attr_handle acc = (\<lambda>(st, d).
     (case acc of
        GattWrite len flat \<Rightarrow>
          if attr_handle \<noteq> s_rx_val_handle st then (BLE_ATT_ERR_UNLIKELY, None, [], st, d)
          else if len = 0 \<or> len > of_nat BLE_CMD_RX_BUF_SIZE
            then (BLE_ATT_ERR_INVALID_ATTR_VALUE_LEN, None, [], st, d)
          else (case flat of
            None \<Rightarrow> (BLE_ATT_ERR_UNLIKELY, None, [], st, d)
          | Some buf \<Rightarrow> (let (cmds, s1) = feed_rx_bytes r buf (st, d) in (0, None, cmds, s1)))
      | GattRead appended \<Rightarrow>
          if attr_handle = s_tx_val_handle st
          then (if appended then 0 else BLE_ATT_ERR_INSUFFICIENT_RES,
                Some (''MEB JSON-RPC TX notifications'' @ [CHR 0x0A]), [], st, d)
          else (BLE_ATT_ERR_UNLIKELY, None, [], st, d)
      | GattOther \<Rightarrow> (BLE_ATT_ERR_UNLIKELY, None, [], st, d)))"

section \<open>Advertising and GAP events\<close>

datatype adv_call = AdvSetFields | AdvRspSetFields | AdvStart u8

text \<open>\<open>rcs\<close> are the return codes of the three calls.\<close>

definition advertise :: "int \<times> int \<times> int \<Rightarrow> ble_state \<Rightarrow> adv_call list" where
  "advertise rcs st =
     (let (rc1, rc2, rc3) = rcs in
      if rc1 \<noteq> 0 then [AdvSetFields]
      else if rc2 \<noteq> 0 then [AdvSetFields, AdvRspSetFields]
      else [AdvSetFields, AdvRspSetFields, AdvStart (s_own_addr_type st)])"

datatype ble_gap_event =
    GapConnect int u16
  | GapDisconnect int u16
  | GapAdvComplete
  | GapSubscribe u16 u16 bool
  | GapMtu u16 u16
  | GapOther

definition gap_event_cb ::
    "reading \<Rightarrow> int \<times> int \<times> int \<Rightarrow> ble_gap_event \<Rightarrow> ble_state \<times> diag_state \<Rightarrow> adv_call list \<times> ble_state \<times> diag_state" where
  "gap_event_cb r rcs ev = (\<lambda>(st, d).
     (let event = (\<lambda>name detail. meb_diag_record_eventf r ''ble'' name (Some detail) d) in
      case ev of
        GapConnect status conn_handle \<Rightarrow>
          if status = 0
          then ([], st\<lparr>s_peers := snd (alloc_peer conn_handle (s_peers st))\<rparr>,
                event ''connected'' (''handle='' @ print_dec (unat conn_handle)))
          else (advertise rcs st, st, event ''connect_failed'' (''status='' @ print_int status))
      | GapDisconnect reason conn_handle \<Rightarrow>
          (advertise rcs st, st\<lparr>s_peers := remove_peer conn_handle (s_peers st)\<rparr>,
           event ''disconnected'' (''reason='' @ print_int reason))
      | GapAdvComplete \<Rightarrow> (advertise rcs st, st, d)
      | GapSubscribe attr_handle conn_handle cur_notify \<Rightarrow>
          if attr_handle = s_tx_val_handle st
          then (let (peer, peers) = alloc_peer conn_handle (s_peers st);
                    peers1 = (case peer of Some i \<Rightarrow> peers[i := (peers ! i)\<lparr>bp_notify_enabled := cur_notify\<rparr>] | None \<Rightarrow> peers)
                in ([], st\<lparr>s_peers := peers1\<rparr>,
                    event ''notify'' ((if cur_notify then ''on'' else ''off'') @ '' handle='' @ print_dec (unat conn_handle))))
          else ([], st, d)
      | GapMtu conn_handle mtu \<Rightarrow>
          ([], st, event ''mtu'' (''handle='' @ print_dec (unat conn_handle) @ '' mtu='' @ print_dec (unat mtu)))
      | GapOther \<Rightarrow> ([], st, d)))"

definition MEB_BLE_DEVICE_NAME :: string where "MEB_BLE_DEVICE_NAME = ''MEB-Preheat''"

definition on_reset :: "reading \<Rightarrow> int \<Rightarrow> diag_state \<Rightarrow> diag_state" where
  "on_reset r reason d = meb_diag_record_eventf r ''ble'' ''host_reset'' (Some (''reason='' @ print_int reason)) d"

text \<open>\<open>addr_rc\<close> and \<open>infer\<close> are the answers of the two address functions.\<close>

definition on_sync ::
    "reading \<Rightarrow> int \<Rightarrow> int \<times> u8 \<Rightarrow> int \<times> int \<times> int \<Rightarrow> ble_state \<times> diag_state \<Rightarrow> adv_call list \<times> ble_state \<times> diag_state" where
  "on_sync r addr_rc infer rcs = (\<lambda>(st, d).
     (if addr_rc \<noteq> 0 then ([], st, d)
      else let st1 = st\<lparr>s_own_addr_type := snd infer\<rparr> in
      if fst infer \<noteq> 0 then ([], st1, d)
      else let st2 = st1\<lparr>s_ble_started := True\<rparr> in
        (advertise rcs st2, st2, meb_diag_record_event r (Some ''ble'') (Some ''advertising'') (Some MEB_BLE_DEVICE_NAME) d)))"

text \<open>Neither touches the line that is being received, nor the queue.\<close>

lemma gap_line:
  "s_rx_line (fst (snd (gap_event_cb r rcs ev s))) = s_rx_line (fst s)"
  "s_command_queue (fst (snd (gap_event_cb r rcs ev s))) = s_command_queue (fst s)"
  by (cases s; cases ev; simp add: gap_event_cb_def Let_def split_beta)+

lemma sync_line: "s_rx_line (fst (snd (on_sync r addr infer rcs s))) = s_rx_line (fst s)"
  by (cases s) (simp add: on_sync_def Let_def)

section \<open>Notifications\<close>

definition BLE_NOTIFY_MIN_CHUNK_SIZE :: nat where "BLE_NOTIFY_MIN_CHUNK_SIZE = 20"

definition max_chunk :: "u16 \<Rightarrow> nat" where
  "max_chunk mtu =
     (let n = (if mtu > 3 then unat (mtu - 3) else BLE_NOTIFY_MIN_CHUNK_SIZE)
      in if n < BLE_NOTIFY_MIN_CHUNK_SIZE then BLE_NOTIFY_MIN_CHUNK_SIZE else n)"

lemma max_chunk_pos: "0 < max_chunk mtu"
  by (simp add: max_chunk_def BLE_NOTIFY_MIN_CHUNK_SIZE_def Let_def)

text \<open>What NimBLE answers for one chunk: the MTU, whether a buffer was allocated, the notify code.\<close>

record notify_answer =
  na_mtu :: u16
  na_allocated :: bool
  na_rc :: int

text \<open>
  The loop over the rest of the data for one peer; \<open>ans k\<close> answers chunk \<open>k\<close>. The result is the
  chunks handed to NimBLE with their codes, and the log.
\<close>

function notify_chunks ::
    "reading \<Rightarrow> u16 \<Rightarrow> (nat \<Rightarrow> notify_answer) \<Rightarrow> nat \<Rightarrow> string \<Rightarrow> diag_state \<Rightarrow> (string \<times> int) list \<times> diag_state" where
  "notify_chunks r conn_handle ans k rest d =
     (if rest = [] then ([], d)
      else let a = ans k; chunk = take (max_chunk (na_mtu a)) rest in
      if \<not> na_allocated a
      then ([], meb_diag_record_event r (Some ''ble'') (Some ''notify_oom'') (Some '''') d)
      else if na_rc a \<noteq> 0
      then ([(chunk, na_rc a)], meb_diag_record_eventf r ''ble'' ''notify_failed''
              (Some (''handle='' @ print_dec (unat conn_handle) @ '' rc='' @ print_int (na_rc a))) d)
      else let (chunks, d1) = notify_chunks r conn_handle ans (Suc k) (drop (max_chunk (na_mtu a)) rest) d
           in ((chunk, na_rc a) # chunks, d1))"
  by pat_completeness auto
termination
  by (relation "measure (\<lambda>(r, h, ans, k, rest, d). length rest)") (use max_chunk_pos in \<open>auto intro: diff_less\<close>)

declare notify_chunks.simps [simp del]

fun notify_peers ::
    "reading \<Rightarrow> (u16 \<Rightarrow> nat \<Rightarrow> notify_answer) \<Rightarrow> string \<Rightarrow> ble_peer list \<Rightarrow> diag_state \<Rightarrow> (u16 \<times> (string \<times> int) list) list \<times> diag_state" where
  "notify_peers r ans data [] d = ([], d)"
| "notify_peers r ans data (p # ps) d =
     (if \<not> bp_in_use p \<or> \<not> bp_notify_enabled p then notify_peers r ans data ps d
      else let (chunks, d1) = notify_chunks r (bp_conn_handle p) (ans (bp_conn_handle p)) 0 data d;
               (sent, d2) = notify_peers r ans data ps d1
           in ((bp_conn_handle p, chunks) # sent, d2))"

definition meb_ble_console_write ::
    "reading \<Rightarrow> (u16 \<Rightarrow> nat \<Rightarrow> notify_answer) \<Rightarrow> string \<Rightarrow> ble_state \<times> diag_state \<Rightarrow>
     (u16 \<times> (string \<times> int) list) list \<times> diag_state" where
  "meb_ble_console_write r ans data = (\<lambda>(st, d).
     (if \<not> s_ble_started st \<or> length data = 0 \<or> \<not> s_notify_lock st \<or> s_tx_val_handle st = 0 then ([], d)
      else notify_peers r ans data (s_peers st) d))"

section \<open>Set-up\<close>

datatype ble_init_call =
    CreateCommandQueue | CreateNotifyLock | SettingsInit | NimblePortInit | GapInit | GattInit
  | GattsCountCfg | GattsAddSvcs | GapNameSet string | StoreConfigInit | CreateCommandTask | StartHostTask

text \<open>
  \<open>answer\<close> gives the code of each call; the codes the module maps to its own are given with the
  call. A call that cannot fail maps every answer to \<open>ESP_OK\<close>.
\<close>

definition ble_init_plan :: "(ble_init_call \<times> (esp_err \<Rightarrow> esp_err)) list" where
  "ble_init_plan =
     [(CreateCommandQueue, \<lambda>e. if e = ESP_OK then ESP_OK else ESP_ERR_NO_MEM),
      (CreateNotifyLock, \<lambda>e. if e = ESP_OK then ESP_OK else ESP_ERR_NO_MEM),
      (SettingsInit, \<lambda>e. e), (NimblePortInit, \<lambda>e. e),
      (GapInit, \<lambda>e. ESP_OK), (GattInit, \<lambda>e. ESP_OK),
      (GattsCountCfg, \<lambda>e. if e = ESP_OK then ESP_OK else ESP_FAIL),
      (GattsAddSvcs, \<lambda>e. if e = ESP_OK then ESP_OK else ESP_FAIL),
      (GapNameSet MEB_BLE_DEVICE_NAME, \<lambda>e. if e = ESP_OK then ESP_OK else ESP_FAIL),
      (StoreConfigInit, \<lambda>e. ESP_OK),
      (CreateCommandTask, \<lambda>e. if e = ESP_OK then ESP_OK else ESP_ERR_NO_MEM),
      (StartHostTask, \<lambda>e. ESP_OK)]"

fun run_init :: "(ble_init_call \<Rightarrow> esp_err) \<Rightarrow> (ble_init_call \<times> (esp_err \<Rightarrow> esp_err)) list \<Rightarrow> esp_err \<times> ble_init_call list" where
  "run_init answer [] = (ESP_OK, [])"
| "run_init answer ((c, f) # cs) =
     (if f (answer c) \<noteq> ESP_OK then (f (answer c), [c])
      else let (err, made) = run_init answer cs in (err, c # made))"

definition meb_ble_console_init :: "(ble_init_call \<Rightarrow> esp_err) \<Rightarrow> ble_state \<Rightarrow> esp_err \<times> ble_init_call list \<times> ble_state" where
  "meb_ble_console_init answer st =
     (let (err, calls) = run_init answer ble_init_plan
      in (err, calls,
          st\<lparr>s_command_queue := (answer CreateCommandQueue = ESP_OK),
             s_notify_lock := (if CreateNotifyLock \<in> set calls then answer CreateNotifyLock = ESP_OK else s_notify_lock st)\<rparr>))"

text \<open>
  The UUIDs, as NimBLE wants them (lowest byte first), and as the strings the console reports.
\<close>

definition s_service_uuid :: "u8 list" where
  "s_service_uuid = [0x00, 0x0e, 0xd9, 0x7f, 0x0b, 0x9c, 0xf3, 0x9a, 0x1f, 0x4a, 0xaa, 0xf8, 0x00, 0xc0, 0x57, 0x7e]"

definition s_rx_uuid :: "u8 list" where
  "s_rx_uuid = [0x00, 0x0e, 0xd9, 0x7f, 0x0b, 0x9c, 0xf3, 0x9a, 0x1f, 0x4a, 0xaa, 0xf8, 0x01, 0xc0, 0x57, 0x7e]"

definition s_tx_uuid :: "u8 list" where
  "s_tx_uuid = [0x00, 0x0e, 0xd9, 0x7f, 0x0b, 0x9c, 0xf3, 0x9a, 0x1f, 0x4a, 0xaa, 0xf8, 0x02, 0xc0, 0x57, 0x7e]"

definition MEB_BLE_SERVICE_UUID :: string where "MEB_BLE_SERVICE_UUID = ''7e57c000-f8aa-4a1f-9af3-9c0b7fd90e00''"
definition MEB_BLE_RX_UUID :: string where "MEB_BLE_RX_UUID = ''7e57c001-f8aa-4a1f-9af3-9c0b7fd90e00''"
definition MEB_BLE_TX_UUID :: string where "MEB_BLE_TX_UUID = ''7e57c002-f8aa-4a1f-9af3-9c0b7fd90e00''"

section \<open>The peer table is a map\<close>

text \<open>The connected handles, with whether each has notifications enabled.\<close>

definition peer_map :: "ble_peer list \<Rightarrow> u16 \<Rightarrow> bool option" where
  "peer_map peers h = map_option (\<lambda>i. bp_notify_enabled (peers ! i)) (find_peer h peers)"

definition used :: "ble_peer list \<Rightarrow> nat set" where
  "used peers = {i. i < length peers \<and> bp_in_use (peers ! i)}"

definition peers_ok :: "ble_peer list \<Rightarrow> bool" where
  "peers_ok peers \<longleftrightarrow> inj_on (\<lambda>i. bp_conn_handle (peers ! i)) (used peers)"

lemma find_first_Some: "find_first P xs = Some i \<Longrightarrow> i < length xs \<and> P (xs ! i)"
  by (induction xs arbitrary: i) (auto split: if_splits)

lemma find_first_None: "find_first P xs = None \<longleftrightarrow> (\<forall>i < length xs. \<not> P (xs ! i))"
  by (induction xs) (auto simp: nth_Cons split: nat.splits)

lemma find_peer_Some: "find_peer h peers = Some i \<Longrightarrow> i \<in> used peers \<and> bp_conn_handle (peers ! i) = h"
  unfolding find_peer_def used_def by (drule find_first_Some) auto

lemma find_peer_None: "find_peer h peers = None \<longleftrightarrow> (\<forall>i \<in> used peers. bp_conn_handle (peers ! i) \<noteq> h)"
  by (auto simp: find_peer_def used_def find_first_None)

lemma find_peer_unique:
  "peers_ok peers \<Longrightarrow> i \<in> used peers \<Longrightarrow> bp_conn_handle (peers ! i) = h \<Longrightarrow> find_peer h peers = Some i"
  by (cases "find_peer h peers") (auto simp: find_peer_None peers_ok_def dest!: find_peer_Some dest: inj_onD)

lemma peer_map_eq:
  assumes "peers_ok peers"
  shows "peer_map peers h = Some b \<longleftrightarrow> (\<exists>i \<in> used peers. bp_conn_handle (peers ! i) = h \<and> bp_notify_enabled (peers ! i) = b)"
proof
  assume "peer_map peers h = Some b"
  then obtain i where "find_peer h peers = Some i" "bp_notify_enabled (peers ! i) = b"
    by (auto simp: peer_map_def)
  then show "\<exists>i \<in> used peers. bp_conn_handle (peers ! i) = h \<and> bp_notify_enabled (peers ! i) = b"
    using find_peer_Some by blast
next
  assume "\<exists>i \<in> used peers. bp_conn_handle (peers ! i) = h \<and> bp_notify_enabled (peers ! i) = b"
  then show "peer_map peers h = Some b"
    using find_peer_unique [OF assms] by (auto simp: peer_map_def)
qed

lemma peer_map_full:
  assumes "peers_ok peers"
  shows "(find_first (\<lambda>p. \<not> bp_in_use p) peers \<noteq> None) = (card (dom (peer_map peers)) < length peers)"
proof -
  have "dom (peer_map peers) = (\<lambda>i. bp_conn_handle (peers ! i)) ` used peers"
    unfolding dom_def not_None_eq peer_map_eq [OF assms] by auto
  then have card: "card (dom (peer_map peers)) = card (used peers)"
    using assms by (simp add: card_image peers_ok_def)
  have sub: "used peers \<subseteq> {..<length peers}" by (auto simp: used_def)
  then have le: "card (used peers) \<le> length peers" using card_mono [of "{..<length peers}" "used peers"] by simp
  have "(find_first (\<lambda>p. \<not> bp_in_use p) peers = None) = (used peers = {..<length peers})"
    by (auto simp: find_first_None used_def)
  also have "\<dots> = (card (used peers) = length peers)"
    using card_subset_eq [of "{..<length peers}" "used peers"] sub by auto
  finally show ?thesis using card le by auto
qed

lemma update_used:
  "i < length peers \<Longrightarrow> used (peers[i := p]) = (if bp_in_use p then insert i (used peers) else used peers - {i})"
  by (auto simp: used_def nth_list_update split: if_splits)

lemma map_eqI: "(\<And>x b. (m x = Some b) = (n x = Some b)) \<Longrightarrow> m = n"
proof (rule ext)
  fix x assume "\<And>x b. (m x = Some b) = (n x = Some b)"
  then show "m x = n x" by (metis not_Some_eq)
qed

lemma update_entry:
  assumes "i < length peers"
  shows "(\<exists>j \<in> used (peers[i := p]). Q (peers[i := p] ! j)) \<longleftrightarrow>
     (bp_in_use p \<and> Q p) \<or> (\<exists>j \<in> used peers - {i}. Q (peers ! j))"
proof -
  have "(\<exists>j \<in> A - {i}. Q (peers[i := p] ! j)) = (\<exists>j \<in> A - {i}. Q (peers ! j))" for A
    by (rule bex_cong) simp_all
  moreover have "used (peers[i := p]) = (if bp_in_use p then insert i (used peers - {i}) else used peers - {i})"
    using assms by (auto simp: update_used)
  ultimately show ?thesis using assms by (simp del: insert_Diff_single)
qed

text \<open>A table entry is written: a new peer, a changed peer or a removed peer.\<close>

lemma peers_set:
  assumes ok: "peers_ok peers" and i: "i < length peers" and p: "bp_in_use p"
    and h: "\<forall>j \<in> used peers. j \<noteq> i \<longrightarrow> bp_conn_handle (peers ! j) \<noteq> bp_conn_handle p"
    and i_free: "i \<in> used peers \<longrightarrow> bp_conn_handle (peers ! i) = bp_conn_handle p"
  shows "peers_ok (peers[i := p]) \<and> peer_map (peers[i := p]) = (peer_map peers)(bp_conn_handle p \<mapsto> bp_notify_enabled p)"
proof
  let ?new = "peers[i := p]"
  have u: "used ?new = insert i (used peers)" using i p by (simp add: update_used)
  show ok': "peers_ok ?new" unfolding peers_ok_def u
  proof (rule inj_onI)
    fix x y
    assume x: "x \<in> insert i (used peers)" and y: "y \<in> insert i (used peers)"
      and e: "bp_conn_handle (?new ! x) = bp_conn_handle (?new ! y)"
    show "x = y"
    proof (cases "x = i \<or> y = i")
      case True
      then show ?thesis using x y e h i by (auto simp: nth_list_update split: if_splits)
    next
      case False
      then show ?thesis using x y e ok by (auto simp: peers_ok_def dest: inj_onD)
    qed
  qed
  show "peer_map ?new = (peer_map peers)(bp_conn_handle p \<mapsto> bp_notify_enabled p)"
  proof (rule map_eqI)
    fix x b
    show "(peer_map ?new x = Some b) = (((peer_map peers)(bp_conn_handle p \<mapsto> bp_notify_enabled p)) x = Some b)"
      using update_entry [OF i, where p = p and Q = "\<lambda>q. bp_conn_handle q = x \<and> bp_notify_enabled q = b"] h i_free p
      by (cases "x = bp_conn_handle p") (auto simp: peer_map_eq [OF ok] peer_map_eq [OF ok'])
  qed
qed

lemma peers_clear:
  assumes ok: "peers_ok peers" and i: "find_peer h peers = Some i"
  shows "peers_ok (peers[i := zero_peer]) \<and> peer_map (peers[i := zero_peer]) = (peer_map peers)(h := None)"
proof
  let ?new = "peers[i := zero_peer]"
  have i': "i \<in> used peers" "bp_conn_handle (peers ! i) = h" using find_peer_Some [OF i] by simp_all
  then have "i < length peers" by (simp add: used_def)
  then have u: "used ?new = used peers - {i}" by (simp add: update_used zero_peer_def)
  have "inj_on (\<lambda>j. bp_conn_handle (peers ! j)) (used peers - {i})"
    using ok unfolding peers_ok_def by (rule inj_on_subset) auto
  moreover have "inj_on (\<lambda>j. bp_conn_handle (peers ! j)) (used peers - {i}) =
      inj_on (\<lambda>j. bp_conn_handle (?new ! j)) (used peers - {i})"
    by (rule inj_on_cong) simp
  ultimately show ok': "peers_ok ?new" unfolding peers_ok_def u by simp
  show "peer_map ?new = (peer_map peers)(h := None)"
  proof (rule map_eqI)
    fix x b
    have only: "\<forall>j \<in> used peers - {i}. bp_conn_handle (peers ! j) \<noteq> h"
      using ok i' unfolding peers_ok_def inj_on_def by blast
    have "\<not> bp_in_use zero_peer" by (simp add: zero_peer_def)
    then have new: "(peer_map ?new x = Some b) =
        (\<exists>j \<in> used peers - {i}. bp_conn_handle (peers ! j) = x \<and> bp_notify_enabled (peers ! j) = b)"
      using update_entry [OF \<open>i < length peers\<close>, where p = zero_peer and Q = "\<lambda>q. bp_conn_handle q = x \<and> bp_notify_enabled q = b"]
      unfolding peer_map_eq [OF ok'] by blast
    show "(peer_map ?new x = Some b) = (((peer_map peers)(h := None)) x = Some b)"
    proof (cases "x = h")
      case True
      then show ?thesis using new only by auto
    next
      case False
      then have "(((peer_map peers)(h := None)) x = Some b) = (peer_map peers x = Some b)" by simp
      moreover have "(\<exists>j \<in> used peers - {i}. bp_conn_handle (peers ! j) = x \<and> bp_notify_enabled (peers ! j) = b) =
          (\<exists>j \<in> used peers. bp_conn_handle (peers ! j) = x \<and> bp_notify_enabled (peers ! j) = b)"
        using i' False by blast
      ultimately show ?thesis unfolding new peer_map_eq [OF ok] by simp
    qed
  qed
qed

lemma alloc_peer_room:
  assumes ok: "peers_ok peers" and room: "h \<in> dom (peer_map peers) \<or> card (dom (peer_map peers)) < length peers"
  obtains i peers' where "alloc_peer h peers = (Some i, peers')" "peers_ok peers'" "length peers' = length peers"
    "i \<in> used peers'" "bp_conn_handle (peers' ! i) = h"
    "peer_map peers' = (peer_map peers)(h \<mapsto> (case peer_map peers h of Some b \<Rightarrow> b | None \<Rightarrow> False))"
proof (cases "find_peer h peers")
  case (Some i)
  then have "peer_map peers h = Some (bp_notify_enabled (peers ! i))" by (simp add: peer_map_def)
  moreover have "alloc_peer h peers = (Some i, peers)" using Some by (simp add: alloc_peer_def)
  ultimately show ?thesis using that [of i peers] ok find_peer_Some [OF Some] by (simp add: fun_upd_idem)
next
  case None
  then have absent: "peer_map peers h = None" by (simp add: peer_map_def)
  then have "find_first (\<lambda>p. \<not> bp_in_use p) peers \<noteq> None"
    using room peer_map_full [OF ok] by (simp add: domIff)
  then obtain i where i: "find_first (\<lambda>p. \<not> bp_in_use p) peers = Some i" by auto
  let ?p = "\<lparr>bp_in_use = True, bp_notify_enabled = False, bp_conn_handle = h\<rparr>"
  have free: "i < length peers" "i \<notin> used peers"
    using find_first_Some [OF i] by (simp_all add: used_def)
  have "peers_ok (peers[i := ?p]) \<and> peer_map (peers[i := ?p]) = (peer_map peers)(bp_conn_handle ?p \<mapsto> bp_notify_enabled ?p)"
    by (rule peers_set [OF ok free(1)]) (use None free in \<open>auto simp: find_peer_None\<close>)
  moreover have "alloc_peer h peers = (Some i, peers[i := ?p])" using None i by (simp add: alloc_peer_def)
  moreover have "i \<in> used (peers[i := ?p])" using free by (simp add: used_def)
  ultimately show ?thesis using that [of i "peers[i := ?p]"] absent free by simp
qed

lemma alloc_peer_full:
  assumes ok: "peers_ok peers" and full: "\<not> (h \<in> dom (peer_map peers) \<or> card (dom (peer_map peers)) < length peers)"
  shows "alloc_peer h peers = (None, peers)"
proof -
  have "find_peer h peers = None" using full by (auto simp: peer_map_def domIff)
  moreover have "find_first (\<lambda>p. \<not> bp_in_use p) peers = None" using full peer_map_full [OF ok] by auto
  ultimately show ?thesis by (simp add: alloc_peer_def)
qed

text \<open>The abstract table: a map of at most \<open>n\<close> handles. The output tells whether advertising is started again.\<close>

definition has_room :: "nat \<Rightarrow> u16 \<Rightarrow> (u16 \<rightharpoonup> bool) \<Rightarrow> bool" where
  "has_room n h m \<longleftrightarrow> h \<in> dom m \<or> card (dom m) < n"

fun spec_gap :: "nat \<Rightarrow> u16 \<Rightarrow> reading \<times> (int \<times> int \<times> int) \<times> ble_gap_event \<Rightarrow> (u16 \<rightharpoonup> bool) \<Rightarrow> bool \<times> (u16 \<rightharpoonup> bool)" where
  "spec_gap n tx (r, rcs, GapConnect status h) m =
     (status \<noteq> 0, if status = 0 \<and> has_room n h m \<and> h \<notin> dom m then m(h \<mapsto> False) else m)"
| "spec_gap n tx (r, rcs, GapDisconnect reason h) m = (True, m(h := None))"
| "spec_gap n tx (r, rcs, GapAdvComplete) m = (True, m)"
| "spec_gap n tx (r, rcs, GapSubscribe attr h notify) m =
     (False, if attr = tx \<and> has_room n h m then m(h \<mapsto> notify) else m)"
| "spec_gap n tx (r, rcs, GapMtu h mtu) m = (False, m)"
| "spec_gap n tx (r, rcs, GapOther) m = (False, m)"

fun gap_serve :: "reading \<times> (int \<times> int \<times> int) \<times> ble_gap_event \<Rightarrow> ble_state \<times> diag_state \<Rightarrow> bool \<times> ble_state \<times> diag_state" where
  "gap_serve (r, rcs, ev) s = (let (calls, s') = gap_event_cb r rcs ev s in (calls \<noteq> [], s'))"

definition peers_rel :: "nat \<Rightarrow> u16 \<Rightarrow> ble_state \<times> diag_state \<Rightarrow> (u16 \<rightharpoonup> bool) \<Rightarrow> bool" where
  "peers_rel n tx s m \<longleftrightarrow> peers_ok (s_peers (fst s)) \<and> length (s_peers (fst s)) = n \<and>
     s_tx_val_handle (fst s) = tx \<and> peer_map (s_peers (fst s)) = m"

lemma advertise_called: "advertise rcs st \<noteq> []"
  by (simp add: advertise_def split_beta)

lemma gap_sim:
  assumes "peers_rel n tx s m"
  shows "fst (gap_serve e s) = fst (spec_gap n tx e m) \<and> peers_rel n tx (snd (gap_serve e s)) (snd (spec_gap n tx e m))"
proof -
  obtain r rcs ev where e: "e = (r, rcs, ev)" by (metis surj_pair)
  obtain st d where s: "s = (st, d)" by fastforce
  have ok: "peers_ok (s_peers st)" and n: "n = length (s_peers st)" and tx: "tx = s_tx_val_handle st"
      and m: "m = peer_map (s_peers st)"
    using assms by (simp_all add: peers_rel_def s)
  show ?thesis
  proof (cases ev)
    case (GapConnect status h)
    show ?thesis
    proof (cases "has_room n h m")
      case True
      with ok obtain i peers' where a: "alloc_peer h (s_peers st) = (Some i, peers')" "peers_ok peers'"
          "length peers' = length (s_peers st)"
          "peer_map peers' = m(h \<mapsto> (case m h of Some b \<Rightarrow> b | None \<Rightarrow> False))"
        unfolding has_room_def n m by (blast elim: alloc_peer_room)
      then have "peer_map peers' = (if h \<notin> dom m then m(h \<mapsto> False) else m)"
        by (auto simp: domIff fun_upd_idem)
      with a(1-3) True ok show ?thesis unfolding e s GapConnect
        by (simp add: gap_event_cb_def peers_rel_def advertise_called n tx m Let_def)
    next
      case False
      then have "alloc_peer h (s_peers st) = (None, s_peers st)"
        using alloc_peer_full [OF ok, of h] by (simp add: has_room_def n m)
      with False ok show ?thesis unfolding e s GapConnect
        by (simp add: gap_event_cb_def peers_rel_def advertise_called n tx m Let_def)
    qed
  next
    case (GapDisconnect reason h)
    have "peers_ok (remove_peer h (s_peers st)) \<and> peer_map (remove_peer h (s_peers st)) = m(h := None)"
    proof (cases "find_peer h (s_peers st)")
      case None
      then show ?thesis using ok by (simp add: remove_peer_def m peer_map_def fun_upd_idem)
    next
      case (Some i)
      then show ?thesis using peers_clear [OF ok Some] by (simp add: remove_peer_def m)
    qed
    moreover have "length (remove_peer h (s_peers st)) = n" by (simp add: remove_peer_def n split: option.split)
    ultimately show ?thesis unfolding e s GapDisconnect
      by (simp add: gap_event_cb_def peers_rel_def advertise_called tx Let_def)
  next
    case (GapSubscribe attr h notify)
    show ?thesis
    proof (cases "has_room n h m")
      case True
      with ok obtain i peers' where a: "alloc_peer h (s_peers st) = (Some i, peers')" "peers_ok peers'"
          "length peers' = length (s_peers st)" "i \<in> used peers'" "bp_conn_handle (peers' ! i) = h"
          "peer_map peers' = m(h \<mapsto> (case m h of Some b \<Rightarrow> b | None \<Rightarrow> False))"
        unfolding has_room_def n m by (blast elim: alloc_peer_room)
      let ?p = "(peers' ! i)\<lparr>bp_notify_enabled := notify\<rparr>"
      have i: "i < length peers'" "bp_in_use ?p" using a(4) by (simp_all add: used_def)
      have "\<forall>j \<in> used peers'. j \<noteq> i \<longrightarrow> bp_conn_handle (peers' ! j) \<noteq> bp_conn_handle ?p"
        using a(2,4) by (auto simp: peers_ok_def inj_on_def)
      with peers_set [OF a(2) i] have "peers_ok (peers'[i := ?p]) \<and> peer_map (peers'[i := ?p]) = m(h \<mapsto> notify)"
        by (simp add: a(5,6))
      with a(1,3) True ok show ?thesis unfolding e s GapSubscribe
        by (simp add: gap_event_cb_def peers_rel_def n tx m Let_def)
    next
      case False
      then have "alloc_peer h (s_peers st) = (None, s_peers st)"
        using alloc_peer_full [OF ok, of h] by (simp add: has_room_def n m)
      with False ok show ?thesis unfolding e s GapSubscribe
        by (simp add: gap_event_cb_def peers_rel_def n tx m Let_def)
    qed
  qed (use ok in \<open>simp_all add: e s gap_event_cb_def peers_rel_def advertise_called n tx m Let_def\<close>)
qed

interpretation gap_refines: simulation gap_serve "spec_gap n tx" "\<lambda>e. True" "peers_rel n tx" for n tx
  by unfold_locales (rule gap_sim)



section \<open>Notifications carry the whole output\<close>

lemma notify_chunks_sound:
  "\<exists>rest'. concat (map fst (fst (notify_chunks r h ans k rest d))) @ rest' = rest
     \<and> ((\<forall>k. na_allocated (ans k) \<and> na_rc (ans k) = 0) \<longrightarrow> rest' = [] \<and> snd (notify_chunks r h ans k rest d) = d)"
proof (induction r h ans k rest d rule: notify_chunks.induct)
  case (1 r h ans k rest d)
  let ?n = "max_chunk (na_mtu (ans k))"
  show ?case
  proof (cases "rest \<noteq> [] \<and> na_allocated (ans k) \<and> na_rc (ans k) = 0")
    case True
    then obtain rest' where "concat (map fst (fst (notify_chunks r h ans (Suc k) (drop ?n rest) d))) @ rest' = drop ?n rest"
        "(\<forall>k. na_allocated (ans k) \<and> na_rc (ans k) = 0) \<longrightarrow> rest' = [] \<and> snd (notify_chunks r h ans (Suc k) (drop ?n rest) d) = d"
      using "1" by blast
    moreover have "notify_chunks r h ans k rest d =
        ((take ?n rest, 0) # fst (notify_chunks r h ans (Suc k) (drop ?n rest) d), snd (notify_chunks r h ans (Suc k) (drop ?n rest) d))"
      using True by (subst notify_chunks.simps) (simp add: Let_def split_beta)
    ultimately show ?thesis by (intro exI [of _ rest']) simp
  next
    case False
    have "concat (map fst (fst (notify_chunks r h ans k rest d))) =
        (if rest \<noteq> [] \<and> na_allocated (ans k) then take ?n rest else [])"
      using False by (subst notify_chunks.simps) (auto simp: Let_def)
    moreover have "\<not> (\<forall>k. na_allocated (ans k) \<and> na_rc (ans k) = 0)
        \<or> (rest = [] \<and> snd (notify_chunks r h ans k rest d) = d)"
      using False by (auto simp: notify_chunks.simps)
    ultimately show ?thesis
      by (intro exI [of _ "if rest \<noteq> [] \<and> na_allocated (ans k) then drop ?n rest else rest"]) auto
  qed
qed

lemma notify_chunks_sizes:
  "list_all (\<lambda>c. fst c \<noteq> [] \<and> (\<exists>j. length (fst c) \<le> max_chunk (na_mtu (ans j)))) (fst (notify_chunks r h ans k rest d))"
proof (induction r h ans k rest d rule: notify_chunks.induct)
  case (1 r h ans k rest d)
  have fits: "\<exists>j. length (take (max_chunk (na_mtu (ans k))) rest) \<le> max_chunk (na_mtu (ans j))"
    by (rule exI [of _ k]) simp
  have pos: "take (max_chunk (na_mtu (ans k))) rest \<noteq> []" if "rest \<noteq> []"
    using that max_chunk_pos [of "na_mtu (ans k)"] by simp
  show ?case
    using "1" [OF _ refl refl] fits pos
    by (subst notify_chunks.simps) (simp add: Let_def split_beta del: length_take)
qed

lemma notify_peers_fst:
  "(h, chunks) \<in> set (fst (notify_peers r ans data ps d)) \<Longrightarrow>
     (\<exists>p \<in> set ps. bp_in_use p \<and> bp_notify_enabled p \<and> bp_conn_handle p = h) \<and>
     (\<exists>d'. chunks = fst (notify_chunks r h (ans h) 0 data d'))"
  by (induction ps arbitrary: d) (auto simp: Let_def split_beta split: if_splits)

lemma notify_peers_handles:
  "map fst (fst (notify_peers r ans data ps d)) = map bp_conn_handle (filter (\<lambda>p. bp_in_use p \<and> bp_notify_enabled p) ps)"
  by (induction ps arbitrary: d) (auto simp: Let_def split_beta)



section \<open>The loop over the chunks ends\<close>

lemma max_chunk_min: "20 \<le> max_chunk mtu"
  by (simp add: max_chunk_def BLE_NOTIFY_MIN_CHUNK_SIZE_def Let_def)

lemma chunk_count_step: "20 \<le> m \<Longrightarrow> 0 < n \<Longrightarrow> Suc ((n - m + 19) div 20) \<le> (n + 19) div (20::nat)"
proof (cases "n \<le> m")
  assume "0 < n"
  case True
  have "1 \<le> (n + 19) div 20" using \<open>0 < n\<close> by linarith
  with True show ?thesis by simp
next
  assume "20 \<le> m"
  case False
  have "Suc ((n - m + 19) div 20) = (n - m + 39) div 20" by simp
  also have "\<dots> \<le> (n + 19) div 20" using \<open>20 \<le> m\<close> False by (intro div_le_mono) simp
  finally show ?thesis .
qed

lemma notify_chunk_count: "length (fst (notify_chunks r h ans k rest d)) \<le> (length rest + 19) div 20"
proof (induction r h ans k rest d rule: notify_chunks.induct)
  case (1 r h ans k rest d)
  let ?m = "max_chunk (na_mtu (ans k))"
  show ?case
  proof (cases "rest = []")
    case True
    then show ?thesis by (simp add: notify_chunks.simps)
  next
    case False
    have step: "Suc ((length rest - ?m + 19) div 20) \<le> (length rest + 19) div 20"
      using chunk_count_step [OF max_chunk_min, of "length rest"] False by simp
    then have "1 \<le> (length rest + 19) div 20" by linarith
    then show ?thesis
      using "1" [OF False refl refl] step False
      by (subst notify_chunks.simps) (auto simp: Let_def split_beta)
  qed
qed

lemma notify_peers_count:
  "length (concat (map snd (fst (notify_peers r ans data ps d)))) \<le> length ps * ((length data + 19) div 20)"
proof (induction ps arbitrary: d)
  case (Cons p ps)
  show ?case
    using Cons.IH [of d] Cons.IH [of "snd (notify_chunks r (bp_conn_handle p) (ans (bp_conn_handle p)) 0 data d)"]
      notify_chunk_count [of r "bp_conn_handle p" "ans (bp_conn_handle p)" 0 data d]
    by (auto simp: Let_def split_beta)
qed simp

text \<open>
  C38: Writing a line to the peers ends, whatever NimBLE answers and even when the MTU it reports is
  zero or changes from chunk to chunk: every pass of the loop that goes on takes at least twenty
  bytes, so a line of \<open>n\<close> bytes costs a peer at most \<open>n / 20\<close> notifications, rounded up.
\<close>

theorem console_write_ends:
  "length (concat (map snd (fst (meb_ble_console_write r ans data (st, d))))) \<le> length (s_peers st) * ((length data + 19) div 20)"
  by (simp add: meb_ble_console_write_def notify_peers_count)

section \<open>The reported UUIDs are the registered ones\<close>

definition byte_hex :: "u8 \<Rightarrow> string" where
  "byte_hex b = [hex_low (unat b div 16), hex_low (unat b mod 16)]"

definition uuid_text :: "u8 list \<Rightarrow> string" where
  "uuid_text bs =
     (let h = concat (map byte_hex (rev bs)) in
      take 8 h @ ''-'' @ take 4 (drop 8 h) @ ''-'' @ take 4 (drop 12 h) @ ''-'' @ take 4 (drop 16 h) @ ''-'' @ drop 20 h)"

lemma uuids_match:
  "uuid_text s_service_uuid = MEB_BLE_SERVICE_UUID" "uuid_text s_rx_uuid = MEB_BLE_RX_UUID" "uuid_text s_tx_uuid = MEB_BLE_TX_UUID"
  by code_simp+

section \<open>The attribute table\<close>

text \<open>
  The table that is registered with NimBLE. The two characteristics share the access callback; a
  characteristic says which variable receives its handle.
\<close>

datatype chr_flag = ChrRead | ChrWrite | ChrWriteNoRsp | ChrNotify
datatype val_handle = RxValHandle | TxValHandle

record gatt_chr =
  gc_uuid :: "u8 list"
  gc_flags :: "chr_flag list"
  gc_val_handle :: val_handle

record gatt_svc =
  gs_uuid :: "u8 list"
  gs_characteristics :: "gatt_chr list"

definition s_gatt_svcs :: "gatt_svc list" where
  "s_gatt_svcs =
     [\<lparr>gs_uuid = s_service_uuid,
       gs_characteristics =
         [\<lparr>gc_uuid = s_rx_uuid, gc_flags = [ChrWrite, ChrWriteNoRsp], gc_val_handle = RxValHandle\<rparr>,
          \<lparr>gc_uuid = s_tx_uuid, gc_flags = [ChrRead, ChrNotify], gc_val_handle = TxValHandle\<rparr>]\<rparr>]"

fun handle_of :: "ble_state \<Rightarrow> val_handle \<Rightarrow> u16" where
  "handle_of st RxValHandle = s_rx_val_handle st"
| "handle_of st TxValHandle = s_tx_val_handle st"

text \<open>
  The callback serves exactly what the table declares: a write of a fitting packet is accepted on
  the characteristics that may be written and refused on the others, and so is a read.
\<close>

lemma table_agrees_with_callback:
  assumes "s_rx_val_handle st \<noteq> s_tx_val_handle st" and "svc \<in> set s_gatt_svcs" and "ch \<in> set (gs_characteristics svc)"
    and "0 < n" and "n \<le> of_nat BLE_CMD_RX_BUF_SIZE"
  shows "fst (gatt_access_cb r (handle_of st (gc_val_handle ch)) (GattWrite n (Some buf)) (st, d)) = 0
      \<longleftrightarrow> ChrWrite \<in> set (gc_flags ch)"
    and "fst (gatt_access_cb r (handle_of st (gc_val_handle ch)) (GattRead True) (st, d)) = 0
      \<longleftrightarrow> ChrRead \<in> set (gc_flags ch)"
  using assms by (auto simp: s_gatt_svcs_def gatt_access_cb_def BLE_ATT_ERR_UNLIKELY_def split_beta)

end
