(* ===== verification/Settings.thy ===== *)
theory Settings
  imports Prelude
begin

text \<open>
  \<open>main/settings.c\<close>: the telemetry interval kept in non-volatile storage. The storage (NVS) is
  third-party: its functions are the fields of an argument and act on a flash content the model
  does not look into; what the module relies on of them is the predicate \<open>nvs_lawful\<close>. The
  contract of the module towards its clients is the locale \<open>interval_store\<close>.
\<close>

section \<open>Data\<close>

record 'n nvs_api =
  nvs_flash_init :: "'n \<Rightarrow> esp_err \<times> 'n"
  nvs_flash_erase :: "'n \<Rightarrow> esp_err \<times> 'n"
  nvs_open :: "string \<Rightarrow> bool \<Rightarrow> 'n \<Rightarrow> (esp_err + u32) \<times> 'n"
  nvs_get_u32 :: "u32 \<Rightarrow> string \<Rightarrow> 'n \<Rightarrow> esp_err + u32"
  nvs_set_u32 :: "u32 \<Rightarrow> string \<Rightarrow> u32 \<Rightarrow> 'n \<Rightarrow> esp_err \<times> 'n"
  nvs_commit :: "u32 \<Rightarrow> 'n \<Rightarrow> esp_err \<times> 'n"
  nvs_close :: "u32 \<Rightarrow> 'n \<Rightarrow> 'n"

record 'n settings_state =
  s_settings_initialized :: bool
  flash :: 'n

definition SETTINGS_NAMESPACE :: string where "SETTINGS_NAMESPACE = ''meb''"
definition TELEMETRY_INTERVAL_KEY :: string where "TELEMETRY_INTERVAL_KEY = ''tel_ms''"
definition MEB_TELEMETRY_MIN_PERIOD_MS :: u32 where "MEB_TELEMETRY_MIN_PERIOD_MS = 100"
definition MEB_TELEMETRY_MAX_PERIOD_MS :: u32 where "MEB_TELEMETRY_MAX_PERIOD_MS = 60000"

section \<open>Operations\<close>

definition meb_settings_init :: "'n nvs_api \<Rightarrow> 'n settings_state \<Rightarrow> esp_err \<times> 'n settings_state" where
  "meb_settings_init api st =
     (if s_settings_initialized st then (ESP_OK, st)
      else let (err, f1) = nvs_flash_init api (flash st) in
      if err = ESP_ERR_NVS_NO_FREE_PAGES \<or> err = ESP_ERR_NVS_NEW_VERSION_FOUND then
        (let (erased, f2) = nvs_flash_erase api f1 in
         if erased \<noteq> ESP_OK then (erased, st\<lparr>flash := f2\<rparr>)
         else let (err, f3) = nvs_flash_init api f2 in
           (err, st\<lparr>flash := f3, s_settings_initialized := (err = ESP_OK)\<rparr>))
      else (err, st\<lparr>flash := f1, s_settings_initialized := (err = ESP_OK)\<rparr>))"

definition meb_settings_get_telemetry_interval_ms ::
    "'n nvs_api \<Rightarrow> 'n settings_state \<Rightarrow> (esp_err + u32) \<times> 'n settings_state" where
  "meb_settings_get_telemetry_interval_ms api st =
     (let (err, st1) = meb_settings_init api st in
      if err \<noteq> ESP_OK then (Inl err, st1)
      else case nvs_open api SETTINGS_NAMESPACE False (flash st1) of
        (Inl err, f) \<Rightarrow> (Inl err, st1\<lparr>flash := f\<rparr>)
      | (Inr handle, f) \<Rightarrow>
          (nvs_get_u32 api handle TELEMETRY_INTERVAL_KEY f, st1\<lparr>flash := nvs_close api handle f\<rparr>))"

definition meb_settings_set_telemetry_interval_ms ::
    "'n nvs_api \<Rightarrow> u32 \<Rightarrow> 'n settings_state \<Rightarrow> esp_err \<times> 'n settings_state" where
  "meb_settings_set_telemetry_interval_ms api interval_ms st =
     (if interval_ms < MEB_TELEMETRY_MIN_PERIOD_MS \<or> interval_ms > MEB_TELEMETRY_MAX_PERIOD_MS
      then (ESP_ERR_INVALID_ARG, st)
      else let (err, st1) = meb_settings_init api st in
      if err \<noteq> ESP_OK then (err, st1)
      else case nvs_open api SETTINGS_NAMESPACE True (flash st1) of
        (Inl err, f) \<Rightarrow> (err, st1\<lparr>flash := f\<rparr>)
      | (Inr handle, f) \<Rightarrow>
          (let (set_err, f1) = nvs_set_u32 api handle TELEMETRY_INTERVAL_KEY interval_ms f;
               (err, f2) = (if set_err = ESP_OK then nvs_commit api handle f1 else (set_err, f1))
           in (err, st1\<lparr>flash := nvs_close api handle f2\<rparr>)))"

section \<open>The contract\<close>

text \<open>
  What ESP-IDF documents of NVS, for the one value the firmware stores: \<open>stored\<close> is the committed
  value. Mounting and opening keep it, reading returns it, and setting and committing through a
  handle opened for writing replaces it; opening that fails has a code other than \<open>ESP_OK\<close>.
\<close>

definition nvs_lawful :: "'n nvs_api \<Rightarrow> ('n \<Rightarrow> u32 option) \<Rightarrow> bool" where
  "nvs_lawful api stored \<longleftrightarrow>
     (\<forall>f. stored (snd (nvs_flash_init api f)) = stored f)
   \<and> (\<forall>f rw. stored (snd (nvs_open api SETTINGS_NAMESPACE rw f)) = stored f)
   \<and> (\<forall>f rw e. fst (nvs_open api SETTINGS_NAMESPACE rw f) = Inl e \<longrightarrow> e \<noteq> ESP_OK)
   \<and> (\<forall>f h. stored (nvs_close api h f) = stored f)
   \<and> (\<forall>f rw h v. fst (nvs_open api SETTINGS_NAMESPACE rw f) = Inr h \<longrightarrow>
        nvs_get_u32 api h TELEMETRY_INTERVAL_KEY (snd (nvs_open api SETTINGS_NAMESPACE rw f)) = Inr v \<longrightarrow> stored f = Some v)
   \<and> (\<forall>f h v f1 f2. fst (nvs_open api SETTINGS_NAMESPACE True f) = Inr h \<longrightarrow>
        nvs_set_u32 api h TELEMETRY_INTERVAL_KEY v (snd (nvs_open api SETTINGS_NAMESPACE True f)) = (ESP_OK, f1) \<longrightarrow>
        nvs_commit api h f1 = (ESP_OK, f2) \<longrightarrow> stored f2 = Some v)"

text \<open>
  The contract of a store for one value that survives restarts: an accepted value is what the next
  successful read returns, also after restarts and further reads, and a value out of range is
  refused without an effect. \<open>safe\<close> says that mounting will not have to erase the store.
\<close>

locale interval_store =
  fixes get :: "'s \<Rightarrow> (esp_err + u32) \<times> 's"
    and set_value :: "u32 \<Rightarrow> 's \<Rightarrow> esp_err \<times> 's"
    and restart :: "'s \<Rightarrow> 's"
    and stored :: "'s \<Rightarrow> u32 option"
    and lawful :: "'s \<Rightarrow> bool"
    and safe :: "'s \<Rightarrow> bool"
    and valid :: "u32 \<Rightarrow> bool"
  assumes get_value: "lawful s \<Longrightarrow> safe s \<Longrightarrow> fst (get s) = Inr v \<Longrightarrow> stored s = Some v"
    and get_keeps: "lawful s \<Longrightarrow> safe s \<Longrightarrow> lawful (snd (get s)) \<and> stored (snd (get s)) = stored s"
    and set_stores: "lawful s \<Longrightarrow> fst (set_value v s) = ESP_OK \<Longrightarrow>
        lawful (snd (set_value v s)) \<and> stored (snd (set_value v s)) = Some v"
    and set_invalid: "\<not> valid v \<Longrightarrow> set_value v s = (ESP_ERR_INVALID_ARG, s)"
    and restart_keeps: "lawful s \<Longrightarrow> lawful (restart s) \<and> stored (restart s) = stored s"
begin

lemma set_then_get:
  "lawful s \<Longrightarrow> fst (set_value v s) = ESP_OK \<Longrightarrow> safe (restart (snd (set_value v s))) \<Longrightarrow>
     fst (get (restart (snd (set_value v s)))) = Inr w \<Longrightarrow> w = v \<and> valid v"
proof -
  assume s: "lawful s" and ok: "fst (set_value v s) = ESP_OK"
    and safe: "safe (restart (snd (set_value v s)))" and read: "fst (get (restart (snd (set_value v s)))) = Inr w"
  have l: "lawful (restart (snd (set_value v s)))" and st: "stored (restart (snd (set_value v s))) = Some v"
    using set_stores [OF s ok] restart_keeps by auto
  have "valid v" using ok set_invalid [of v s] by (cases "valid v") simp_all
  with get_value [OF l safe read] st show ?thesis by simp
qed

end

text \<open>A restart clears the static variable and keeps the flash.\<close>

definition restart_settings :: "'n settings_state \<Rightarrow> 'n settings_state" where
  "restart_settings st = st\<lparr>s_settings_initialized := False\<rparr>"

text \<open>The storage needs no erase: it is mounted already, or mounting it does not ask for one.\<close>

definition mounts :: "'n nvs_api \<Rightarrow> 'n settings_state \<Rightarrow> bool" where
  "mounts api st \<longleftrightarrow> s_settings_initialized st \<or>
     fst (nvs_flash_init api (flash st)) \<notin> {ESP_ERR_NVS_NO_FREE_PAGES, ESP_ERR_NVS_NEW_VERSION_FOUND}"

definition interval_in_range :: "u32 \<Rightarrow> bool" where
  "interval_in_range v \<longleftrightarrow> MEB_TELEMETRY_MIN_PERIOD_MS \<le> v \<and> v \<le> MEB_TELEMETRY_MAX_PERIOD_MS"

lemma settings_init_keeps:
  assumes "nvs_lawful api stored" and "mounts api st"
  shows "stored (flash (snd (meb_settings_init api st))) = stored (flash st)"
  using assms by (auto simp: meb_settings_init_def mounts_def nvs_lawful_def Let_def split_beta)

interpretation nvs_interval: interval_store "meb_settings_get_telemetry_interval_ms api"
    "meb_settings_set_telemetry_interval_ms api" restart_settings "\<lambda>st. stored (flash st)"
    "\<lambda>st. nvs_lawful api stored" "mounts api" interval_in_range
  for api :: "'n nvs_api" and stored :: "'n \<Rightarrow> u32 option"
proof unfold_locales
  fix s :: "'n settings_state" and v :: u32
  assume law: "nvs_lawful api stored"
  show "stored (flash s) = Some v" if "mounts api s" and "fst (meb_settings_get_telemetry_interval_ms api s) = Inr v"
  proof -
    let ?s1 = "snd (meb_settings_init api s)"
    have "stored (flash ?s1) = Some v"
      using that(2) law
      by (auto simp: meb_settings_get_telemetry_interval_ms_def nvs_lawful_def Let_def split_beta
          split: if_splits sum.splits prod.splits)
    then show ?thesis using settings_init_keeps [OF law that(1)] by simp
  qed
  show "nvs_lawful api stored \<and> stored (flash (snd (meb_settings_get_telemetry_interval_ms api s))) = stored (flash s)"
    if "mounts api s"
  proof -
    let ?s1 = "snd (meb_settings_init api s)"
    have "stored (flash (snd (meb_settings_get_telemetry_interval_ms api s))) = stored (flash ?s1)"
    proof (cases "nvs_open api SETTINGS_NAMESPACE False (flash ?s1)")
      case (Pair a f)
      moreover have "stored f = stored (flash ?s1)" using law Pair unfolding nvs_lawful_def by (metis snd_conv)
      ultimately show ?thesis using law
        by (auto simp: meb_settings_get_telemetry_interval_ms_def nvs_lawful_def Let_def split_beta split: sum.split)
    qed
    then show ?thesis using settings_init_keeps [OF law that] law by simp
  qed
  show "nvs_lawful api stored \<and> stored (flash (snd (meb_settings_set_telemetry_interval_ms api v s))) = Some v"
    if "fst (meb_settings_set_telemetry_interval_ms api v s) = ESP_OK"
  proof -
    let ?s1 = "snd (meb_settings_init api s)"
    have range: "\<not> (v < MEB_TELEMETRY_MIN_PERIOD_MS \<or> MEB_TELEMETRY_MAX_PERIOD_MS < v)"
      and init: "fst (meb_settings_init api s) = ESP_OK"
      using that by (auto simp: meb_settings_set_telemetry_interval_ms_def Let_def split_beta split: if_splits)
    obtain a f where open_eq: "nvs_open api SETTINGS_NAMESPACE True (flash ?s1) = (a, f)" by fastforce
    show ?thesis
    proof (cases a)
      case (Inl e)
      have "e \<noteq> ESP_OK" using law open_eq Inl unfolding nvs_lawful_def by (metis fst_conv)
      then show ?thesis using that range init open_eq Inl
        by (simp add: meb_settings_set_telemetry_interval_ms_def Let_def split_beta)
    next
      case (Inr h)
      obtain e1 f1 where set_eq: "nvs_set_u32 api h TELEMETRY_INTERVAL_KEY v f = (e1, f1)" by fastforce
      obtain e2 f2 where commit_eq: "nvs_commit api h f1 = (e2, f2)" by fastforce
      note step = meb_settings_set_telemetry_interval_ms_def Let_def split_beta
      have ok: "e1 = ESP_OK" "e2 = ESP_OK"
        using that range init open_eq Inr set_eq commit_eq by (simp_all add: step split: if_splits)
      have "stored f2 = Some v"
        using law open_eq Inr set_eq commit_eq ok unfolding nvs_lawful_def by (metis fst_conv snd_conv)
      moreover have "stored (nvs_close api h f2) = stored f2" using law by (simp add: nvs_lawful_def)
      ultimately show ?thesis using ok range init open_eq Inr set_eq commit_eq law by (simp add: step)
    qed
  qed
qed (auto simp: meb_settings_set_telemetry_interval_ms_def interval_in_range_def restart_settings_def not_le)

text \<open>A storage of one value, on which every call succeeds.\<close>

definition cell_nvs :: "u32 option nvs_api" where
  "cell_nvs = \<lparr>nvs_flash_init = (\<lambda>f. (ESP_OK, f)), nvs_flash_erase = (\<lambda>f. (ESP_OK, None)),
     nvs_open = (\<lambda>name rw f. (Inr 1, f)),
     nvs_get_u32 = (\<lambda>h key f. case f of None \<Rightarrow> Inl ESP_ERR_NVS_NOT_FOUND | Some v \<Rightarrow> Inr v),
     nvs_set_u32 = (\<lambda>h key v f. (ESP_OK, Some v)), nvs_commit = (\<lambda>h f. (ESP_OK, f)),
     nvs_close = (\<lambda>h f. f)\<rparr>"

lemma cell_nvs_lawful: "nvs_lawful cell_nvs (\<lambda>f. f)"
  by (simp add: nvs_lawful_def cell_nvs_def split: option.splits)

end
