(* ===== verification/Device.thy ===== *)
theory Device
  imports Can_Bus Ota_Update Ble_Console Settings
begin

text \<open>
  The device as a whole: the static variables of all files of \<open>main/\<close> in one record, with the
  trace of what the firmware did to the world outside (lines written, frames handed to the CAN
  driver, flash operations, scheduled restarts), in order. What never changes while the firmware
  runs (the build options, the libraries and drivers) is the record \<open>platform\<close>; what the platform
  answers during one operation is the record \<open>answers\<close>, in which an operation that asks more than
  once tells the questions apart by a \<open>moment\<close>.
\<close>

section \<open>The platform\<close>

record ('c, 'n) platform =
  pf_config :: build_config
  pf_release :: bool
  pf_sha :: "'c sha_api"
  pf_nvs :: "'n nvs_api"
  pf_len2dlc :: "nat \<Rightarrow> u16"
  pf_err_name :: "esp_err \<Rightarrow> string"
  pf_reset_reason :: esp_reset_reason
  pf_reset_number :: "esp_reset_reason \<Rightarrow> int"
  pf_max_connections :: nat

datatype moment = AtChange | AtEvent | AtSnapshot | AtPrint | AtRetry | AtTransmit

record answers =
  pa_reading :: "moment \<Rightarrow> reading"
  pa_uart_installed :: bool
  pa_notify :: "moment \<Rightarrow> u16 \<Rightarrow> nat \<Rightarrow> notify_answer"
  pa_ota :: ota_answers
  pa_task_created :: bool
  pa_heap8 :: "u32 \<times> u32 \<times> u32"
  pa_can_info :: "twai_node_status \<times> u32"
  pa_transmit :: esp_err

abbreviation pa_time :: "answers \<Rightarrow> moment \<Rightarrow> int" where
  "pa_time a m \<equiv> rd_time_us (pa_reading a m)"

section \<open>The device\<close>

record serial_write =
  sw_text :: string
  sw_uart :: bool
  sw_ble :: "(u16 \<times> (string \<times> int) list) list"

datatype effect =
    Written serial_write
  | FlashCall ota_call
  | CanRequest can_request esp_err
  | RestartIn u32

record ('c, 'n) device =
  dv_app :: app_state
  dv_diag :: diag_state
  dv_can :: can_state
  dv_ble :: ble_state
  dv_settings :: "'n settings_state"
  dv_telemetry_interval_ms :: u32
  dv_ota :: "'c ota_update_state"
  dv_uart_write_lock :: bool
  dv_trace :: "effect list"

text \<open>An operation on the shared state and the event log, run on the device.\<close>

definition on_app :: "(app_state \<times> diag_state \<Rightarrow> app_state \<times> diag_state) \<Rightarrow> ('c, 'n) device \<Rightarrow> ('c, 'n) device" where
  "on_app f dv = (let (st, d) = f (dv_app dv, dv_diag dv) in dv\<lparr>dv_app := st, dv_diag := d\<rparr>)"

definition on_diag :: "(diag_state \<Rightarrow> diag_state) \<Rightarrow> ('c, 'n) device \<Rightarrow> ('c, 'n) device" where
  "on_diag f dv = dv\<lparr>dv_diag := f (dv_diag dv)\<rparr>"

definition effects :: "effect list \<Rightarrow> ('c, 'n) device \<Rightarrow> ('c, 'n) device" where
  "effects es dv = dv\<lparr>dv_trace := dv_trace dv @ es\<rparr>"

text \<open>The lines among the effects, and everything else.\<close>

fun line_of :: "effect \<Rightarrow> string option" where
  "line_of (Written w) = Some (sw_text w)"
| "line_of _ = None"

definition lines_of :: "effect list \<Rightarrow> string list" where
  "lines_of es = List.map_filter line_of es"

definition printed :: "('c, 'n) device \<Rightarrow> string list" where
  "printed dv = lines_of (dv_trace dv)"

definition acts_of :: "effect list \<Rightarrow> effect list" where
  "acts_of es = filter (\<lambda>e. line_of e = None) es"

lemma lines_of_append [simp]: "lines_of (xs @ ys) = lines_of xs @ lines_of ys"
  by (simp add: lines_of_def List.map_filter_def)

lemma lines_of_simps [simp]:
  "lines_of [] = []" "lines_of (Written w # es) = sw_text w # lines_of es"
  "lines_of (FlashCall c # es) = lines_of es" "lines_of (CanRequest k e # es) = lines_of es"
  "lines_of (RestartIn n # es) = lines_of es"
  by (simp_all add: lines_of_def List.map_filter_def)

lemma acts_of_append [simp]: "acts_of (xs @ ys) = acts_of xs @ acts_of ys"
  by (simp add: acts_of_def)

lemma acts_of_simps [simp]:
  "acts_of [] = []" "acts_of (Written w # es) = acts_of es"
  "acts_of (FlashCall c # es) = FlashCall c # acts_of es" "acts_of (CanRequest k e # es) = CanRequest k e # acts_of es"
  "acts_of (RestartIn n # es) = RestartIn n # acts_of es"
  by (simp_all add: acts_of_def)

text \<open>
  The device without its event log and without the lines it printed: what a command acts on,
  apart from its answer.
\<close>

definition silent :: "('c, 'n) device \<Rightarrow> ('c, 'n) device" where
  "silent dv = dv\<lparr>dv_diag := diag_boot_state, dv_trace := acts_of (dv_trace dv)\<rparr>"

lemma on_app_frame [frame_simps]:
  "dv_can (on_app f dv) = dv_can dv" "dv_ble (on_app f dv) = dv_ble dv" "dv_settings (on_app f dv) = dv_settings dv"
  "dv_telemetry_interval_ms (on_app f dv) = dv_telemetry_interval_ms dv" "dv_ota (on_app f dv) = dv_ota dv"
  "dv_trace (on_app f dv) = dv_trace dv"
  by (simp_all add: on_app_def split_beta)

lemma on_diag_frame [frame_simps]:
  "dv_app (on_diag f dv) = dv_app dv" "dv_can (on_diag f dv) = dv_can dv" "dv_ble (on_diag f dv) = dv_ble dv"
  "dv_settings (on_diag f dv) = dv_settings dv" "dv_telemetry_interval_ms (on_diag f dv) = dv_telemetry_interval_ms dv"
  "dv_ota (on_diag f dv) = dv_ota dv" "dv_trace (on_diag f dv) = dv_trace dv" "silent (on_diag f dv) = silent dv"
  by (simp_all add: on_diag_def silent_def)

lemma effects_frame [frame_simps]:
  "dv_app (effects es dv) = dv_app dv" "dv_diag (effects es dv) = dv_diag dv"
  "dv_can (effects es dv) = dv_can dv" "dv_ble (effects es dv) = dv_ble dv"
  "dv_settings (effects es dv) = dv_settings dv" "dv_telemetry_interval_ms (effects es dv) = dv_telemetry_interval_ms dv"
  "dv_ota (effects es dv) = dv_ota dv" "dv_trace (effects es dv) = dv_trace dv @ es"
  by (simp_all add: effects_def)

text \<open>A request of \<open>can_bus.c\<close> by another module: its frame is an effect, with the driver's answer.\<close>

definition can_send :: "('c, 'n) platform \<Rightarrow> answers \<Rightarrow> can_request \<Rightarrow> ('c, 'n) device \<Rightarrow> esp_err \<times> ('c, 'n) device" where
  "can_send pf a k dv =
     (let (err, slot, can, d) = send_request (pf_len2dlc pf) (pf_err_name pf) (pa_reading a AtTransmit)
            (pa_transmit a) k (dv_can dv, dv_diag dv)
      in (err, effects [CanRequest k err] (dv\<lparr>dv_can := can, dv_diag := d\<rparr>)))"

lemma can_send_frame [frame_simps]:
  "dv_app (snd (can_send pf a k dv)) = dv_app dv" "dv_ble (snd (can_send pf a k dv)) = dv_ble dv"
  "dv_settings (snd (can_send pf a k dv)) = dv_settings dv"
  "dv_telemetry_interval_ms (snd (can_send pf a k dv)) = dv_telemetry_interval_ms dv"
  "dv_ota (snd (can_send pf a k dv)) = dv_ota dv"
  "dv_trace (snd (can_send pf a k dv)) = dv_trace dv @ [CanRequest k (fst (can_send pf a k dv))]"
  by (simp_all add: can_send_def split_beta frame_simps)

section \<open>Power-up\<close>

definition MEB_TELEMETRY_PERIOD_MS :: u32 where "MEB_TELEMETRY_PERIOD_MS = 1000"

text \<open>
  What all static variables are before \<open>app_main\<close> runs, on a flash with the content \<open>f\<close>.
\<close>

definition device_boot_state :: "('c, 'n) platform \<Rightarrow> 'n \<Rightarrow> ('c, 'n) device" where
  "device_boot_state pf f = \<lparr>dv_app = app_boot_state, dv_diag = diag_boot_state, dv_can = can_boot_state,
     dv_ble = ble_boot_state (pf_max_connections pf),
     dv_settings = \<lparr>s_settings_initialized = False, flash = f\<rparr>,
     dv_telemetry_interval_ms = MEB_TELEMETRY_PERIOD_MS, dv_ota = ota_zero (pf_sha pf),
     dv_uart_write_lock = False, dv_trace = []\<rparr>"

text \<open>After a restart the static variables are new and the flash is the old one.\<close>

definition restart_device :: "('c, 'n) platform \<Rightarrow> ('c, 'n) device \<Rightarrow> ('c, 'n) device" where
  "restart_device pf dv = device_boot_state pf (flash (dv_settings dv))"

text \<open>
  A platform for examples: the plain hash, a storage of one value, the default build; and the
  answers of a platform on which everything succeeds, all at the time \<open>t\<close>.
\<close>

definition bench_platform :: "(u8 list, u32 option) platform" where
  "bench_platform = \<lparr>pf_config = default_config, pf_release = True, pf_sha = plain_sha, pf_nvs = cell_nvs,
     pf_len2dlc = of_nat, pf_err_name = (\<lambda>e. ''ESP_FAIL''), pf_reset_reason = ESP_RST_POWERON,
     pf_reset_number = (\<lambda>r. 1), pf_max_connections = 1\<rparr>"

definition bench_answers :: "int \<Rightarrow> answers" where
  "bench_answers t = \<lparr>pa_reading = (\<lambda>m. at_us t), pa_uart_installed = True,
     pa_notify = (\<lambda>m h k. \<lparr>na_mtu = 256, na_allocated = True, na_rc = 0\<rparr>), pa_ota = good_flash,
     pa_task_created = True, pa_heap8 = (0, 0, 0),
     pa_can_info = (\<lparr>ns_state = 0, ns_tx_error_count = 0, ns_rx_error_count = 0, ns_tx_queue_remaining = 8\<rparr>, 0),
     pa_transmit = ESP_OK\<rparr>"

abbreviation bench_device :: "(u8 list, u32 option) device" where
  "bench_device \<equiv> device_boot_state bench_platform None"

end
