(* ===== verification/Json_Scan.thy ===== *)
theory Json_Scan
  imports Prelude
begin

text \<open>
  The scanners with which \<open>main/serial_console.c\<close> reads JSON-RPC requests: white space, the
  search for a key, and the values of strings, booleans, unsigned numbers and identifiers. A
  pointer into the request is the rest of the text from there, a null pointer is \<open>None\<close>.
\<close>

section \<open>The scanners\<close>

definition is_ws :: "char \<Rightarrow> bool" where
  "is_ws c \<longleftrightarrow> c = CHR '' '' \<or> c = CHR 0x09 \<or> c = CHR 0x0D \<or> c = CHR 0x0A"

fun skip_ws :: "string \<Rightarrow> string" where
  "skip_ws [] = []"
| "skip_ws (c # cs) = (if is_ws c then skip_ws cs else c # cs)"

definition is_value_delimiter :: "char \<Rightarrow> bool" where
  "is_value_delimiter c \<longleftrightarrow>
     c = NUL \<or> c = CHR '','' \<or> c = CHR ''}'' \<or> c = CHR '']'' \<or> c = CHR '' '' \<or> c = CHR 0x09 \<or>
     c = CHR 0x0D \<or> c = CHR 0x0A"

text \<open>The library's \<open>strstr\<close>: the text from the first occurrence of the pattern on.\<close>

fun strstr :: "string \<Rightarrow> string \<Rightarrow> string option" where
  "strstr [] pat = (if pat = [] then Some [] else None)"
| "strstr (c # cs) pat = (if take (length pat) (c # cs) = pat then Some (c # cs) else strstr cs pat)"

lemma strstr_length: "strstr s pat = Some t \<Longrightarrow> length t \<le> length s"
  by (induction s) (auto split: if_splits)

definition quote :: "string \<Rightarrow> string" where
  "quote s = CHR 0x22 # s @ [CHR 0x22]"

function find_key_loop :: "string \<Rightarrow> string \<Rightarrow> string option" where
  "find_key_loop pattern p =
     (if pattern = [] then None
      else case strstr p pattern of
        None \<Rightarrow> None
      | Some q \<Rightarrow>
          let after = drop (length pattern) q; v = skip_ws after in
          if deref v = CHR '':'' then Some (skip_ws (tl v)) else find_key_loop pattern after)"
  by pat_completeness auto
termination
proof (relation "measure (\<lambda>(pattern, p). length p)")
  fix pattern p q after and v :: string
  assume "pattern \<noteq> []" "strstr p pattern = Some q" "after = drop (length pattern) q"
    "\<not> deref v = CHR '':''" "v = skip_ws after"
  moreover from this have "q \<noteq> []" by (induction p) (auto split: if_splits)
  ultimately show "((pattern, after), (pattern, p)) \<in> measure (\<lambda>(pattern, p). length p)"
    using strstr_length [of p pattern q] by (cases q; cases pattern) auto
qed simp

declare find_key_loop.simps [simp del]

definition find_key_value :: "string \<Rightarrow> string \<Rightarrow> string option" where
  "find_key_value json key =
     (let pattern = quote key in
      if length pattern \<ge> 40 then None else find_key_loop pattern json)"

fun parse_string_loop :: "nat \<Rightarrow> string \<Rightarrow> string \<Rightarrow> string option" where
  "parse_string_loop out_len [] out = None"
| "parse_string_loop out_len (c # cs) out =
     (if c = CHR 0x22 then Some out
      else if c = CHR 0x5C then
        (case cs of
           [] \<Rightarrow> None
         | d # ds \<Rightarrow> if length out \<ge> out_len - 1 then None else parse_string_loop out_len ds (out @ [d]))
      else if length out \<ge> out_len - 1 then None
      else parse_string_loop out_len cs (out @ [c]))"

definition parse_string_value :: "string option \<Rightarrow> nat \<Rightarrow> string option" where
  "parse_string_value value_ptr out_len =
     (case value_ptr of
        None \<Rightarrow> None
      | Some v \<Rightarrow> if deref v \<noteq> CHR 0x22 \<or> out_len = 0 then None else parse_string_loop out_len (tl v) '''')"

definition parse_bool_value :: "string option \<Rightarrow> bool option" where
  "parse_bool_value value_ptr =
     (case value_ptr of
        None \<Rightarrow> None
      | Some v \<Rightarrow>
        if take 4 v = ''true'' then (if \<not> is_value_delimiter (deref (drop 4 v)) then None else Some True)
        else if take 5 v = ''false'' then (if \<not> is_value_delimiter (deref (drop 5 v)) then None else Some False)
        else None)"

definition is_digit :: "char \<Rightarrow> bool" where
  "is_digit c \<longleftrightarrow> 48 \<le> (of_char c :: nat) \<and> (of_char c :: nat) \<le> 57"

fun parse_digits :: "u32 \<Rightarrow> string \<Rightarrow> (u32 \<times> string) option" where
  "parse_digits parsed [] = Some (parsed, [])"
| "parse_digits parsed (c # cs) =
     (if is_digit c then
        let digit = (of_nat (of_char c - 48) :: u32) in
        if parsed > (- 1 - digit) div 10 then None
        else parse_digits (parsed * 10 + digit) cs
      else Some (parsed, c # cs))"

definition parse_uint_value :: "string option \<Rightarrow> u32 option" where
  "parse_uint_value value_ptr =
     (case value_ptr of
        None \<Rightarrow> None
      | Some v \<Rightarrow>
        if \<not> is_digit (deref v) then None
        else (case parse_digits 0 v of
          None \<Rightarrow> None
        | Some (parsed, rest) \<Rightarrow> if \<not> is_value_delimiter (deref rest) then None else Some parsed))"

text \<open>
  The two loops of \<open>parse_id_token\<close>, for a quoted and for an unquoted identifier; \<open>n\<close> is the size
  of the buffer and \<open>out\<close> what it holds.
\<close>

fun id_string_loop :: "nat \<Rightarrow> string \<Rightarrow> string \<Rightarrow> string option" where
  "id_string_loop n [] out = None"
| "id_string_loop n (c # cs) out =
     (if length out \<ge> n - 1 then None
      else let out1 = out @ [c] in
      if c = CHR 0x5C \<and> cs \<noteq> [] then
        (if length out1 \<ge> n - 1 then None else id_string_loop n (tl cs) (out1 @ [hd cs]))
      else if c = CHR 0x22 \<and> length out1 > 1 then Some out1
      else id_string_loop n cs out1)"

definition ends_id :: "char \<Rightarrow> bool" where
  "ends_id c \<longleftrightarrow> c = CHR '','' \<or> c = CHR ''}'' \<or> c = CHR '' '' \<or> c = CHR 0x09 \<or> c = CHR 0x0D \<or> c = CHR 0x0A"

fun id_plain_loop :: "nat \<Rightarrow> string \<Rightarrow> string \<Rightarrow> string option" where
  "id_plain_loop n [] out = Some out"
| "id_plain_loop n (c # cs) out =
     (if ends_id c then Some out
      else if length out \<ge> n - 1 then None
      else id_plain_loop n cs (out @ [c]))"

text \<open>The result: \<open>*has_id\<close>, and the token when the function returns true.\<close>

definition parse_id_token :: "string \<Rightarrow> nat \<Rightarrow> bool \<times> string option" where
  "parse_id_token json n =
     (case find_key_value json ''id'' of
        None \<Rightarrow> (False, Some (snprintf n ''null''))
      | Some v \<Rightarrow>
        (True,
         if deref v = CHR 0x22 then id_string_loop n v ''''
         else (case id_plain_loop n v '''' of
           None \<Rightarrow> None
         | Some token \<Rightarrow>
             if token = '''' then None
             else if token = ''null'' \<or> hd token = CHR ''-'' \<or> is_digit (hd token) then Some token
             else None)))"

definition parse_required_string_key :: "string \<Rightarrow> string \<Rightarrow> nat \<Rightarrow> string option" where
  "parse_required_string_key json key out_len = parse_string_value (find_key_value json key) out_len"

section \<open>Unsigned numbers\<close>

definition digit_value :: "char \<Rightarrow> nat" where
  "digit_value c = of_char c - 48"

text \<open>The number a list of digits denotes when \<open>n\<close> was read before it.\<close>

fun dec_from :: "nat \<Rightarrow> string \<Rightarrow> nat" where
  "dec_from n [] = n"
| "dec_from n (c # cs) = dec_from (n * 10 + digit_value c) cs"

lemma dec_from_mono: "n \<le> dec_from n cs"
proof (induction cs arbitrary: n)
  case (Cons c cs)
  have "n \<le> n * 10 + digit_value c" by simp
  also have "\<dots> \<le> dec_from (n * 10 + digit_value c) cs" by (rule Cons.IH)
  finally show ?case by simp
qed simp

lemma dec_from_append: "dec_from n (xs @ ys) = dec_from (dec_from n xs) ys"
  by (induction xs arbitrary: n) simp_all

lemma digit_value_bound: "is_digit c \<Longrightarrow> digit_value c \<le> 9"
  by (auto simp: is_digit_def digit_value_def)

lemma digit_step:
  fixes p :: u32
  assumes "d \<le> 9"
  shows "(p > (- 1 - of_nat d) div 10) = (2 ^ 32 \<le> unat p * 10 + d)"
    and "unat p * 10 + d < 2 ^ 32 \<Longrightarrow> unat (p * 10 + of_nat d) = unat p * 10 + d"
proof -
  have d: "unat (of_nat d :: u32) = d" using assms by (simp add: unat_of_nat)

  have "of_nat d \<le> (- 1 :: u32)" by simp
  then have "unat (- 1 - of_nat d :: u32) = 4294967295 - d" by (simp add: unat_sub d)
  then have "unat ((- 1 - of_nat d :: u32) div 10) = (4294967295 - d) div 10" by (simp add: unat_div)
  then show "(p > (- 1 - of_nat d) div 10) = (2 ^ 32 \<le> unat p * 10 + d)"
    unfolding word_less_nat_alt using assms by (simp add: div_less_iff_less_mult) linarith
  show "unat (p * 10 + of_nat d) = unat p * 10 + d" if "unat p * 10 + d < 2 ^ 32"
    using that d by (simp add: unat_word_ariths)
qed

lemma parse_digits_eq:
  "parse_digits p s =
     (let n = dec_from (unat p) (takeWhile is_digit s)
      in if n < 2 ^ 32 then Some (of_nat n, dropWhile is_digit s) else None)"
proof (induction s arbitrary: p)
  case Nil
  then show ?case using unat_u32_bound [of p] by simp
next
  case (Cons c cs)
  show ?case
  proof (cases "is_digit c")
    case True
    let ?d = "digit_value c"
    note step = digit_step [OF digit_value_bound [OF True], of p]
    show ?thesis
    proof (cases "2 ^ 32 \<le> unat p * 10 + ?d")
      case big: True
      then have "2 ^ 32 \<le> dec_from (unat p * 10 + ?d) (takeWhile is_digit cs)"
        using dec_from_mono order_trans by blast
      then show ?thesis using True big step(1) by (simp add: Let_def flip: digit_value_def)
    next
      case False
      then show ?thesis using True step Cons.IH by (simp add: Let_def flip: digit_value_def)
    qed
  next
    case False
    then show ?thesis using unat_u32_bound [of p] by simp
  qed
qed

lemma parse_uint_eq:
  "parse_uint_value (Some v) =
     (if takeWhile is_digit v \<noteq> [] \<and> dec_from 0 (takeWhile is_digit v) < 2 ^ 32
         \<and> is_value_delimiter (deref (dropWhile is_digit v))
      then Some (of_nat (dec_from 0 (takeWhile is_digit v))) else None)"
proof (cases v)
  case Nil
  have "\<not> is_digit NUL" by (simp add: is_digit_def NUL_def)
  with Nil show ?thesis by (simp add: parse_uint_value_def)
next
  case (Cons c cs)
  then show ?thesis by (auto simp: parse_uint_value_def parse_digits_eq Let_def)
qed

text \<open>
  C36: A number is accepted exactly when it is one or more decimal digits, followed by a delimiter,
  that denote a number below $2^{32}$, and its value is then that number: no overflow of the 32 bit
  accumulator goes unnoticed, whatever the number of digits.
\<close>

theorem parse_uint_exact:
  "parse_uint_value (Some v) =
     (let ds = takeWhile is_digit v; rest = dropWhile is_digit v
      in if ds \<noteq> [] \<and> dec_from 0 ds < 2 ^ 32 \<and> is_value_delimiter (deref rest)
         then Some (of_nat (dec_from 0 ds)) else None)"
  by (simp only: parse_uint_eq Let_def)

lemma digit_char_digit: "d < 10 \<Longrightarrow> is_digit (digit_char d) \<and> digit_value (digit_char d) = d"
  by (auto simp: is_digit_def digit_value_def digit_char_def)

lemma print_dec_rec: "print_dec n = (if n < 10 then [digit_char n] else print_dec (n div 10) @ [digit_char (n mod 10)])"
  by (simp add: print_dec_def print_base.simps [of 10 n])

lemma print_dec_value: "dec_from 0 (print_dec n) = n \<and> list_all is_digit (print_dec n)"
proof (induction n rule: less_induct)
  case (less n)
  show ?case
  proof (cases "n < 10")
    case True
    then show ?thesis by (simp add: print_dec_rec [of n] digit_char_digit)
  next
    case False
    then have "n div 10 < n" by simp
    from less.IH [OF this] False show ?thesis
      by (simp add: print_dec_rec [of n] dec_from_append digit_char_digit)
  qed
qed

lemma print_dec_nonempty [simp]: "print_dec n \<noteq> []"
  by (simp add: print_dec_def)

lemma delimiter_not_digit: "is_value_delimiter c \<Longrightarrow> \<not> is_digit c"
  by (auto simp: is_value_delimiter_def is_digit_def NUL_def)

lemma deref_not_digit: "\<not> is_digit (deref s) \<Longrightarrow> takeWhile is_digit s = [] \<and> dropWhile is_digit s = s"
  by (cases s) auto

lemma parse_print_dec [scan_simps]:
  assumes "is_value_delimiter (deref rest)"
  shows "parse_uint_value (Some (print_dec n @ rest)) = (if n < 2 ^ 32 then Some (of_nat n) else None)"
proof -
  have rest: "takeWhile is_digit rest = []" "dropWhile is_digit rest = rest"
    using deref_not_digit [OF delimiter_not_digit [OF assms]] by simp_all
  have all: "\<forall>c \<in> set (print_dec n). is_digit c" using print_dec_value by (simp add: list_all_iff)
  have "takeWhile is_digit (print_dec n @ rest) = print_dec n" "dropWhile is_digit (print_dec n @ rest) = rest"
    using all rest by (simp_all add: takeWhile_append2 dropWhile_append2)
  then show ?thesis using assms print_dec_value [of n] by (simp add: parse_uint_eq)
qed

section \<open>Strings\<close>

text \<open>How a client writes a string: quotes and backslashes get a backslash.\<close>

fun escape :: "string \<Rightarrow> string" where
  "escape [] = []"
| "escape (c # cs) = (if c = CHR 0x22 \<or> c = CHR 0x5C then CHR 0x5C # c # escape cs else c # escape cs)"

lemma parse_string_loop_escape:
  "parse_string_loop n (escape s @ CHR 0x22 # rest) out = (if length out + length s < n \<or> s = [] then Some (out @ s) else None)"
proof (induction s arbitrary: out)
  case Nil
  then show ?case by simp
next
  case (Cons c cs)
  have c: "(CHR 0x22 :: char) \<noteq> CHR 0x5C" by simp
  show ?case using Cons.IH [of "out @ [c]"] by auto
qed

lemma parse_string_escape [scan_simps]:
  "parse_string_value (Some (quote (escape s) @ rest)) n = (if length s < n then Some s else None)"
  by (auto simp: parse_string_value_def quote_def parse_string_loop_escape)

lemma parse_string_loop_bound:
  "parse_string_loop n v out = Some s \<Longrightarrow> length out < n \<Longrightarrow> length s < n"
  by (induction n v out rule: parse_string_loop.induct) (auto split: if_splits list.splits)

text \<open>
  A string value is read back exactly as a client escaped it, when it fits the buffer with its
  terminator, and is refused otherwise; and whatever the text, an accepted string fits the buffer.
\<close>

theorem parse_string_round_trip:
  "parse_string_value (Some (quote (escape s) @ rest)) n = (if length s < n then Some s else None)
   \<and> pred_option (\<lambda>t. length t < n) (parse_string_value v n)"
proof
  show "parse_string_value (Some (quote (escape s) @ rest)) n = (if length s < n then Some s else None)"
    by (rule parse_string_escape)
  show "pred_option (\<lambda>t. length t < n) (parse_string_value v n)"
    using parse_string_loop_bound by (cases v) (auto simp: parse_string_value_def pred_option_def split: if_splits)
qed

section \<open>Keys\<close>

definition white :: "string \<Rightarrow> bool" where
  "white s \<longleftrightarrow> list_all is_ws s"

lemma skip_ws_split: "\<exists>ws. white ws \<and> s = ws @ skip_ws s"
proof (induction s)
  case Nil
  then show ?case by (intro exI [of _ "[]"]) (simp add: white_def)
next
  case (Cons c cs)
  then obtain ws where "white ws" "cs = ws @ skip_ws cs" by blast
  then show ?case
    by (intro exI [of _ "if is_ws c then c # ws else []"]) (auto simp: white_def)
qed

lemma skip_ws_white [simp]: "white ws \<Longrightarrow> skip_ws (ws @ s) = skip_ws s"
  by (induction ws) (auto simp: white_def)

lemma skip_ws_start: "\<not> is_ws (deref s) \<Longrightarrow> skip_ws s = s"
  by (cases s) auto

lemma skip_ws_result: "\<not> is_ws (deref (skip_ws s))"
  by (induction s) (auto simp: is_ws_def NUL_def)

lemma strstr_found: "strstr s pat = Some t \<Longrightarrow> \<exists>pre. s = pre @ t \<and> (\<exists>rest. t = pat @ rest)"
proof (induction s)
  case (Cons c cs)
  show ?case
  proof (cases "take (length pat) (c # cs) = pat")
    case True
    then have "c # cs = pat @ drop (length pat) (c # cs)" by (metis append_take_drop_id)
    with True Cons.prems show ?thesis by (intro exI [of _ "[]"]) auto
  next
    case False
    with Cons.prems have "strstr cs pat = Some t" by simp
    from Cons.IH [OF this] obtain pre where "cs = pre @ t" "\<exists>rest. t = pat @ rest" by blast
    then show ?thesis by (intro exI [of _ "c # pre"]) simp
  qed
qed (auto split: if_splits)

lemma find_key_sound:
  "find_key_loop pat p = Some v \<Longrightarrow>
     \<exists>pre ws1 ws2. p = pre @ pat @ ws1 @ CHR '':'' # ws2 @ v \<and> white ws1 \<and> white ws2 \<and> \<not> is_ws (deref v)"
proof (induction pat p rule: find_key_loop.induct)
  case (1 pat p)
  from "1.prems" obtain q where pat: "pat \<noteq> []" and q: "strstr p pat = Some q"
    by (subst (asm) find_key_loop.simps) (auto split: if_splits option.splits)
  from strstr_found [OF q] obtain pre rest where p: "p = pre @ q" "q = pat @ rest" by blast
  obtain ws1 where ws1: "white ws1" "rest = ws1 @ skip_ws rest" using skip_ws_split by blast
  show ?case
  proof (cases "deref (skip_ws rest) = CHR '':''")
    case True
    then have v: "v = skip_ws (tl (skip_ws rest))"
      using "1.prems" pat q p(2) by (subst (asm) find_key_loop.simps) (simp add: Let_def)
    obtain r where r: "skip_ws rest = CHR '':'' # r"
      using True by (cases "skip_ws rest") (auto simp: NUL_def)
    obtain ws2 where "white ws2" "r = ws2 @ skip_ws r" using skip_ws_split by blast
    moreover from this have "r = ws2 @ v" using v r by simp
    ultimately have "p = pre @ pat @ ws1 @ CHR '':'' # ws2 @ v" using p ws1(2) r by simp
    moreover have "\<not> is_ws (deref v)" unfolding v by (rule skip_ws_result)
    ultimately show ?thesis using ws1(1) \<open>white ws2\<close> by blast
  next
    case False
    then have "find_key_loop pat rest = Some v"
      using "1.prems" pat q p(2) by (subst (asm) find_key_loop.simps) (simp add: Let_def)
    then obtain pre' ws1 ws2 where "rest = pre' @ pat @ ws1 @ CHR '':'' # ws2 @ v" "white ws1" "white ws2" "\<not> is_ws (deref v)"
      using "1.IH" [OF pat q refl refl] False p(2) by auto
    then show ?thesis using p
      by (intro exI [of _ "pre @ pat @ pre'"] exI [of _ ws1] exI [of _ ws2]) simp
  qed
qed

text \<open>No occurrence of a pattern starts before position \<open>n\<close>.\<close>

definition none_before :: "nat \<Rightarrow> string \<Rightarrow> string \<Rightarrow> bool" where
  "none_before n pat s \<longleftrightarrow> (\<forall>k < n. take (length pat) (drop k s) \<noteq> pat)"

lemma strstr_first: "none_before (length pre) pat (pre @ pat @ rest) \<Longrightarrow> strstr (pre @ pat @ rest) pat = Some (pat @ rest)"
proof (induction pre)
  case Nil
  have "strstr s pat = Some s" if "take (length pat) s = pat" for s
    using that by (cases s) auto
  then show ?case by simp
next
  case (Cons c pre)
  have "none_before (length pre) pat (pre @ pat @ rest)"
    unfolding none_before_def
  proof (intro allI impI)
    fix k assume "k < length pre"
    then show "take (length pat) (drop k (pre @ pat @ rest)) \<noteq> pat"
      using Cons.prems [unfolded none_before_def, rule_format, of "Suc k"] by simp
  qed
  moreover have "take (length pat) ((c # pre) @ pat @ rest) \<noteq> pat"
    using Cons.prems [unfolded none_before_def, rule_format, of 0] by simp
  ultimately show ?case using Cons.IH by simp
qed

lemma strstr_skip [scan_simps]: "pat \<noteq> [] \<Longrightarrow> hd pat \<notin> set xs \<Longrightarrow> strstr (xs @ ys) pat = strstr ys pat"
  by (induction xs) (auto simp: neq_Nil_conv)

lemma white_skip_colon: "white ws \<Longrightarrow> skip_ws (ws @ CHR '':'' # s) = CHR '':'' # s"
  by (simp add: is_ws_def)

text \<open>
  The search for a key is sound and finds the first occurrence. A value it returns follows an
  occurrence of the quoted key, white space, a colon and white space; and when the first
  occurrence of the quoted key (of at most 37 characters) in the request is followed by a colon,
  with any white space around it, the value after it is the result.
\<close>

theorem find_key_exact:
  assumes "json = pre @ quote key @ ws1 @ CHR '':'' # ws2 @ v" and "white ws1" and "white ws2"
    and "\<not> is_ws (deref v)" and "length key < 38" and "none_before (length pre) (quote key) json"
  shows "find_key_value json key = Some v
    \<and> (find_key_value other key = Some w \<longrightarrow>
        (\<exists>pre ws1 ws2. other = pre @ quote key @ ws1 @ CHR '':'' # ws2 @ w \<and> white ws1 \<and> white ws2))"
proof
  have "strstr json (quote key) = Some (quote key @ ws1 @ CHR '':'' # ws2 @ v)"
    using assms(6) unfolding assms(1) by (rule strstr_first)
  then have "find_key_loop (quote key) json = Some v"
    using assms(2-4) by (subst find_key_loop.simps) (simp add: quote_def white_skip_colon skip_ws_start is_ws_def)
  moreover have "length (quote key) < 40" using assms(5) by (simp add: quote_def)
  ultimately show "find_key_value json key = Some v" by (simp add: find_key_value_def Let_def)
  show "find_key_value other key = Some w \<longrightarrow>
        (\<exists>pre ws1 ws2. other = pre @ quote key @ ws1 @ CHR '':'' # ws2 @ w \<and> white ws1 \<and> white ws2)"
    using find_key_sound [of "quote key" other w] by (auto simp: find_key_value_def Let_def split: if_splits)
qed

theorem find_key_exact_witness: "find_key_value ''{ \"id\" : 5}'' ''id'' = Some ''5}''"
proof -
  have "none_before (length ''{ '') (quote ''id'') ''{ \"id\" : 5}''"
    by (auto simp: none_before_def quote_def less_Suc_eq)
  then show ?thesis
    using find_key_exact [of "''{ \"id\" : 5}''" "''{ ''" "''id''" "'' ''" "'' ''" "''5}''" "''''" "''''"]
    by (simp add: quote_def white_def is_ws_def)
qed

section \<open>Identifiers\<close>

lemma id_string_prefix:
  "id_string_loop n v out = Some t \<Longrightarrow> \<exists>u rest. t = out @ u \<and> v = u @ rest \<and> u \<noteq> [] \<and> length t < n"
proof (induction n v out rule: id_string_loop.induct)
  case (2 n c cs out)
  have "\<not> length out \<ge> n - 1" using "2.prems" by (auto split: if_splits)
  show ?case
  proof (cases "c = CHR 0x5C \<and> cs \<noteq> []")
    case True
    then have "id_string_loop n (tl cs) ((out @ [c]) @ [hd cs]) = Some t" "\<not> length (out @ [c]) \<ge> n - 1"
      using "2.prems" by (auto simp: Let_def split: if_splits)
    then obtain u rest where "t = ((out @ [c]) @ [hd cs]) @ u" "tl cs = u @ rest" "length t < n"
      using "2.IH"(1) [OF \<open>\<not> length out \<ge> n - 1\<close> refl True] by blast
    then show ?thesis using True by (intro exI [of _ "c # hd cs # u"] exI [of _ rest]) (cases cs; simp)
  next
    case no_escape: False
    show ?thesis
    proof (cases "c = CHR 0x22 \<and> length (out @ [c]) > 1")
      case True
      then have "t = out @ [c]" using "2.prems" no_escape by (auto simp: Let_def split: if_splits)
      then show ?thesis using \<open>\<not> length out \<ge> n - 1\<close> by (intro exI [of _ "[c]"] exI [of _ cs]) simp
    next
      case False
      then have "id_string_loop n cs (out @ [c]) = Some t"
        using "2.prems" no_escape by (auto simp: Let_def split: if_splits)
      then obtain u rest where "t = (out @ [c]) @ u" "cs = u @ rest" "length t < n"
        using "2.IH"(2) [OF \<open>\<not> length out \<ge> n - 1\<close> refl no_escape False] by blast
      then show ?thesis by (intro exI [of _ "c # u"] exI [of _ rest]) simp
    qed
  qed
qed simp

lemma id_plain_prefix:
  "id_plain_loop n v out = Some t \<Longrightarrow> length out < n \<Longrightarrow>
     \<exists>u rest. t = out @ u \<and> v = u @ rest \<and> length t < n \<and> list_all (\<lambda>c. \<not> ends_id c) u"
proof (induction n v out rule: id_plain_loop.induct)
  case (2 n c cs out)
  show ?case
  proof (cases "ends_id c")
    case True
    then show ?thesis using "2.prems" by (intro exI [of _ "[]"] exI [of _ "c # cs"]) simp
  next
    case False
    then obtain u rest where "t = (out @ [c]) @ u" "cs = u @ rest" "length t < n" "list_all (\<lambda>c. \<not> ends_id c) u"
      using "2.IH" "2.prems" by (fastforce split: if_splits)
    then show ?thesis using False by (intro exI [of _ "c # u"] exI [of _ rest]) simp
  qed
qed simp

lemma id_string_escape:
  "length out > 0 \<Longrightarrow> length out + length (escape s) + 1 < n \<Longrightarrow>
     id_string_loop n (escape s @ CHR 0x22 # rest) out = Some (out @ escape s @ [CHR 0x22])"
proof (induction s arbitrary: out)
  case (Cons c cs)
  show ?case
  proof (cases "c = CHR 0x22 \<or> c = CHR 0x5C")
    case True
    then show ?thesis using Cons.prems Cons.IH [of "out @ [CHR 0x5C, c]"] by (auto simp: Let_def)
  next
    case False
    then show ?thesis using Cons.prems Cons.IH [of "out @ [c]"] by (auto simp: Let_def)
  qed
qed (auto simp: Let_def)

lemma id_plain_word:
  "list_all (\<lambda>c. \<not> ends_id c) u \<Longrightarrow> rest = [] \<or> ends_id (hd rest) \<Longrightarrow> length out + length u < n \<Longrightarrow>
     id_plain_loop n (u @ rest) out = Some (out @ u)"
proof (induction u arbitrary: out)
  case Nil
  then show ?case by (cases rest) auto
next
  case (Cons c u)
  then show ?case using Cons.IH [of "out @ [c]"] by auto
qed

lemma digit_plain: "is_digit c \<Longrightarrow> \<not> ends_id c \<and> c \<noteq> CHR 0x22"
  by (auto simp: is_digit_def ends_id_def)

lemma print_dec_id:
  assumes "rest = [] \<or> ends_id (hd rest)" and "length (print_dec k) < n"
  shows "id_plain_loop n (print_dec k @ rest) '''' = Some (print_dec k)"
proof -
  have "list_all (\<lambda>c. \<not> ends_id c) (print_dec k)"
    using print_dec_value digit_plain by (auto simp: list_all_iff)
  from id_plain_word [OF this assms(1), of "''''" n] assms(2) show ?thesis by simp
qed

lemma print_dec_hd: "is_digit (hd (print_dec k))"
  using print_dec_value [of k] by (cases "print_dec k") auto

lemma parse_id_number [scan_simps]:
  assumes "find_key_value json ''id'' = Some (print_dec k @ rest)"
    and "rest = [] \<or> ends_id (hd rest)" and "length (print_dec k) < n"
  shows "parse_id_token json n = (True, Some (print_dec k))"
proof -
  have "deref (print_dec k @ rest) \<noteq> CHR 0x22"
    using print_dec_hd [of k] digit_plain by (cases "print_dec k") auto
  then show ?thesis
    using assms print_dec_id [OF assms(2,3)] print_dec_hd [of k] by (simp add: parse_id_token_def)
qed

lemma parse_id_string:
  assumes "find_key_value json ''id'' = Some (quote (escape s) @ rest)" and "length (escape s) < 62"
  shows "parse_id_token json 64 = (True, Some (quote (escape s)))"
  using assms id_string_escape [of "[CHR 0x22]" s 64 rest]
  by (simp add: parse_id_token_def quote_def Let_def)

text \<open>
  The identifier is echoed byte for byte. Whatever follows the key, an accepted identifier is
  a non-empty prefix of it of at most 63 characters; a quoted identifier of any escaped text that
  fits, and a decimal number, are accepted and echoed whole.
\<close>

theorem id_token_echoed:
  assumes "find_key_value json ''id'' = Some v"
  shows "pred_option (\<lambda>t. t \<noteq> [] \<and> length t < 64 \<and> (\<exists>rest. v = t @ rest)) (snd (parse_id_token json 64))
    \<and> (v = quote (escape s) @ rest \<and> length (escape s) < 62 \<longrightarrow> parse_id_token json 64 = (True, Some (quote (escape s))))
    \<and> (v = print_dec k @ rest \<and> (rest = [] \<or> ends_id (hd rest)) \<and> length (print_dec k) < 64 \<longrightarrow>
         parse_id_token json 64 = (True, Some (print_dec k)))"
proof (intro conjI impI)
  show "pred_option (\<lambda>t. t \<noteq> [] \<and> length t < 64 \<and> (\<exists>rest. v = t @ rest)) (snd (parse_id_token json 64))"
  proof (cases "deref v = CHR 0x22")
    case True
    then show ?thesis using assms id_string_prefix [of 64 v "''''"]
      by (auto simp: parse_id_token_def pred_option_def)
  next
    case False
    then show ?thesis using assms id_plain_prefix [of 64 v "''''"]
      by (fastforce simp: parse_id_token_def pred_option_def split: option.splits if_splits)
  qed
  show "parse_id_token json 64 = (True, Some (quote (escape s)))" if "v = quote (escape s) @ rest \<and> length (escape s) < 62"
    using parse_id_string that assms by blast
  show "parse_id_token json 64 = (True, Some (print_dec k))"
    if "v = print_dec k @ rest \<and> (rest = [] \<or> ends_id (hd rest)) \<and> length (print_dec k) < 64"
    using parse_id_number that assms by blast
qed

theorem id_token_echoed_witness: "parse_id_token ''{\"id\":\"a b\"}'' 64 = (True, Some ''\"a b\"'')"
proof -
  have find: "find_key_value ''{\"id\":\"a b\"}'' ''id'' = Some ''\"a b\"}''"
    by (simp add: find_key_value_def find_key_loop.simps quote_def is_ws_def Let_def)
  show ?thesis
    using id_token_echoed [OF find, of "''a b''" "''}''" 0] by (simp add: quote_def)
qed

text \<open>
  Two things the scanner accepts that JSON does not mean: an \<open>id\<close> inside \<open>params\<close> is taken for the
  identifier of the request, and a token that only begins like a number is taken for a number.
\<close>

lemma nested_id_found: "parse_id_token ''{\"jsonrpc\":\"2.0\",\"method\":\"heating.get\",\"params\":{\"id\":7}}'' 64 = (True, Some ''7'')"
  by code_simp

lemma id_not_json: "parse_id_token ''{\"id\":1]}'' 64 = (True, Some ''1]'')"
  by code_simp

end
