(* ===== verification/Rpc_Output.thy ===== *)
theory Rpc_Output
  imports Device Json_Scan
begin

text \<open>
  The output half of \<open>main/serial_console.c\<close>: the line printer shared by UART and BLE, the JSON-RPC
  responses and the formatting of values that may be absent. A formatted text is the list of its
  parts; the buffers of \<open>vsnprintf\<close> cut it where they end.
\<close>

section \<open>Data\<close>

definition JSONRPC_ID_BUF_SIZE :: nat where "JSONRPC_ID_BUF_SIZE = 64"
definition JSONRPC_METHOD_BUF_SIZE :: nat where "JSONRPC_METHOD_BUF_SIZE = 48"
definition JSONRPC_RESULT_BUF_SIZE :: nat where "JSONRPC_RESULT_BUF_SIZE = 1536"
definition SERIAL_OUTPUT_BUF_SIZE :: nat where "SERIAL_OUTPUT_BUF_SIZE = 2048"

definition JSONRPC_PARSE_ERROR :: int where "JSONRPC_PARSE_ERROR = -32700"
definition JSONRPC_INVALID_REQUEST :: int where "JSONRPC_INVALID_REQUEST = -32600"
definition JSONRPC_METHOD_NOT_FOUND :: int where "JSONRPC_METHOD_NOT_FOUND = -32601"
definition JSONRPC_INVALID_PARAMS :: int where "JSONRPC_INVALID_PARAMS = -32602"
definition JSONRPC_SERVER_ERROR :: int where "JSONRPC_SERVER_ERROR = -32000"

abbreviation newline :: string where
  "newline \<equiv> [CHR 0x0A]"

section \<open>Operations\<close>

text \<open>
  The text reaches \<open>uart_write_bytes\<close> and the BLE peers from the same buffer, under the write lock
  when it exists.
\<close>

definition meb_serial_printf :: "answers \<Rightarrow> moment \<Rightarrow> string list \<Rightarrow> ('c, 'n) device \<Rightarrow> ('c, 'n) device" where
  "meb_serial_printf a m parts dv =
     (let buf = snprintf SERIAL_OUTPUT_BUF_SIZE (concat parts);
          (sent, d) = meb_ble_console_write (pa_reading a m) (pa_notify a m) buf (dv_ble dv, dv_diag dv)
      in effects [Written \<lparr>sw_text = buf, sw_uart = pa_uart_installed a, sw_ble = sent\<rparr>] (on_diag (\<lambda>_. d) dv))"

definition send_rpc_error :: "answers \<Rightarrow> string option \<Rightarrow> int \<Rightarrow> string \<Rightarrow> ('c, 'n) device \<Rightarrow> ('c, 'n) device" where
  "send_rpc_error a id_token code message =
     meb_serial_printf a AtPrint
       [''{\"jsonrpc\":\"2.0\",\"id\":'', (case id_token of Some t \<Rightarrow> t | None \<Rightarrow> ''null''),
        '',\"error\":{\"code\":'', print_int code, '',\"message\":\"'', message, ''\"}}'', newline]"

text \<open>\<open>vsnprintf\<close> answers the length of the whole text, here of the parts of the result.\<close>

definition send_rpc_result ::
    "answers \<Rightarrow> bool \<Rightarrow> string \<Rightarrow> string list \<Rightarrow> ('c, 'n) device \<Rightarrow> ('c, 'n) device" where
  "send_rpc_result a has_id id_token result_parts dv =
     (if \<not> has_id then dv
      else let len = length (concat result_parts); result = snprintf JSONRPC_RESULT_BUF_SIZE (concat result_parts) in
      if len \<ge> JSONRPC_RESULT_BUF_SIZE
      then send_rpc_error a (Some id_token) JSONRPC_INVALID_REQUEST ''Response too large'' dv
      else meb_serial_printf a AtPrint
             [''{\"jsonrpc\":\"2.0\",\"id\":'', id_token, '',\"result\":'', result, ''}'', newline] dv)"

definition format_auto_off_remaining :: "meb_state_snapshot \<Rightarrow> nat \<Rightarrow> string" where
  "format_auto_off_remaining state buf_len =
     (if nv_valid (auto_off_remaining_minutes state)
      then snprintf buf_len (print_dec (unat (nv_value (auto_off_remaining_minutes state))))
      else snprintf buf_len ''null'')"

definition format_u8_or_null :: "bool \<Rightarrow> u8 \<Rightarrow> nat \<Rightarrow> string" where
  "format_u8_or_null valid value buf_len =
     (if valid then snprintf buf_len (print_dec (unat value)) else snprintf buf_len ''null'')"

definition format_double_or_null :: "bool \<Rightarrow> double \<Rightarrow> nat \<Rightarrow> string" where
  "format_double_or_null valid value buf_len =
     (if valid then snprintf buf_len (print_f1 value) else snprintf buf_len ''null'')"

section \<open>What is printed\<close>

text \<open>A printed text that fits the buffer is printed whole; nothing but the trace and the log moves.\<close>

lemma meb_serial_printf_frame [frame_simps]:
  "dv_app (meb_serial_printf a m parts dv) = dv_app dv" "dv_can (meb_serial_printf a m parts dv) = dv_can dv"
  "dv_ble (meb_serial_printf a m parts dv) = dv_ble dv" "dv_settings (meb_serial_printf a m parts dv) = dv_settings dv"
  "dv_telemetry_interval_ms (meb_serial_printf a m parts dv) = dv_telemetry_interval_ms dv"
  "dv_ota (meb_serial_printf a m parts dv) = dv_ota dv"
  by (simp_all add: meb_serial_printf_def Let_def split_beta frame_simps)

lemma printed_printf [frame_simps]:
  "printed (meb_serial_printf a m parts dv) = printed dv @ [snprintf SERIAL_OUTPUT_BUF_SIZE (concat parts)]"
  by (simp add: meb_serial_printf_def printed_def Let_def split_beta frame_simps)

lemma acts_printf [frame_simps]:
  "acts_of (dv_trace (meb_serial_printf a m parts dv)) = acts_of (dv_trace dv)"
  by (simp add: meb_serial_printf_def Let_def split_beta frame_simps)

lemma silent_printf [frame_simps]: "silent (meb_serial_printf a m parts dv) = silent dv"
  by (simp add: meb_serial_printf_def silent_def effects_def on_diag_def Let_def split_beta)

text \<open>The responses of the protocol as texts.\<close>

definition error_line :: "string \<Rightarrow> int \<Rightarrow> string \<Rightarrow> string" where
  "error_line t code message =
     ''{\"jsonrpc\":\"2.0\",\"id\":'' @ t @ '',\"error\":{\"code\":'' @ print_int code
       @ '',\"message\":\"'' @ message @ ''\"}}'' @ newline"

definition result_line :: "string \<Rightarrow> string \<Rightarrow> string" where
  "result_line t result =
     ''{\"jsonrpc\":\"2.0\",\"id\":'' @ t @ '',\"result\":'' @ result @ ''}'' @ newline"

lemma silent_send_rpc_error [frame_simps]: "silent (send_rpc_error a t code message dv) = silent dv"
  by (simp add: send_rpc_error_def frame_simps)

lemma silent_send_rpc_result [frame_simps]: "silent (send_rpc_result a has_id t parts dv) = silent dv"
  by (simp add: send_rpc_result_def Let_def frame_simps)

text \<open>Error codes have at most six characters, and the messages of the firmware at most 60.\<close>

definition rpc_code :: "int \<Rightarrow> bool" where
  "rpc_code code \<longleftrightarrow> code \<in> {JSONRPC_PARSE_ERROR, JSONRPC_INVALID_REQUEST, JSONRPC_METHOD_NOT_FOUND,
     JSONRPC_INVALID_PARAMS, JSONRPC_SERVER_ERROR}"

lemma print_dec_bound: "n < 10 ^ Suc k \<Longrightarrow> length (print_dec n) \<le> Suc k"
  unfolding print_dec_def by (rule print_base_length) simp_all

lemma rpc_code_length: "rpc_code code \<Longrightarrow> length (print_int code) \<le> 6"
  using print_dec_bound [of "nat (- code)" 4]
  by (auto simp: rpc_code_def print_int_def JSONRPC_PARSE_ERROR_def JSONRPC_INVALID_REQUEST_def
      JSONRPC_METHOD_NOT_FOUND_def JSONRPC_INVALID_PARAMS_def JSONRPC_SERVER_ERROR_def)

lemma printed_error:
  assumes "length t < 64" and "rpc_code code" and "length message < 100"
  shows "printed (send_rpc_error a (Some t) code message dv) = printed dv @ [error_line t code message]"
  using assms rpc_code_length [OF assms(2)]
  by (simp add: send_rpc_error_def error_line_def frame_simps SERIAL_OUTPUT_BUF_SIZE_def)

lemma printed_result:
  assumes "length t < 64"
  shows "printed (send_rpc_result a has_id t parts dv) = printed dv @
    (if \<not> has_id then []
     else if length (concat parts) < JSONRPC_RESULT_BUF_SIZE then [result_line t (concat parts)]
     else [error_line t JSONRPC_INVALID_REQUEST ''Response too large''])"
proof -
  have "rpc_code JSONRPC_INVALID_REQUEST" by (simp add: rpc_code_def)
  from printed_error [OF assms this, of "''Response too large''" a dv] show ?thesis using assms
    by (simp add: send_rpc_result_def result_line_def frame_simps Let_def SERIAL_OUTPUT_BUF_SIZE_def
        JSONRPC_RESULT_BUF_SIZE_def)
qed

lemma value_texts_short:
  "length (format_auto_off_remaining state 16) \<le> 15" "length (format_u8_or_null b v 16) \<le> 15"
  "length (format_double_or_null b x 16) \<le> 15"
  by (simp_all add: format_auto_off_remaining_def format_u8_or_null_def format_double_or_null_def snprintf_def)

lemma bool_text_length: "length (bool_text b) \<le> 5"
  by (simp add: bool_text_def)

end
