(* ===== verification/Control.thy ===== *)
theory Control
  imports Rpc_Output
begin

text \<open>
  \<open>main/control.c\<close>: the telemetry interval (in memory, and kept by the settings module), the
  control task that switches heating off when it is due and sends the heating request, and the
  telemetry task. One turn of a task's endless loop is one function; the control task's turn is
  cut where other tasks may act between its parts.
\<close>

section \<open>The telemetry interval\<close>


definition MEB_BMS_SOC_POLL_PERIOD_MS :: int where "MEB_BMS_SOC_POLL_PERIOD_MS = 5000"
definition MEB_TEMPERATURE_STATUS_UNDER_OPTIMAL :: u8 where "MEB_TEMPERATURE_STATUS_UNDER_OPTIMAL = 1"
definition MEB_PREHEATER_PROTOCOL_VERSION :: int where "MEB_PREHEATER_PROTOCOL_VERSION = 2"

definition telemetry_interval_is_valid :: "u32 \<Rightarrow> bool" where
  "telemetry_interval_is_valid interval_ms \<longleftrightarrow>
     interval_ms \<ge> MEB_TELEMETRY_MIN_PERIOD_MS \<and> interval_ms \<le> MEB_TELEMETRY_MAX_PERIOD_MS"

definition set_telemetry_interval_in_memory :: "u32 \<Rightarrow> ('c, 'n) device \<Rightarrow> ('c, 'n) device" where
  "set_telemetry_interval_in_memory interval_ms dv = dv\<lparr>dv_telemetry_interval_ms := interval_ms\<rparr>"

definition meb_control_get_telemetry_interval_ms :: "('c, 'n) device \<Rightarrow> u32" where
  "meb_control_get_telemetry_interval_ms dv = dv_telemetry_interval_ms dv"

definition interval_event :: "answers \<Rightarrow> string \<Rightarrow> u32 \<Rightarrow> ('c, 'n) device \<Rightarrow> ('c, 'n) device" where
  "interval_event a name interval_ms =
     on_diag (meb_diag_record_eventf (pa_reading a AtEvent) ''control'' name
       (Some (''ms='' @ print_dec (unat interval_ms))))"

definition meb_control_set_telemetry_interval_ms ::
    "('c, 'n) platform \<Rightarrow> answers \<Rightarrow> u32 \<Rightarrow> ('c, 'n) device \<Rightarrow> esp_err \<times> ('c, 'n) device" where
  "meb_control_set_telemetry_interval_ms pf a interval_ms dv =
     (if \<not> telemetry_interval_is_valid interval_ms then (ESP_ERR_INVALID_ARG, dv)
      else let (err, st) = meb_settings_set_telemetry_interval_ms (pf_nvs pf) interval_ms (dv_settings dv);
               dv1 = dv\<lparr>dv_settings := st\<rparr> in
      if err \<noteq> ESP_OK then (err, dv1)
      else (ESP_OK, interval_event a ''telemetry_interval'' interval_ms
                      (set_telemetry_interval_in_memory interval_ms dv1)))"

definition load_telemetry_interval_setting ::
    "('c, 'n) platform \<Rightarrow> answers \<Rightarrow> ('c, 'n) device \<Rightarrow> esp_err \<times> ('c, 'n) device" where
  "load_telemetry_interval_setting pf a dv =
     (let (result, st) = meb_settings_get_telemetry_interval_ms (pf_nvs pf) (dv_settings dv);
          dv1 = dv\<lparr>dv_settings := st\<rparr>
      in case result of
        Inl err \<Rightarrow> if err = ESP_ERR_NVS_NOT_FOUND then (ESP_OK, dv1) else (err, dv1)
      | Inr interval_ms \<Rightarrow>
          if \<not> telemetry_interval_is_valid interval_ms
          then (ESP_OK, interval_event a ''telemetry_interval_invalid'' interval_ms dv1)
          else (ESP_OK, interval_event a ''telemetry_interval_loaded'' interval_ms
                          (set_telemetry_interval_in_memory interval_ms dv1)))"

section \<open>Values that may be absent\<close>

definition control_format_u8_or_null :: "bool \<Rightarrow> u8 \<Rightarrow> nat \<Rightarrow> string" where
  "control_format_u8_or_null valid value buf_len =
     (if valid then snprintf buf_len (print_dec (unat value)) else snprintf buf_len ''null'')"

definition format_u32_or_null :: "bool \<Rightarrow> u32 \<Rightarrow> nat \<Rightarrow> string" where
  "format_u32_or_null valid value buf_len =
     (if valid then snprintf buf_len (print_dec (unat value)) else snprintf buf_len ''null'')"

definition control_format_double_or_null :: "bool \<Rightarrow> double \<Rightarrow> nat \<Rightarrow> string" where
  "control_format_double_or_null valid value buf_len =
     (if valid then snprintf buf_len (print_f1 value) else snprintf buf_len ''null'')"

section \<open>The control task\<close>

text \<open>The first part of a turn: heating is switched off when it is due, which is reported.\<close>

definition control_auto_off :: "('c, 'n) platform \<Rightarrow> answers \<Rightarrow> ('c, 'n) device \<Rightarrow> ('c, 'n) device" where
  "control_auto_off pf a dv =
     (let (auto_off_reason, st) = meb_state_apply_auto_off (pf_config pf) (pa_time a AtChange) (dv_app dv);
          dv1 = dv\<lparr>dv_app := st\<rparr>
      in if auto_off_reason \<noteq> MEB_HEATING_AUTO_OFF_NONE
         then let reason = (if auto_off_reason = MEB_HEATING_AUTO_OFF_TIMER then ''timer'' else ''safety'') in
           meb_serial_printf a AtPrint
             [''{\"v\":'', print_int MEB_PREHEATER_PROTOCOL_VERSION,
              '',\"type\":\"control.heating_auto_off\",\"reason\":\"'', reason, ''\"}'', newline]
             (on_diag (meb_diag_record_eventf (pa_reading a AtEvent) ''control'' ''heating_auto_off''
                         (Some (''reason='' @ reason))) dv1)
         else dv1)"

text \<open>The second part, on the snapshot \<open>state\<close> taken between the two.\<close>

definition control_act :: "('c, 'n) platform \<Rightarrow> answers \<Rightarrow> meb_state_snapshot \<Rightarrow> ('c, 'n) device \<Rightarrow> ('c, 'n) device" where
  "control_act pf a state dv =
     (if heating_enabled state \<and> nv_valid (temperature_status_charge state) \<and>
         nv_value (temperature_status_charge state) = MEB_TEMPERATURE_STATUS_UNDER_OPTIMAL
      then let (taken, st) = meb_state_take_session_error (dv_app dv); dv1 = dv\<lparr>dv_app := st\<rparr> in
        if taken
        then snd (can_send pf a DiagSession
               (meb_serial_printf a AtRetry
                  [''{\"v\":'', print_int MEB_PREHEATER_PROTOCOL_VERSION, '',\"type\":\"control.diag_session_retry\"}'', newline]
                  (on_diag (meb_diag_record_event (pa_reading a AtRetry) (Some ''control'')
                              (Some ''diag_session_retry'') (Some '''')) dv1)))
        else snd (can_send pf a HeatRequest dv1)
      else dv)"

definition control_task :: "('c, 'n) platform \<Rightarrow> answers \<Rightarrow> ('c, 'n) device \<Rightarrow> ('c, 'n) device" where
  "control_task pf a dv =
     (let dv1 = control_auto_off pf a dv
      in control_act pf a (meb_state_get_snapshot (pf_config pf) (pa_time a AtSnapshot) (dv_app dv1)) dv1)"

section \<open>The telemetry task\<close>

definition telemetry_parts :: "meb_state_snapshot \<Rightarrow> u64 \<Rightarrow> string list" where
  "telemetry_parts state ts_ms =
     (let remaining_minutes = format_u32_or_null (nv_valid (auto_off_remaining_minutes state))
            (nv_value (auto_off_remaining_minutes state)) 16;
          soc = control_format_double_or_null (nv_valid (bms_soc_percent state)) (nv_value (bms_soc_percent state)) 16;
          h = heating_status state;
          u8_text = (\<lambda>v. control_format_u8_or_null (hs_valid h) v 16);
          temperature_status = control_format_u8_or_null (nv_valid (temperature_status_charge state))
            (nv_value (temperature_status_charge state)) 16;
          limit = (\<lambda>v. control_format_double_or_null (cl_valid (charge_limits state)) v 16);
          celsius = (\<lambda>v. control_format_double_or_null (bt_valid (battery_temperature state)) v 16)
      in [''{\"v\":'', print_int MEB_PREHEATER_PROTOCOL_VERSION,
          '',\"type\":\"telemetry\",\"ts_ms\":'', print_dec (unat ts_ms),
          '',\"battery\":{\"soc_bms_percent\":'', soc,
          ''},\"heating\":{\"active\":'', u8_text (hs_active h),
          '',\"request\":'', u8_text (hs_request h),
          '',\"cooling_request\":'', u8_text (hs_cooling_request h),
          '',\"power_w\":'', u8_text (hs_power_w h),
          '',\"power_req_w\":'', u8_text (hs_power_req_w h),
          ''},\"thermal\":{\"status\":'', temperature_status,
          ''},\"predicted\":{\"power_kw\":'', limit (cl_power_kw (charge_limits state)),
          '',\"current_a\":'', limit (cl_current_a (charge_limits state)),
          ''},\"battery_temp_c\":{\"min\":'', celsius (bt_min_c (battery_temperature state)),
          '',\"max\":'', celsius (bt_max_c (battery_temperature state)),
          ''},\"control\":{\"heating_enabled\":'', bool_text (heating_enabled state),
          '',\"auto_off_timer_minutes\":'', print_dec (unat (auto_off_timer_minutes state)),
          '',\"auto_off_remaining_minutes\":'', remaining_minutes, ''}}'', newline])"

text \<open>
  One turn, with the task's local variable \<open>last_soc_request_us\<close>; the answer is the delay before the
  next turn, the variable's new value and the device.
\<close>

definition telemetry_task ::
    "('c, 'n) platform \<Rightarrow> answers \<Rightarrow> int \<times> ('c, 'n) device \<Rightarrow> u32 \<times> int \<times> ('c, 'n) device" where
  "telemetry_task pf a = (\<lambda>(last_soc_request_us, dv).
     (let interval_ms = meb_control_get_telemetry_interval_ms dv;
          now_us = pa_time a AtChange;
          (last_soc_request_us, dv1) =
            (if now_us - last_soc_request_us \<ge> MEB_BMS_SOC_POLL_PERIOD_MS * 1000
             then let (err, dv1) = can_send pf a BmsSoc dv in
               ((if err = ESP_OK then now_us else last_soc_request_us), dv1)
             else (last_soc_request_us, dv));
          state = meb_state_get_snapshot (pf_config pf) (pa_time a AtSnapshot) (dv_app dv1);
          dv2 = meb_serial_printf a AtPrint (telemetry_parts state (uptime_ms (pa_reading a AtEvent))) dv1
      in (interval_ms, last_soc_request_us, dv2)))"

definition telemetry_first_soc_us :: int where
  "telemetry_first_soc_us = - (MEB_BMS_SOC_POLL_PERIOD_MS * 1000)"

definition meb_control_start ::
    "('c, 'n) platform \<Rightarrow> answers \<Rightarrow> bool \<Rightarrow> bool \<Rightarrow> ('c, 'n) device \<Rightarrow> esp_err \<times> ('c, 'n) device" where
  "meb_control_start pf a control_created telemetry_created dv =
     (let (err, dv1) = load_telemetry_interval_setting pf a dv in
      if err \<noteq> ESP_OK then (err, dv1)
      else if \<not> control_created then (ESP_ERR_NO_MEM, dv1)
      else if \<not> telemetry_created then (ESP_ERR_NO_MEM, dv1)
      else (ESP_OK, dv1))"

section \<open>What a turn of the control task does\<close>

text \<open>The CAN requests among the effects, in order.\<close>

fun request_of :: "effect \<Rightarrow> can_request option" where
  "request_of (CanRequest k e) = Some k"
| "request_of _ = None"

definition requests_of :: "effect list \<Rightarrow> can_request list" where
  "requests_of es = List.map_filter request_of es"

lemma requests_of_append [simp]: "requests_of (xs @ ys) = requests_of xs @ requests_of ys"
  by (simp add: requests_of_def List.map_filter_def)

lemma requests_of_simps [simp]:
  "requests_of [] = []" "requests_of (Written w # es) = requests_of es"
  "requests_of (FlashCall c # es) = requests_of es" "requests_of (CanRequest k e # es) = k # requests_of es"
  "requests_of (RestartIn n # es) = requests_of es"
  by (simp_all add: requests_of_def List.map_filter_def)

lemma requests_printf [frame_simps]:
  "requests_of (dv_trace (meb_serial_printf a m parts dv)) = requests_of (dv_trace dv)"
  by (simp add: meb_serial_printf_def Let_def split_beta frame_simps)

lemma control_auto_off_frame [frame_simps]:
  "dv_app (control_auto_off pf a dv) = snd (meb_state_apply_auto_off (pf_config pf) (pa_time a AtChange) (dv_app dv))"
  "requests_of (dv_trace (control_auto_off pf a dv)) = requests_of (dv_trace dv)"
  "dv_ota (control_auto_off pf a dv) = dv_ota dv" "dv_settings (control_auto_off pf a dv) = dv_settings dv"
  "dv_telemetry_interval_ms (control_auto_off pf a dv) = dv_telemetry_interval_ms dv"
  "dv_can (control_auto_off pf a dv) = dv_can dv" "dv_ble (control_auto_off pf a dv) = dv_ble dv"
  by (simp_all add: control_auto_off_def split_beta Let_def frame_simps)

definition wants_heat :: "meb_state_snapshot \<Rightarrow> bool" where
  "wants_heat state \<longleftrightarrow> heating_enabled state \<and> nv_valid (temperature_status_charge state) \<and>
     nv_value (temperature_status_charge state) = MEB_TEMPERATURE_STATUS_UNDER_OPTIMAL"

lemma control_act_requests [frame_simps]:
  "requests_of (dv_trace (control_act pf a state dv)) = requests_of (dv_trace dv) @
     (if wants_heat state then [if session_error (s_state (dv_app dv)) then DiagSession else HeatRequest] else [])"
  by (simp add: control_act_def wants_heat_def meb_state_take_session_error_def Let_def frame_simps)

lemma control_act_app [frame_simps]:
  "dv_app (control_act pf a state dv) =
     (if wants_heat state then snd (meb_state_take_session_error (dv_app dv)) else dv_app dv)"
  by (simp add: control_act_def wants_heat_def meb_state_take_session_error_def Let_def frame_simps)

lemma control_act_frame [frame_simps]:
  "dv_ota (control_act pf a state dv) = dv_ota dv" "dv_settings (control_act pf a state dv) = dv_settings dv"
  "dv_telemetry_interval_ms (control_act pf a state dv) = dv_telemetry_interval_ms dv"
  "dv_ble (control_act pf a state dv) = dv_ble dv"
  by (simp_all add: control_act_def meb_state_take_session_error_def Let_def frame_simps)

text \<open>Heating is due to end at \<open>t\<close>.\<close>

definition heating_due :: "build_config \<Rightarrow> int \<Rightarrow> app_state \<Rightarrow> bool" where
  "heating_due cfg t st \<longleftrightarrow>
     (let due = effective_auto_off_deadline_locked cfg st in 0 < due \<and> due \<le> t)"

text \<open>
  C10: A turn of the control task sends a request to the battery exactly when heating is on and not
  due to end, the car's thermal status was received less than 30 seconds ago and says that the
  battery is below its target. The request is the heating request, or the diagnostic session when
  the car rejected the last one, and one turn sends at most one. When heating is due to end it is
  off after the turn.
\<close>

theorem heat_request_exact:
  assumes "app_inv (dv_app dv)"
  shows "requests_of (dv_trace (control_task pf a dv)) = requests_of (dv_trace dv) @
      (let st = dv_app dv; status = temperature_status_charge (s_state st)
       in if heating_enabled (s_state st) \<and> \<not> heating_due (pf_config pf) (pa_time a AtChange) st \<and>
             nv_valid status \<and> pa_time a AtSnapshot < s_temperature_status_charge_seen_us st + 30000000 \<and>
             nv_value status = 1
          then [if session_error (s_state st) then DiagSession else HeatRequest] else [])
    \<and> heating_enabled (s_state (dv_app (control_task pf a dv))) =
      (heating_enabled (s_state (dv_app dv)) \<and> \<not> heating_due (pf_config pf) (pa_time a AtChange) (dv_app dv))"
proof -
  let ?st = "dv_app dv" and ?cfg = "pf_config pf"
  let ?st1 = "snd (meb_state_apply_auto_off ?cfg (pa_time a AtChange) ?st)"
  have off: "?st1 = (if heating_enabled (s_state ?st) \<and> heating_due ?cfg (pa_time a AtChange) ?st
      then set_heating_locked (pa_time a AtChange) False ?st else ?st)"
    using assms by (simp add: apply_auto_off_eq heating_due_def Let_def)
  have seen: "0 < s_temperature_status_charge_seen_us ?st" if "nv_valid (temperature_status_charge (s_state ?st))"
    using assms that by (simp add: app_inv_def signals_inv_def Let_def)
  show ?thesis
    using seen
    by (auto simp: control_task_def Let_def frame_simps off wants_heat_def snapshot_control snapshot_signals
        can_signal_is_fresh_def time_defs MEB_TEMPERATURE_STATUS_UNDER_OPTIMAL_def set_heating_locked_def
        meb_state_take_session_error_def)
qed

theorem heat_request_exact_witness:
  "requests_of (dv_trace (control_task bench_platform (bench_answers 40000000) (bench_device\<lparr>dv_app :=
      set_heating_locked 30000000 True (meb_state_update_charging_optimization 20000000 (Some [0, 128, 0]) 3 app_boot_state)\<rparr>)))
   = [HeatRequest]"
proof -
  let ?st0 = "meb_state_update_charging_optimization 20000000 (Some [0, 128, 0]) 3 app_boot_state"
  let ?dv = "bench_device\<lparr>dv_app := set_heating_locked 30000000 True ?st0\<rparr>"
  have "app_inv (app_boot_state\<lparr>s_state_lock := False\<rparr>)" by (rule app_boot_inv)
  then have "app_inv (snd (meb_state_apply_auto_off default_config 0 ?st0))"
    by (intro inv_intros) (simp_all add: app_boot_state_def)
  then have "app_inv ?st0" by (simp add: meb_state_apply_auto_off_def meb_state_update_charging_optimization_def
        app_boot_state_def zero_snapshot_def)
  then have "app_inv (dv_app ?dv)" by (simp add: set_heating_inv)
  from heat_request_exact [OF this, of bench_platform "bench_answers 40000000"] show ?thesis
    by (simp add: device_boot_state_def bench_platform_def bench_answers_def set_heating_locked_def
        meb_state_update_charging_optimization_def app_boot_state_def zero_snapshot_def heating_due_def
        default_config_def app_defs time_defs)
qed

section \<open>What a turn of the telemetry task does\<close>

lemma telemetry_parts_length: "length (concat (telemetry_parts state ts)) < SERIAL_OUTPUT_BUF_SIZE"
proof -
  have v: "length (control_format_u8_or_null b x 16) \<le> 15" "length (control_format_double_or_null b' y 16) \<le> 15"
    "length (format_u32_or_null b'' z 16) \<le> 15" for b x b' y b'' z
    by (simp_all add: control_format_u8_or_null_def control_format_double_or_null_def format_u32_or_null_def snprintf_def)
  have p: "print_int MEB_PREHEATER_PROTOCOL_VERSION = ''2''"
    by (simp add: print_int_def MEB_PREHEATER_PROTOCOL_VERSION_def print_dec_def print_base.simps digit_char_def) code_simp
  let ?h = "heating_status state" and ?l = "charge_limits state" and ?b = "battery_temperature state"
  show ?thesis
    using v(3) [of "nv_valid (auto_off_remaining_minutes state)" "nv_value (auto_off_remaining_minutes state)"]
      v(2) [of "nv_valid (bms_soc_percent state)" "nv_value (bms_soc_percent state)"]
      v(1) [of "hs_valid ?h" "hs_active ?h"] v(1) [of "hs_valid ?h" "hs_request ?h"]
      v(1) [of "hs_valid ?h" "hs_cooling_request ?h"] v(1) [of "hs_valid ?h" "hs_power_w ?h"]
      v(1) [of "hs_valid ?h" "hs_power_req_w ?h"]
      v(1) [of "nv_valid (temperature_status_charge state)" "nv_value (temperature_status_charge state)"]
      v(2) [of "cl_valid ?l" "cl_power_kw ?l"] v(2) [of "cl_valid ?l" "cl_current_a ?l"]
      v(2) [of "bt_valid ?b" "bt_min_c ?b"] v(2) [of "bt_valid ?b" "bt_max_c ?b"]
      bool_text_length [of "heating_enabled state"] print_dec_u32 [of "auto_off_timer_minutes state"]
      print_dec_u64 [of ts]
    by (simp add: telemetry_parts_def Let_def SERIAL_OUTPUT_BUF_SIZE_def p)
qed

lemma telemetry_frame:
  "printed (snd (snd (telemetry_task pf a (last_us, dv)))) = printed dv @
     [concat (telemetry_parts (meb_state_get_snapshot (pf_config pf) (pa_time a AtSnapshot) (dv_app dv))
        (uptime_ms (pa_reading a AtEvent)))]"
  "dv_app (snd (snd (telemetry_task pf a (last_us, dv)))) = dv_app dv"
  "dv_ota (snd (snd (telemetry_task pf a (last_us, dv)))) = dv_ota dv"
  "dv_ble (snd (snd (telemetry_task pf a (last_us, dv)))) = dv_ble dv"
  "dv_settings (snd (snd (telemetry_task pf a (last_us, dv)))) = dv_settings dv"
  "dv_telemetry_interval_ms (snd (snd (telemetry_task pf a (last_us, dv)))) = dv_telemetry_interval_ms dv"
  "fst (telemetry_task pf a (last_us, dv)) = dv_telemetry_interval_ms dv"
  using telemetry_parts_length
  by (simp_all add: telemetry_task_def meb_control_get_telemetry_interval_ms_def Let_def split_beta frame_simps)
    (simp add: printed_def frame_simps)

lemma acts_telemetry:
  "acts_of (dv_trace (snd (snd (telemetry_task pf a (last_us, dv))))) = acts_of (dv_trace dv) @
     (if MEB_BMS_SOC_POLL_PERIOD_MS * 1000 \<le> pa_time a AtChange - last_us
      then [CanRequest BmsSoc (fst (can_send pf a BmsSoc dv))] else [])"
  by (simp add: telemetry_task_def Let_def split_beta frame_simps)

text \<open>
  The moments of the polls the CAN driver accepted in a sequence of turns; each turn finds the
  device as the other tasks left it.
\<close>

definition soc_polled :: "('c, 'n) device \<Rightarrow> ('c, 'n) device \<Rightarrow> bool" where
  "soc_polled dv dv' \<longleftrightarrow> CanRequest BmsSoc ESP_OK \<in> set (drop (length (dv_trace dv)) (dv_trace dv'))"

fun soc_polls :: "('c, 'n) platform \<Rightarrow> int \<Rightarrow> (answers \<times> ('c, 'n) device) list \<Rightarrow> int list" where
  "soc_polls pf last_us [] = []"
| "soc_polls pf last_us ((a, dv) # turns) =
     (let (interval, last', dv') = telemetry_task pf a (last_us, dv)
      in (if soc_polled dv dv' then [pa_time a AtChange] else []) @ soc_polls pf last' turns)"

lemma telemetry_poll:
  "fst (snd (telemetry_task pf a (last_us, dv))) =
     (if soc_polled dv (snd (snd (telemetry_task pf a (last_us, dv)))) then pa_time a AtChange else last_us)"
  "soc_polled dv (snd (snd (telemetry_task pf a (last_us, dv)))) \<longleftrightarrow>
     5000000 \<le> pa_time a AtChange - last_us \<and> fst (can_send pf a BmsSoc dv) = ESP_OK"
proof -
  have t: "dv_trace (meb_serial_printf a m parts dv) =
      dv_trace dv @ [Written \<lparr>sw_text = snprintf SERIAL_OUTPUT_BUF_SIZE (concat parts), sw_uart = pa_uart_installed a,
        sw_ble = fst (meb_ble_console_write (pa_reading a m) (pa_notify a m)
          (snprintf SERIAL_OUTPUT_BUF_SIZE (concat parts)) (dv_ble dv, dv_diag dv))\<rparr>]"
    for m parts and dv :: "('a, 'b) device"
    by (simp add: meb_serial_printf_def Let_def split_beta frame_simps)
  show "soc_polled dv (snd (snd (telemetry_task pf a (last_us, dv)))) \<longleftrightarrow>
      5000000 \<le> pa_time a AtChange - last_us \<and> fst (can_send pf a BmsSoc dv) = ESP_OK"
    by (auto simp: soc_polled_def telemetry_task_def Let_def split_beta t frame_simps MEB_BMS_SOC_POLL_PERIOD_MS_def)
  then show "fst (snd (telemetry_task pf a (last_us, dv))) =
     (if soc_polled dv (snd (snd (telemetry_task pf a (last_us, dv)))) then pa_time a AtChange else last_us)"
    by (simp add: telemetry_task_def Let_def split_beta MEB_BMS_SOC_POLL_PERIOD_MS_def)
qed

lemma soc_polls_spaced_from:
  "sorted_wrt (\<lambda>x y. x + 5000000 \<le> y) (last_us # soc_polls pf last_us turns)"
proof (induction turns arbitrary: last_us)
  case (Cons turn turns)
  obtain a dv where turn: "turn = (a, dv)" by fastforce
  let ?dv' = "snd (snd (telemetry_task pf a (last_us, dv)))"
  show ?case
  proof (cases "soc_polled dv ?dv'")
    case True
    then show ?thesis using Cons [of "pa_time a AtChange"] telemetry_poll [where pf = pf and a = a and last_us = last_us and dv = dv]
      by (auto simp: turn split_beta Let_def)
  next
    case False
    then show ?thesis using Cons [of last_us] telemetry_poll(1) [where pf = pf and a = a and last_us = last_us and dv = dv]
      by (simp add: turn split_beta Let_def)
  qed
qed simp

text \<open>
  C30: A turn of the telemetry task prints one complete line, never cut by the output buffer, of the
  values of the current snapshot, and leaves the shared state alone. Over any
  sequence of turns, whatever other tasks do between them, two polls of the state of charge that
  were sent are at least five seconds apart; the first turn that comes five seconds after the last
  sent poll polls again.
\<close>

theorem telemetry_turn:
  "printed (snd (snd (telemetry_task pf a (last_us, dv)))) = printed dv @
     [concat (telemetry_parts (meb_state_get_snapshot (pf_config pf) (pa_time a AtSnapshot) (dv_app dv))
        (uptime_ms (pa_reading a AtEvent)))]
   \<and> length (concat (telemetry_parts state ts)) < SERIAL_OUTPUT_BUF_SIZE
   \<and> dv_app (snd (snd (telemetry_task pf a (last_us, dv)))) = dv_app dv
   \<and> sorted_wrt (\<lambda>x y. x + 5000000 \<le> y) (soc_polls pf telemetry_first_soc_us turns)
   \<and> acts_of (dv_trace (snd (snd (telemetry_task pf a (last_us, dv))))) = acts_of (dv_trace dv) @
       (if last_us + 5000000 \<le> pa_time a AtChange then [CanRequest BmsSoc (fst (can_send pf a BmsSoc dv))] else [])"
  using telemetry_frame(1,2) [of pf a last_us dv] telemetry_parts_length [of state ts] acts_telemetry [of pf a last_us dv]
    soc_polls_spaced_from [of telemetry_first_soc_us pf turns]
  by (simp add: MEB_BMS_SOC_POLL_PERIOD_MS_def le_diff_eq add.commute)

section \<open>The interval stays in range and survives a restart\<close>

datatype interval_change = SetInterval u32 | LoadInterval

fun interval_step :: "('c, 'n) platform \<times> answers \<times> interval_change \<Rightarrow> ('c, 'n) device \<Rightarrow> ('c, 'n) device" where
  "interval_step (pf, a, SetInterval v) dv = snd (meb_control_set_telemetry_interval_ms pf a v dv)"
| "interval_step (pf, a, LoadInterval) dv = snd (load_telemetry_interval_setting pf a dv)"

lemma valid_is_in_range: "telemetry_interval_is_valid v = interval_in_range v"
  by (simp add: telemetry_interval_is_valid_def interval_in_range_def)

lemma interval_event_frame [frame_simps]:
  "dv_telemetry_interval_ms (interval_event a name v dv) = dv_telemetry_interval_ms dv"
  "dv_settings (interval_event a name v dv) = dv_settings dv" "dv_app (interval_event a name v dv) = dv_app dv"
  "dv_ota (interval_event a name v dv) = dv_ota dv" "dv_can (interval_event a name v dv) = dv_can dv"
  "dv_ble (interval_event a name v dv) = dv_ble dv" "dv_trace (interval_event a name v dv) = dv_trace dv"
  by (simp_all add: interval_event_def frame_simps)

lemma set_interval_result:
  "meb_control_set_telemetry_interval_ms pf a v dv =
     (if \<not> telemetry_interval_is_valid v then (ESP_ERR_INVALID_ARG, dv)
      else (let (err, st) = meb_settings_set_telemetry_interval_ms (pf_nvs pf) v (dv_settings dv) in
        (err, if err = ESP_OK then interval_event a ''telemetry_interval'' v (dv\<lparr>dv_settings := st, dv_telemetry_interval_ms := v\<rparr>)
              else dv\<lparr>dv_settings := st\<rparr>)))"
  by (auto simp: meb_control_set_telemetry_interval_ms_def set_telemetry_interval_in_memory_def Let_def split: prod.split)

interpretation interval_system: step_system "\<lambda>dv. dv_telemetry_interval_ms dv = MEB_TELEMETRY_PERIOD_MS"
    "\<lambda>e. True" interval_step "\<lambda>dv. interval_in_range (dv_telemetry_interval_ms dv)"
proof unfold_locales
  fix dv :: "('a, 'b) device"
  show "interval_in_range (dv_telemetry_interval_ms dv)" if "dv_telemetry_interval_ms dv = MEB_TELEMETRY_PERIOD_MS"
    using that by (simp add: interval_in_range_def MEB_TELEMETRY_PERIOD_MS_def MEB_TELEMETRY_MIN_PERIOD_MS_def
        MEB_TELEMETRY_MAX_PERIOD_MS_def)
next
  fix dv :: "('a, 'b) device" and e
  assume "interval_in_range (dv_telemetry_interval_ms dv)"
  then show "interval_in_range (dv_telemetry_interval_ms (interval_step e dv))"
    by (cases "(e, dv)" rule: interval_step.cases)
      (auto simp: set_interval_result load_telemetry_interval_setting_def set_telemetry_interval_in_memory_def
        valid_is_in_range Let_def split_beta frame_simps split: sum.splits)
qed

text \<open>
  Whatever values are requested and however the storage behaves, the interval the telemetry
  task waits is always between 100 ms and 60 s: at least ten and at most 6000 ticks, so the task
  neither spins nor waits for a wrapped-around time.
\<close>

theorem telemetry_interval_bounded:
  fixes es :: "(('c, 'n) platform \<times> answers \<times> interval_change) list"
  shows "let v = meb_control_get_telemetry_interval_ms (fold interval_step es (device_boot_state pf f))
    in 100 \<le> v \<and> v \<le> 60000 \<and> unat (ms_to_ticks (unat v)) = unat v div 10 \<and> 10 \<le> unat v div 10 \<and> unat v div 10 \<le> 6000"
proof -
  let ?v = "dv_telemetry_interval_ms (fold interval_step es (device_boot_state pf f))"
  have "interval_in_range ?v"
    by (rule interval_system.run_inv) (simp_all add: device_boot_state_def list_all_iff)
  then have v: "100 \<le> ?v" "?v \<le> 60000"
    by (simp_all add: interval_in_range_def MEB_TELEMETRY_MIN_PERIOD_MS_def MEB_TELEMETRY_MAX_PERIOD_MS_def)
  then have n: "100 \<le> unat ?v" "unat ?v \<le> 60000" by (simp_all add: word_le_nat_alt)
  have "unat ?v * 100 div 1000 = unat ?v div 10" by simp
  moreover have "unat ?v div 10 < 2 ^ 32"
    using n(2) div_le_dividend [of "unat ?v" 10] by (simp del: div_le_dividend)
  ultimately have "unat (ms_to_ticks (unat ?v)) = unat ?v div 10"
    by (simp add: ms_to_ticks_def unat_of_nat take_bit_nat_eq_self)
  moreover have "10 \<le> unat ?v div 10" "unat ?v div 10 \<le> 6000"
    using div_le_mono [OF n(1), of 10] div_le_mono [OF n(2), of 10] by simp_all
  ultimately show ?thesis using v by (simp add: meb_control_get_telemetry_interval_ms_def)
qed

lemma restart_settings_eq: "dv_settings (restart_device pf dv) = restart_settings (dv_settings dv)"
  by (simp add: restart_device_def device_boot_state_def restart_settings_def)

lemma load_found:
  assumes "fst (meb_settings_get_telemetry_interval_ms (pf_nvs pf) (dv_settings dv)) = Inr v"
    and "telemetry_interval_is_valid v"
  shows "fst (load_telemetry_interval_setting pf a dv) = ESP_OK
    \<and> dv_telemetry_interval_ms (snd (load_telemetry_interval_setting pf a dv)) = v"
  using assms by (simp add: load_telemetry_interval_setting_def set_telemetry_interval_in_memory_def split_beta Let_def frame_simps)

text \<open>
  C31: An accepted interval is in use at once, and again after a restart: when mounting the storage
  does not erase it and the stored value can be read, start-up loads exactly the accepted value.
  The storage is assumed to keep what was committed.
\<close>

theorem interval_survives_restart:
  assumes "nvs_lawful (pf_nvs pf) stored"
    and "meb_control_set_telemetry_interval_ms pf a v dv = (ESP_OK, dv')"
    and "mounts (pf_nvs pf) (dv_settings (restart_device pf dv'))"
    and "fst (meb_settings_get_telemetry_interval_ms (pf_nvs pf) (dv_settings (restart_device pf dv'))) = Inr w"
  shows "dv_telemetry_interval_ms dv' = v
    \<and> fst (load_telemetry_interval_setting pf a' (restart_device pf dv')) = ESP_OK
    \<and> dv_telemetry_interval_ms (snd (load_telemetry_interval_setting pf a' (restart_device pf dv'))) = v"
proof -
  have set_ok: "fst (meb_settings_set_telemetry_interval_ms (pf_nvs pf) v (dv_settings dv)) = ESP_OK"
    and settings: "dv_settings dv' = snd (meb_settings_set_telemetry_interval_ms (pf_nvs pf) v (dv_settings dv))"
    and now: "dv_telemetry_interval_ms dv' = v"
    using assms(2) by (auto simp: set_interval_result split_beta frame_simps split: if_splits)
  have "w = v \<and> interval_in_range v"
    using nvs_interval.set_then_get [OF assms(1) set_ok] assms(3,4) settings by (simp add: restart_settings_eq)
  with now load_found [OF assms(4)] show ?thesis by (simp add: valid_is_in_range)
qed

theorem interval_survives_restart_witness:
  "dv_telemetry_interval_ms (snd (load_telemetry_interval_setting bench_platform (bench_answers 5)
     (restart_device bench_platform (snd (meb_control_set_telemetry_interval_ms bench_platform (bench_answers 9) 250
        bench_device))))) = 250"
proof -
  let ?dv' = "snd (meb_control_set_telemetry_interval_ms bench_platform (bench_answers 9) 250 bench_device)"
  note defs = meb_settings_set_telemetry_interval_ms_def meb_settings_init_def meb_settings_get_telemetry_interval_ms_def
    cell_nvs_def bench_platform_def device_boot_state_def MEB_TELEMETRY_MIN_PERIOD_MS_def MEB_TELEMETRY_MAX_PERIOD_MS_def
  have valid: "telemetry_interval_is_valid 250"
    by (simp add: telemetry_interval_is_valid_def MEB_TELEMETRY_MIN_PERIOD_MS_def MEB_TELEMETRY_MAX_PERIOD_MS_def)
  have eq: "meb_control_set_telemetry_interval_ms bench_platform (bench_answers 9) 250 bench_device = (ESP_OK, ?dv')"
    using valid by (simp add: set_interval_result defs)
  have flash: "flash (dv_settings ?dv') = Some 250"
    using valid by (simp add: set_interval_result defs frame_simps)
  have "nvs_lawful (pf_nvs bench_platform) (\<lambda>f. f)" by (simp add: bench_platform_def cell_nvs_lawful)
  moreover have "mounts (pf_nvs bench_platform) (dv_settings (restart_device bench_platform ?dv'))"
    by (simp add: mounts_def bench_platform_def cell_nvs_def)
  moreover have "fst (meb_settings_get_telemetry_interval_ms (pf_nvs bench_platform)
      (dv_settings (restart_device bench_platform ?dv'))) = Inr 250"
    using flash by (simp add: restart_settings_eq restart_settings_def defs)
  ultimately show ?thesis using interval_survives_restart [OF _ eq, of "\<lambda>f. f" 250 "bench_answers 5"] by simp
qed

end
