(* ===== verification/Serial_Console.thy ===== *)
theory Serial_Console
  imports Control
begin

text \<open>
  The command half of \<open>main/serial_console.c\<close>: the handlers of the JSON-RPC methods and the dispatch
  of a command line. A handler gets the platform, its answers, whether the request has an
  identifier, the identifier and the command line, as in the code; it acts on the device.
\<close>

section \<open>Configuration\<close>

definition MEB_APP_VERSION :: string where "MEB_APP_VERSION = ''0.6.1''"
definition MEB_APP_ABOUT :: string where "MEB_APP_ABOUT = ''MEB preheat CAN controller''"
definition MEB_HOST_UART_TX_GPIO :: int where "MEB_HOST_UART_TX_GPIO = 11"
definition MEB_HOST_UART_RX_GPIO :: int where "MEB_HOST_UART_RX_GPIO = 12"
definition MEB_HOST_UART_BAUD_RATE :: int where "MEB_HOST_UART_BAUD_RATE = 115200"
definition MEB_TWAI_TX_GPIO :: int where "MEB_TWAI_TX_GPIO = 4"
definition MEB_TWAI_RX_GPIO :: int where "MEB_TWAI_RX_GPIO = 5"

definition MEB_BUILD_MODE :: "bool \<Rightarrow> string" where
  "MEB_BUILD_MODE release = (if release then ''production'' else ''development'')"

definition DIAG_EVENTS_DEFAULT_LIMIT :: u32 where "DIAG_EVENTS_DEFAULT_LIMIT = 8"
definition DIAG_EVENTS_DIAGNOSTICS_LIMIT :: u32 where "DIAG_EVENTS_DIAGNOSTICS_LIMIT = 5"
definition DIAG_EVENTS_MAX_LIMIT :: u32 where "DIAG_EVENTS_MAX_LIMIT = 8"
definition DEVICE_RESET_DELAY_MS :: u32 where "DEVICE_RESET_DELAY_MS = 500"

section \<open>Heating\<close>

definition heating_state_parts :: "meb_state_snapshot \<Rightarrow> string list" where
  "heating_state_parts state =
     (let remaining_minutes = format_auto_off_remaining state 16;
          soc = format_double_or_null (nv_valid (bms_soc_percent state)) (nv_value (bms_soc_percent state)) 16;
          h = heating_status state;
          u8_text = (\<lambda>v. format_u8_or_null (hs_valid h) v 16);
          temperature_status = format_u8_or_null (nv_valid (temperature_status_charge state))
            (nv_value (temperature_status_charge state)) 16
      in [''{\"heating_enabled\":'', bool_text (heating_enabled state), '',\"active\":'', u8_text (hs_active h),
          '',\"request\":'', u8_text (hs_request h), '',\"cooling_request\":'', u8_text (hs_cooling_request h),
          '',\"power_w\":'', u8_text (hs_power_w h), '',\"power_req_w\":'', u8_text (hs_power_req_w h),
          '',\"temperature_status\":'', temperature_status, '',\"soc_bms_percent\":'', soc,
          '',\"auto_off_timer_enabled\":'', bool_text (auto_off_timer_enabled state),
          '',\"auto_off_timer_minutes\":'', print_dec (unat (auto_off_timer_minutes state)),
          '',\"auto_off_remaining_minutes\":'', remaining_minutes, ''}''])"

definition send_heating_state_result ::
    "('c, 'n) platform \<Rightarrow> answers \<Rightarrow> bool \<Rightarrow> string \<Rightarrow> ('c, 'n) device \<Rightarrow> ('c, 'n) device" where
  "send_heating_state_result pf a has_id id_token dv =
     (let state = meb_state_get_snapshot (pf_config pf) (pa_time a AtSnapshot) (dv_app dv)
      in send_rpc_result a has_id id_token (heating_state_parts state) dv)"

text \<open>The test of a command's parameters: a pointer to an object.\<close>

definition params_object :: "string option \<Rightarrow> bool" where
  "params_object params = (case params of None \<Rightarrow> False | Some p \<Rightarrow> deref p = CHR ''{'')"

definition param_value :: "string option \<Rightarrow> string \<Rightarrow> string option" where
  "param_value params key = (case params of None \<Rightarrow> None | Some p \<Rightarrow> find_key_value p key)"

definition handle_heating_set ::
    "('c, 'n) platform \<Rightarrow> answers \<Rightarrow> bool \<Rightarrow> string \<Rightarrow> string \<Rightarrow> ('c, 'n) device \<Rightarrow> ('c, 'n) device" where
  "handle_heating_set pf a has_id id_token cmd dv =
     (let params = find_key_value cmd ''params'' in
      if \<not> params_object params
      then send_rpc_error a (Some id_token) JSONRPC_INVALID_PARAMS ''Expected params.enabled boolean'' dv
      else case parse_bool_value (param_value params ''enabled'') of
        None \<Rightarrow> send_rpc_error a (Some id_token) JSONRPC_INVALID_PARAMS ''Expected params.enabled boolean'' dv
      | Some enabled \<Rightarrow>
          send_heating_state_result pf a has_id id_token
            (on_app (meb_state_set_heating_enabled (pa_reading a AtChange) (pa_reading a AtEvent) enabled) dv))"

definition handle_heating_get ::
    "('c, 'n) platform \<Rightarrow> answers \<Rightarrow> bool \<Rightarrow> string \<Rightarrow> ('c, 'n) device \<Rightarrow> ('c, 'n) device" where
  "handle_heating_get pf a has_id id_token dv = send_heating_state_result pf a has_id id_token dv"

definition handle_heating_set_auto_off_timer ::
    "('c, 'n) platform \<Rightarrow> answers \<Rightarrow> bool \<Rightarrow> string \<Rightarrow> string \<Rightarrow> ('c, 'n) device \<Rightarrow> ('c, 'n) device" where
  "handle_heating_set_auto_off_timer pf a has_id id_token cmd dv =
     (let params = find_key_value cmd ''params'';
          expected = send_rpc_error a (Some id_token) JSONRPC_INVALID_PARAMS
            ''Expected params.minutes integer; 0 disables timer''
      in if \<not> params_object params then expected dv
         else case parse_uint_value (param_value params ''minutes'') of
           None \<Rightarrow> expected dv
         | Some minutes \<Rightarrow>
             (let (err, st, d) = meb_state_set_auto_off_timer_minutes (pa_reading a AtChange) (pa_reading a AtEvent)
                     minutes (dv_app dv, dv_diag dv);
                  dv1 = dv\<lparr>dv_app := st, dv_diag := d\<rparr>
              in if err \<noteq> ESP_OK
                 then send_rpc_error a (Some id_token) JSONRPC_INVALID_PARAMS ''params.minutes outside allowed range'' dv1
                 else send_heating_state_result pf a has_id id_token dv1))"

section \<open>Diagnostics\<close>

text \<open>
  Appending to a buffer of \<open>buf_len\<close> bytes at its end; \<open>None\<close> when the text does not fit.
\<close>

definition json_appendf :: "nat \<Rightarrow> string list \<Rightarrow> string \<Rightarrow> string option" where
  "json_appendf buf_len parts buf =
     (if length buf \<ge> buf_len then None
      else let len = length (concat parts) in
      if len \<ge> buf_len - length buf then None else Some (buf @ concat parts))"

definition parse_optional_limit :: "string \<Rightarrow> u32 \<Rightarrow> u32 option" where
  "parse_optional_limit cmd default_limit =
     (case find_key_value cmd ''params'' of
        None \<Rightarrow> Some default_limit
      | Some params \<Rightarrow>
          if deref params \<noteq> CHR ''{'' then None
          else case find_key_value params ''limit'' of
            None \<Rightarrow> Some default_limit
          | Some limit_value \<Rightarrow> parse_uint_value (Some limit_value))"

definition event_parts :: "meb_diag_event \<Rightarrow> string list" where
  "event_parts ev =
     (let component = meb_diag_json_escape (Some (ev_component ev)) (MEB_DIAG_COMPONENT_LEN * 2 + 1);
          name = meb_diag_json_escape (Some (ev_event ev)) (MEB_DIAG_EVENT_LEN * 2 + 1);
          detail = meb_diag_json_escape (Some (ev_detail ev)) (MEB_DIAG_DETAIL_LEN * 2 + 1)
      in [''{\"seq\":'', print_dec (unat (ev_seq ev)), '',\"ts_ms\":'', print_dec (unat (ev_uptime_ms ev)),
          '',\"c\":\"'', component, ''\",\"e\":\"'', name, ''\",\"d\":\"'', detail,
          ''\",\"heap\":'', print_dec (unat (ev_free_heap ev)),
          '',\"min_heap\":'', print_dec (unat (ev_minimum_free_heap ev)), ''}''])"

text \<open>The loop over the events from \<open>start\<close>; \<open>first\<close> tells the event at \<open>start\<close>.\<close>

fun append_events :: "nat \<Rightarrow> bool \<Rightarrow> meb_diag_event list \<Rightarrow> string \<Rightarrow> string option" where
  "append_events buf_len first [] buf = Some buf"
| "append_events buf_len first (ev # evs) buf =
     (case (if \<not> first then json_appendf buf_len ['',''] buf else Some buf) of
        None \<Rightarrow> None
      | Some buf1 \<Rightarrow>
          (case json_appendf buf_len (event_parts ev) buf1 of
             None \<Rightarrow> None
           | Some buf2 \<Rightarrow> append_events buf_len False evs buf2))"

definition format_event_log_json :: "nat \<Rightarrow> u32 \<Rightarrow> diag_state \<Rightarrow> string option" where
  "format_event_log_json buf_len limit d =
     (let snapshot = meb_diag_get_events d;
          limit = (if limit > DIAG_EVENTS_MAX_LIMIT then DIAG_EVENTS_MAX_LIMIT else limit);
          limit = (if limit > sn_count snapshot then sn_count snapshot else limit);
          start = (if sn_count snapshot > limit then sn_count snapshot - limit else 0)
      in case json_appendf buf_len
            [''{\"capacity\":'', print_dec (unat (sn_capacity snapshot)), '',\"count\":'', print_dec (unat (sn_count snapshot)),
             '',\"returned\":'', print_dec (unat limit), '',\"overwritten\":'', print_dec (unat (sn_overwritten snapshot)),
             '',\"events\":[''] '''' of
           None \<Rightarrow> None
         | Some buf \<Rightarrow>
             (case append_events buf_len True (drop (unat start) (sn_events snapshot)) buf of
                None \<Rightarrow> None
              | Some buf1 \<Rightarrow> json_appendf buf_len ['']}''] buf1))"

definition reset_parts :: "('c, 'n) platform \<Rightarrow> meb_diag_status \<Rightarrow> string list" where
  "reset_parts pf status =
     [''{\"uptime_ms\":'', print_dec (unat (ds_uptime_ms status)),
      '',\"reset\":{\"reason\":'', print_int (pf_reset_number pf (ds_reset_reason status)),
      '',\"name\":\"'', meb_diag_reset_reason_name (ds_reset_reason status), ''\"}'']"

definition device_status :: "('c, 'n) platform \<Rightarrow> answers \<Rightarrow> meb_diag_status" where
  "device_status pf a = meb_diag_get_status (pa_reading a AtSnapshot) (pf_reset_reason pf) (pa_heap8 a)"

definition handle_device_uptime ::
    "('c, 'n) platform \<Rightarrow> answers \<Rightarrow> bool \<Rightarrow> string \<Rightarrow> ('c, 'n) device \<Rightarrow> ('c, 'n) device" where
  "handle_device_uptime pf a has_id id_token dv =
     send_rpc_result a has_id id_token (reset_parts pf (device_status pf a) @ [''}'']) dv"

definition schedule_reboot :: "answers \<Rightarrow> u32 \<Rightarrow> ('c, 'n) device \<Rightarrow> esp_err \<times> ('c, 'n) device" where
  "schedule_reboot a delay_ms dv =
     (let (err, scheduled) = meb_ota_update_schedule_reboot (pa_task_created a) delay_ms
      in (err, case scheduled of None \<Rightarrow> dv | Some ms \<Rightarrow> effects [RestartIn ms] dv))"

definition handle_device_reset ::
    "answers \<Rightarrow> bool \<Rightarrow> string \<Rightarrow> ('c, 'n) device \<Rightarrow> ('c, 'n) device" where
  "handle_device_reset a has_id id_token dv =
     (let (err, dv1) = schedule_reboot a DEVICE_RESET_DELAY_MS dv in
      if err \<noteq> ESP_OK
      then send_rpc_error a (Some id_token) JSONRPC_SERVER_ERROR ''Failed to schedule device reset'' dv1
      else send_rpc_result a has_id id_token
             [''{\"resetting\":true,\"delay_ms\":'', print_dec (unat DEVICE_RESET_DELAY_MS), ''}''] dv1)"

definition handle_device_events ::
    "answers \<Rightarrow> bool \<Rightarrow> string \<Rightarrow> string \<Rightarrow> ('c, 'n) device \<Rightarrow> ('c, 'n) device" where
  "handle_device_events a has_id id_token cmd dv =
     (case parse_optional_limit cmd DIAG_EVENTS_DEFAULT_LIMIT of
        None \<Rightarrow> send_rpc_error a (Some id_token) JSONRPC_INVALID_PARAMS ''Expected params.limit integer'' dv
      | Some limit \<Rightarrow>
          (case format_event_log_json 1200 limit (dv_diag dv) of
             None \<Rightarrow> send_rpc_error a (Some id_token) JSONRPC_SERVER_ERROR ''Diagnostics event response too large'' dv
           | Some event_log \<Rightarrow> send_rpc_result a has_id id_token [event_log] dv))"

definition handle_device_diagnostics ::
    "('c, 'n) platform \<Rightarrow> answers \<Rightarrow> bool \<Rightarrow> string \<Rightarrow> string \<Rightarrow> ('c, 'n) device \<Rightarrow> ('c, 'n) device" where
  "handle_device_diagnostics pf a has_id id_token cmd dv =
     (case parse_optional_limit cmd DIAG_EVENTS_DIAGNOSTICS_LIMIT of
        None \<Rightarrow> send_rpc_error a (Some id_token) JSONRPC_INVALID_PARAMS ''Expected params.limit integer'' dv
      | Some limit \<Rightarrow>
          (let limit = (if limit > DIAG_EVENTS_DIAGNOSTICS_LIMIT then DIAG_EVENTS_DIAGNOSTICS_LIMIT else limit);
               status = device_status pf a
           in case format_event_log_json 900 limit (dv_diag dv) of
                None \<Rightarrow> send_rpc_error a (Some id_token) JSONRPC_SERVER_ERROR ''Diagnostics event response too large'' dv
              | Some event_log \<Rightarrow>
                  send_rpc_result a has_id id_token
                    (reset_parts pf status @
                     ['',\"heap\":{\"free\":'', print_dec (unat (ds_free_heap status)),
                      '',\"minimum_free\":'', print_dec (unat (ds_minimum_free_heap status)),
                      '',\"free_8bit\":'', print_dec (unat (ds_free_8bit_heap status)),
                      '',\"minimum_free_8bit\":'', print_dec (unat (ds_minimum_free_8bit_heap status)),
                      '',\"largest_free_8bit_block\":'', print_dec (unat (ds_largest_free_8bit_block status)),
                      ''},\"event_log\":'', event_log, ''}'']) dv))"

section \<open>CAN diagnostics and device information\<close>

definition can_state_name :: "u32 \<Rightarrow> string" where
  "can_state_name state =
     (if state = 0 then ''active'' else if state = 1 then ''warning'' else if state = 2 then ''passive''
      else if state = 3 then ''bus_off'' else ''unknown'')"

definition can_diagnostics_parts :: "meb_can_diagnostics \<Rightarrow> string list" where
  "can_diagnostics_parts diag =
     (let num = (\<lambda>v :: u32. print_dec (unat v)); node = cd_node_status diag; entries = cd_state_entry_count diag in
      [''{\"ready\":'', bool_text (cd_ready diag),
       '',\"timing\":{\"arb_sample_point_permill\":'', num (cd_arbitration_sample_point_permill diag),
       '',\"data_sample_point_permill\":'', num (cd_data_sample_point_permill diag),
       '',\"data_ssp_permill\":'', num (cd_data_ssp_permill diag),
       ''},\"node\":{\"state\":{\"value\":'', num (ns_state node), '',\"name\":\"'', can_state_name (ns_state node),
       ''\"},\"tx_error_count\":'', print_dec (unat (ns_tx_error_count node)),
       '',\"rx_error_count\":'', print_dec (unat (ns_rx_error_count node)),
       '',\"tx_queue_remaining\":'', num (ns_tx_queue_remaining node),
       '',\"bus_error_count\":'', num (cd_bus_err_num diag),
       ''},\"counters\":{\"rx_queue_overflow\":'', num (cd_rx_queue_overflow_count diag),
       '',\"error_events\":'', num (cd_error_event_count diag),
       '',\"state_changes\":'', num (cd_state_change_count diag),
       '',\"tx_failures\":'', num (cd_tx_failure_count diag),
       ''},\"last\":{\"error_flags\":'', num (cd_last_error_flags diag),
       '',\"tx_failure_id\":'', num (cd_last_tx_failure_id diag),
       ''},\"state_entries\":{\"active\":'', num (entries ! 0), '',\"warning\":'', num (entries ! 1),
       '',\"passive\":'', num (entries ! 2), '',\"bus_off\":'', num (entries ! 3), ''}}''])"

definition handle_device_can_diagnostics ::
    "answers \<Rightarrow> bool \<Rightarrow> string \<Rightarrow> ('c, 'n) device \<Rightarrow> ('c, 'n) device" where
  "handle_device_can_diagnostics a has_id id_token dv =
     send_rpc_result a has_id id_token
       (can_diagnostics_parts (meb_can_get_diagnostics (pa_can_info a) (dv_can dv))) dv"

definition device_info_parts :: "('c, 'n) platform \<Rightarrow> u32 \<Rightarrow> string list" where
  "device_info_parts pf interval_ms =
     [''{\"version\":\"'', MEB_APP_VERSION, ''\",\"about\":\"'', MEB_APP_ABOUT,
      ''\",\"protocol_version\":'', print_int MEB_PREHEATER_PROTOCOL_VERSION,
      '',\"release_build\":'', bool_text (pf_release pf), '',\"build_mode\":\"'', MEB_BUILD_MODE (pf_release pf),
      ''\",\"serial\":{\"uart\":0,\"baud_rate\":'', print_int MEB_HOST_UART_BAUD_RATE,
      '',\"tx_gpio\":'', print_int MEB_HOST_UART_TX_GPIO, '',\"rx_gpio\":'', print_int MEB_HOST_UART_RX_GPIO,
      ''},\"ble\":{\"name\":\"'', MEB_BLE_DEVICE_NAME, ''\",\"service_uuid\":\"'', MEB_BLE_SERVICE_UUID,
      ''\",\"rx_uuid\":\"'', MEB_BLE_RX_UUID, ''\",\"tx_uuid\":\"'', MEB_BLE_TX_UUID,
      ''\"},\"telemetry_interval_ms\":'', print_dec (unat interval_ms),
      '',\"heating\":{\"safety_auto_off_enabled\":'', bool_text (MEB_SAFETY_AUTO_OFF_ENABLED (pf_config pf)),
      '',\"safety_auto_off_minutes\":'', print_int (sint (MEB_SAFETY_AUTO_OFF_MINUTES (pf_config pf))),
      ''},\"can\":{\"tx_gpio\":'', print_int MEB_TWAI_TX_GPIO, '',\"rx_gpio\":'', print_int MEB_TWAI_RX_GPIO,
      '',\"bitrate\":'', print_dec MEB_TWAI_BITRATE, '',\"data_bitrate\":'', print_dec MEB_TWAI_DATA_BITRATE, ''}}'']"

definition handle_device_info ::
    "('c, 'n) platform \<Rightarrow> answers \<Rightarrow> bool \<Rightarrow> string \<Rightarrow> ('c, 'n) device \<Rightarrow> ('c, 'n) device" where
  "handle_device_info pf a has_id id_token dv =
     send_rpc_result a has_id id_token (device_info_parts pf (meb_control_get_telemetry_interval_ms dv)) dv"

definition handle_telemetry_set_interval ::
    "('c, 'n) platform \<Rightarrow> answers \<Rightarrow> bool \<Rightarrow> string \<Rightarrow> string \<Rightarrow> ('c, 'n) device \<Rightarrow> ('c, 'n) device" where
  "handle_telemetry_set_interval pf a has_id id_token cmd dv =
     (let params = find_key_value cmd ''params'';
          expected = send_rpc_error a (Some id_token) JSONRPC_INVALID_PARAMS ''Expected params.ms integer''
      in if \<not> params_object params then expected dv
         else case parse_uint_value (param_value params ''ms'') of
           None \<Rightarrow> expected dv
         | Some interval_ms \<Rightarrow>
             (let (err, dv1) = meb_control_set_telemetry_interval_ms pf a interval_ms dv in
              if err = ESP_ERR_INVALID_ARG
              then send_rpc_error a (Some id_token) JSONRPC_INVALID_PARAMS ''params.ms outside allowed range'' dv1
              else if err \<noteq> ESP_OK
              then send_rpc_error a (Some id_token) JSONRPC_SERVER_ERROR ''Failed to store telemetry interval'' dv1
              else send_rpc_result a has_id id_token
                     [''{\"interval_ms\":'', print_dec (unat interval_ms), ''}''] dv1))"

section \<open>Firmware update\<close>

definition send_ota_error :: "answers \<Rightarrow> string \<Rightarrow> esp_err \<Rightarrow> ('c, 'n) device \<Rightarrow> ('c, 'n) device" where
  "send_ota_error a id_token err =
     send_rpc_error a (Some id_token) JSONRPC_SERVER_ERROR (meb_ota_update_err_message err)"

definition format_ota_status_result :: "nat \<Rightarrow> meb_ota_status \<Rightarrow> string" where
  "format_ota_status_result buf_len status =
     snprintf buf_len (concat
       [''{\"active\":'', bool_text (os_active status), '',\"pending_reboot\":'', bool_text (os_pending_reboot status),
        '',\"written\":'', print_dec (unat (os_written status)),
        '',\"expected_size\":'', print_dec (unat (os_expected_size status)),
        '',\"partition\":\"'', os_partition_label status,
        ''\",\"partition_size\":'', print_dec (unat (os_partition_size status)),
        '',\"has_sha256\":'', bool_text (os_has_sha256 status),
        '',\"max_base64_chars\":'', print_dec MEB_OTA_MAX_BASE64_CHARS, ''}''])"

text \<open>An update operation run on the device, with its flash operations among the effects.\<close>

definition on_ota :: "('c ota_update_state \<Rightarrow> 'r \<times> 'c ota_update_state \<times> ota_call list) \<Rightarrow> ('c, 'n) device \<Rightarrow> 'r \<times> ('c, 'n) device" where
  "on_ota f dv = (let (r, st, calls) = f (dv_ota dv) in (r, effects (map FlashCall calls) (dv\<lparr>dv_ota := st\<rparr>)))"

definition ota_status_parts :: "('c, 'n) device \<Rightarrow> string list" where
  "ota_status_parts dv = [format_ota_status_result 256 (meb_ota_update_get_status (dv_ota dv))]"

definition handle_firmware_begin ::
    "('c, 'n) platform \<Rightarrow> answers \<Rightarrow> bool \<Rightarrow> string \<Rightarrow> string \<Rightarrow> ('c, 'n) device \<Rightarrow> ('c, 'n) device" where
  "handle_firmware_begin pf a has_id id_token cmd dv =
     (let params = find_key_value cmd ''params'';
          expected = send_rpc_error a (Some id_token) JSONRPC_INVALID_PARAMS ''Expected params.size and params.sha256''
      in if \<not> params_object params then expected dv
         else case parse_uint_value (param_value params ''size'') of
           None \<Rightarrow> expected dv
         | Some img_size \<Rightarrow>
        (case parse_string_value (param_value params ''sha256'') 65 of
           None \<Rightarrow> expected dv
         | Some sha256 \<Rightarrow>
             (let (err, dv1) = on_ota (meb_ota_update_begin (pf_sha pf) (pa_ota a) img_size (Some sha256)) dv in
              if err \<noteq> ESP_OK then send_ota_error a id_token err dv1
              else send_rpc_result a has_id id_token (ota_status_parts dv1) dv1)))"

definition handle_firmware_write ::
    "('c, 'n) platform \<Rightarrow> answers \<Rightarrow> bool \<Rightarrow> string \<Rightarrow> string \<Rightarrow> ('c, 'n) device \<Rightarrow> ('c, 'n) device" where
  "handle_firmware_write pf a has_id id_token cmd dv =
     (let params = find_key_value cmd ''params'';
          expected = send_rpc_error a (Some id_token) JSONRPC_INVALID_PARAMS ''Expected params.offset and params.data''
      in if \<not> params_object params then expected dv
         else case parse_uint_value (param_value params ''offset'') of
           None \<Rightarrow> expected dv
         | Some offset \<Rightarrow>
        (case parse_string_value (param_value params ''data'') (MEB_OTA_MAX_BASE64_CHARS + 1) of
           None \<Rightarrow> expected dv
         | Some data \<Rightarrow>
             (let ((err, decoded_len), dv1) = on_ota (\<lambda>st.
                    let (err, len, st1, calls) = meb_ota_update_write (pf_sha pf) (pa_ota a) offset (Some data) st
                    in ((err, len), st1, calls)) dv;
                  status = meb_ota_update_get_status (dv_ota dv1) in
              if err \<noteq> ESP_OK then send_ota_error a id_token err dv1
              else send_rpc_result a has_id id_token
                     [''{\"received\":'', print_dec (unat decoded_len), '',\"written\":'', print_dec (unat (os_written status)),
                      '',\"expected_size\":'', print_dec (unat (os_expected_size status)), ''}''] dv1)))"

definition handle_firmware_end ::
    "('c, 'n) platform \<Rightarrow> answers \<Rightarrow> bool \<Rightarrow> string \<Rightarrow> ('c, 'n) device \<Rightarrow> ('c, 'n) device" where
  "handle_firmware_end pf a has_id id_token dv =
     (let (err, dv1) = on_ota (meb_ota_update_end (pf_sha pf) (pa_ota a)) dv in
      if err \<noteq> ESP_OK then send_ota_error a id_token err dv1
      else send_rpc_result a has_id id_token (ota_status_parts dv1) dv1)"

definition handle_firmware_cancel ::
    "('c, 'n) platform \<Rightarrow> answers \<Rightarrow> bool \<Rightarrow> string \<Rightarrow> ('c, 'n) device \<Rightarrow> ('c, 'n) device" where
  "handle_firmware_cancel pf a has_id id_token dv =
     (let (err, dv1) = on_ota (meb_ota_update_cancel (pf_sha pf) (pa_ota a)) dv in
      if err \<noteq> ESP_OK then send_ota_error a id_token err dv1
      else send_rpc_result a has_id id_token (ota_status_parts dv1) dv1)"

definition handle_firmware_status ::
    "answers \<Rightarrow> bool \<Rightarrow> string \<Rightarrow> ('c, 'n) device \<Rightarrow> ('c, 'n) device" where
  "handle_firmware_status a has_id id_token dv = send_rpc_result a has_id id_token (ota_status_parts dv) dv"

definition handle_firmware_reboot ::
    "answers \<Rightarrow> bool \<Rightarrow> string \<Rightarrow> ('c, 'n) device \<Rightarrow> ('c, 'n) device" where
  "handle_firmware_reboot a has_id id_token dv =
     (if \<not> os_pending_reboot (meb_ota_update_get_status (dv_ota dv))
      then send_ota_error a id_token ESP_ERR_INVALID_STATE dv
      else let (err, dv1) = schedule_reboot a 500 dv in
      if err \<noteq> ESP_OK then send_ota_error a id_token err dv1
      else send_rpc_result a has_id id_token [''{\"rebooting\":true}''] dv1)"

section \<open>Dispatch\<close>

text \<open>Both callers pass a buffer, so the command line is not a null pointer.\<close>

definition meb_serial_console_process_command ::
    "('c, 'n) platform \<Rightarrow> answers \<Rightarrow> string \<Rightarrow> ('c, 'n) device \<Rightarrow> ('c, 'n) device" where
  "meb_serial_console_process_command pf a cmd dv =
     (if deref (skip_ws cmd) = NUL then dv
      else if deref (skip_ws cmd) \<noteq> CHR ''{'' then dv
      else case parse_id_token cmd JSONRPC_ID_BUF_SIZE of
        (has_id, None) \<Rightarrow> send_rpc_error a (Some ''null'') JSONRPC_INVALID_REQUEST ''Invalid id'' dv
      | (has_id, Some id_token) \<Rightarrow>
     (let expected = send_rpc_error a (Some id_token) JSONRPC_INVALID_REQUEST ''Expected JSON-RPC 2.0 request'' in
      case parse_required_string_key cmd ''jsonrpc'' 8 of
        None \<Rightarrow> expected dv
      | Some jsonrpc \<Rightarrow>
      if jsonrpc \<noteq> ''2.0'' then expected dv
      else (case parse_required_string_key cmd ''method'' JSONRPC_METHOD_BUF_SIZE of
        None \<Rightarrow> expected dv
      | Some method \<Rightarrow>
        if method = ''heating.set'' then handle_heating_set pf a has_id id_token cmd dv
        else if method = ''heating.get'' then handle_heating_get pf a has_id id_token dv
        else if method = ''heating.set_auto_off_timer'' then handle_heating_set_auto_off_timer pf a has_id id_token cmd dv
        else if method = ''device.info'' then handle_device_info pf a has_id id_token dv
        else if method = ''device.uptime'' then handle_device_uptime pf a has_id id_token dv
        else if method = ''device.reset'' then handle_device_reset a has_id id_token dv
        else if method = ''device.diagnostics'' then handle_device_diagnostics pf a has_id id_token cmd dv
        else if method = ''device.can_diagnostics'' then handle_device_can_diagnostics a has_id id_token dv
        else if method = ''device.events'' then handle_device_events a has_id id_token cmd dv
        else if method = ''telemetry.set_interval'' then handle_telemetry_set_interval pf a has_id id_token cmd dv
        else if method = ''firmware.begin'' then handle_firmware_begin pf a has_id id_token cmd dv
        else if method = ''firmware.write'' then handle_firmware_write pf a has_id id_token cmd dv
        else if method = ''firmware.end'' then handle_firmware_end pf a has_id id_token dv
        else if method = ''firmware.cancel'' then handle_firmware_cancel pf a has_id id_token dv
        else if method = ''firmware.status'' then handle_firmware_status a has_id id_token dv
        else if method = ''firmware.reboot'' then handle_firmware_reboot a has_id id_token dv
        else send_rpc_error a (Some id_token) JSONRPC_METHOD_NOT_FOUND ''Method not found'' dv)))"

section \<open>The UART side\<close>

text \<open>
  A chunk read from the UART: every completed line is a command, run before the next byte is
  looked at. Each command has answers of its own.
\<close>

fun uart_command_task ::
    "('c, 'n) platform \<Rightarrow> (answers \<times> u8) list \<Rightarrow> string \<times> ('c, 'n) device \<Rightarrow> string \<times> ('c, 'n) device" where
  "uart_command_task pf [] s = s"
| "uart_command_task pf ((a, c) # chunk) (cmd_buf, dv) =
     (let (cmd, cmd_buf1) = uart_feed_byte c cmd_buf;
          dv1 = (case cmd of None \<Rightarrow> dv | Some l \<Rightarrow> meb_serial_console_process_command pf a l dv)
      in uart_command_task pf chunk (cmd_buf1, dv1))"

datatype console_init_call =
    CreateWriteLock | UartParamConfig int | UartSetPin int int | UartDriverInstall nat nat | UartFlushInput | CreateUartTask

definition HOST_UART_RX_BUF_SIZE :: nat where "HOST_UART_RX_BUF_SIZE = 1024"
definition HOST_UART_TX_BUF_SIZE :: nat where "HOST_UART_TX_BUF_SIZE = 2048"

definition meb_serial_console_init ::
    "bool \<Rightarrow> (console_init_call \<Rightarrow> esp_err) \<Rightarrow> ('c, 'n) device \<Rightarrow> esp_err \<times> console_init_call list \<times> ('c, 'n) device" where
  "meb_serial_console_init installed answer dv =
     (let lock = CreateWriteLock; param = UartParamConfig MEB_HOST_UART_BAUD_RATE;
          pin = UartSetPin MEB_HOST_UART_TX_GPIO MEB_HOST_UART_RX_GPIO;
          install = UartDriverInstall HOST_UART_RX_BUF_SIZE HOST_UART_TX_BUF_SIZE;
          dv1 = dv\<lparr>dv_uart_write_lock := (answer lock = ESP_OK)\<rparr> in
      if answer lock \<noteq> ESP_OK then (ESP_ERR_NO_MEM, [lock], dv1)
      else if answer param \<noteq> ESP_OK then (answer param, [lock, param], dv1)
      else if answer pin \<noteq> ESP_OK then (answer pin, [lock, param, pin], dv1)
      else if \<not> installed \<and> answer install \<noteq> ESP_OK then (answer install, [lock, param, pin, install], dv1)
      else let calls = [lock, param, pin] @ (if installed then [] else [install]) @ [UartFlushInput, CreateUartTask] in
      if answer CreateUartTask \<noteq> ESP_OK then (ESP_ERR_NO_MEM, calls, dv1)
      else (ESP_OK, calls, dv1))"

end
