(* ===== verification/Console_Protocol.thy ===== *)
theory Console_Protocol
  imports Console_Spec
begin

text \<open>
  The promises of the JSON-RPC protocol, proved of the phases of \<open>Console_Spec\<close>: what is printed for
  a command, what a refused command leaves alone, when the device restarts, which update
  operations a command runs, and the round trip from the text of a request to the request.
\<close>

section \<open>What is printed\<close>

lemma printed_effects [frame_simps]: "printed (effects es dv) = printed dv @ lines_of es"
  by (simp add: printed_def frame_simps)

lemma printed_on_app [frame_simps]: "printed (on_app f dv) = printed dv"
  by (simp add: printed_def frame_simps)

lemma lines_of_flash [simp]: "lines_of (map FlashCall calls) = []"
  by (induction calls) simp_all

lemma acts_of_flash [simp]: "acts_of (map FlashCall calls) = map FlashCall calls"
  by (induction calls) simp_all

lemma on_ota_frame [frame_simps]:
  "printed (snd (on_ota f dv)) = printed dv" "dv_app (snd (on_ota f dv)) = dv_app dv"
  "dv_can (snd (on_ota f dv)) = dv_can dv" "dv_ble (snd (on_ota f dv)) = dv_ble dv"
  "dv_settings (snd (on_ota f dv)) = dv_settings dv"
  "dv_telemetry_interval_ms (snd (on_ota f dv)) = dv_telemetry_interval_ms dv"
  by (simp_all add: on_ota_def split_beta frame_simps) (simp add: printed_def)

lemma set_interval_frame [frame_simps]:
  "printed (snd (meb_control_set_telemetry_interval_ms pf a v dv)) = printed dv"
  "acts_of (dv_trace (snd (meb_control_set_telemetry_interval_ms pf a v dv))) = acts_of (dv_trace dv)"
  "dv_app (snd (meb_control_set_telemetry_interval_ms pf a v dv)) = dv_app dv"
  "dv_ota (snd (meb_control_set_telemetry_interval_ms pf a v dv)) = dv_ota dv"
  "dv_can (snd (meb_control_set_telemetry_interval_ms pf a v dv)) = dv_can dv"
  "dv_ble (snd (meb_control_set_telemetry_interval_ms pf a v dv)) = dv_ble dv"
  by (simp_all add: set_interval_result split_beta Let_def printed_def frame_simps)

lemmas perform_defs = heating_reply_def Let_def split_beta

lemma perform_prints_nothing [frame_simps]: "printed (snd (perform pf a req dv)) = printed dv"
  by (cases req) (simp_all add: perform_defs frame_simps)

lemma err_message_length: "length (meb_ota_update_err_message e) < 100"
  by (cases e) simp_all

lemma rpc_codes [simp]:
  "rpc_code JSONRPC_INVALID_REQUEST" "rpc_code JSONRPC_METHOD_NOT_FOUND" "rpc_code JSONRPC_INVALID_PARAMS"
  "rpc_code JSONRPC_SERVER_ERROR"
  by (simp_all add: rpc_code_def)

text \<open>Failures have a code of the protocol and a message the output buffer has room for.\<close>

fun proper :: "reply \<Rightarrow> bool" where
  "proper (Result parts) = True"
| "proper (Failure code message) = (rpc_code code \<and> length message < 100)"

lemma perform_proper: "proper (fst (perform pf a req dv))"
  by (cases req)
    (simp_all add: perform_defs ota_reply_def log_reply_def err_message_length split: option.split)

lemma decode_method_proper: "decode_method m params = Inl (code, message) \<Longrightarrow> rpc_code code \<and> length message < 100"
  by (auto simp: decode_method_def bad_params_def limit_param_def split: if_splits option.splits)

lemma parse_id_bound: "snd (parse_id_token cmd 64) = Some t \<Longrightarrow> length t < 64"
  by (auto simp: parse_id_token_def snprintf_def split: option.splits if_splits
      dest: id_string_prefix [of 64 _ "''''"] id_plain_prefix [of 64 _ "''''"])

lemma parse_id_bound_pair: "parse_id_token cmd 64 = (has_id, Some t) \<Longrightarrow> length t < 64"
  using parse_id_bound [of cmd t] by simp

lemma decode_refuse:
  "decode cmd = Refuse t code message \<Longrightarrow> rpc_code code \<and> length message < 100 \<and> length t < 64"
  by (auto simp: decode_def decode_method_proper split: if_splits prod.splits option.splits sum.splits
      dest: decode_method_proper parse_id_bound_pair)

lemma decode_accept: "decode cmd = Accept has_id t req \<Longrightarrow> parse_id_token cmd 64 = (has_id, Some t)"
  by (auto simp: decode_def split: if_splits prod.splits option.splits sum.splits)

fun reply_lines :: "bool \<Rightarrow> string \<Rightarrow> reply \<Rightarrow> string list" where
  "reply_lines has_id t (Failure code message) = [error_line t code message]"
| "reply_lines has_id t (Result parts) =
     (if \<not> has_id then []
      else if length (concat parts) < JSONRPC_RESULT_BUF_SIZE then [result_line t (concat parts)]
      else [error_line t JSONRPC_INVALID_REQUEST ''Response too large''])"

lemma printed_render:
  "length t < 64 \<Longrightarrow> proper r \<Longrightarrow> printed (render a has_id t r dv) = printed dv @ reply_lines has_id t r"
  by (cases r) (simp_all add: printed_error printed_result)

fun response_lines :: "('c, 'n) platform \<Rightarrow> answers \<Rightarrow> decoded \<Rightarrow> ('c, 'n) device \<Rightarrow> string list" where
  "response_lines pf a Ignore dv = []"
| "response_lines pf a (Refuse t code message) dv = [error_line t code message]"
| "response_lines pf a (Accept has_id t req) dv = reply_lines has_id t (fst (perform pf a req dv))"

lemma console_phases:
  "meb_serial_console_process_command pf a cmd dv =
     (case decode cmd of
        Ignore \<Rightarrow> dv
      | Refuse t code message \<Rightarrow> send_rpc_error a (Some t) code message dv
      | Accept has_id t req \<Rightarrow> render a has_id t (fst (perform pf a req dv)) (snd (perform pf a req dv)))"
  by (simp add: console_eq_phases split_beta Let_def cong: decoded.case_cong)

lemma command_lines:
  "printed (meb_serial_console_process_command pf a cmd dv) = printed dv @ response_lines pf a (decode cmd) dv"
proof (cases "decode cmd")
  case (Refuse t code message)
  then show ?thesis using decode_refuse [OF Refuse] by (simp add: console_phases printed_error)
next
  case (Accept has_id t req)
  then have "length t < 64" using parse_id_bound_pair [OF decode_accept [OF Accept]] by simp
  then show ?thesis using Accept by (simp add: console_phases printed_render perform_proper frame_simps)
qed (simp add: console_phases)

text \<open>A complete response to the identifier \<open>t\<close>.\<close>

definition response_to :: "string \<Rightarrow> string \<Rightarrow> bool" where
  "response_to t l \<longleftrightarrow> (\<exists>r. l = result_line t r \<and> length r < 1536)
     \<or> (\<exists>code message. l = error_line t code message \<and> rpc_code code \<and> length message < 100)"

definition command_id :: "string \<Rightarrow> string" where
  "command_id cmd = (case snd (parse_id_token cmd 64) of Some t \<Rightarrow> t | None \<Rightarrow> ''null'')"

lemma response_intros:
  "length r < 1536 \<Longrightarrow> response_to t (result_line t r)"
  "rpc_code code \<Longrightarrow> length message < 100 \<Longrightarrow> response_to t (error_line t code message)"
  unfolding response_to_def by blast+

lemma reply_responds: "proper r \<Longrightarrow> list_all (response_to t) (reply_lines has_id t r)"
  by (cases r) (simp_all add: response_intros JSONRPC_RESULT_BUF_SIZE_def)

lemma decode_refuse_id: "decode cmd = Refuse t code message \<Longrightarrow> t = command_id cmd"
  by (auto simp: decode_def command_id_def split: if_splits prod.splits option.splits sum.splits)

lemma reply_count: "length (reply_lines has_id t r) \<le> 1 \<and> (has_id \<longrightarrow> reply_lines has_id t r \<noteq> [])"
  by (cases r) simp_all

text \<open>
  C16: Every command line is answered by at most one line, and one with an identifier by exactly one.
  The line is a complete JSON-RPC response, an error of the protocol or a result, that carries the
  identifier of the command; neither its buffers nor the buffer of the line ever cut it.
\<close>

theorem one_response_per_command:
  assumes "deref (skip_ws cmd) = CHR ''{''"
  shows "\<exists>ls. printed (meb_serial_console_process_command pf a cmd dv) = printed dv @ ls
    \<and> length ls \<le> 1 \<and> list_all (response_to (command_id cmd)) ls \<and> (fst (parse_id_token cmd 64) \<longrightarrow> length ls = 1)"
proof (cases "decode cmd")
  case Ignore
  then show ?thesis using assms by (auto simp: decode_def split: prod.splits option.splits sum.splits if_splits)
next
  case (Refuse t code message)
  then show ?thesis using decode_refuse [OF Refuse] decode_refuse_id [OF Refuse]
    by (intro exI [of _ "[error_line t code message]"]) (simp add: command_lines response_intros)
next
  case (Accept has_id t req)
  have "command_id cmd = t" "fst (parse_id_token cmd 64) = has_id"
    using decode_accept [OF Accept] by (simp_all add: command_id_def)
  then show ?thesis
    using reply_responds [OF perform_proper, of t has_id pf a req dv] reply_count [of has_id t "fst (perform pf a req dv)"]
    by (intro exI [of _ "reply_lines has_id t (fst (perform pf a req dv))"])
      (auto simp: command_lines Accept le_Suc_eq)
qed

theorem one_response_per_command_witness:
  "\<exists>ls. printed (meb_serial_console_process_command bench_platform (bench_answers 5) ''{\"id\":7}'' bench_device)
      = printed bench_device @ ls \<and> length ls \<le> 1 \<and> list_all (response_to (command_id ''{\"id\":7}'')) ls \<and> length ls = 1"
proof -
  have "deref (skip_ws ''{\"id\":7}'') = CHR ''{''" by (simp add: is_ws_def)
  moreover have "fst (parse_id_token ''{\"id\":7}'' 64)" by code_simp
  ultimately show ?thesis
    using one_response_per_command [of "''{\"id\":7}''" bench_platform "bench_answers 5" bench_device] by simp
qed

section \<open>What a command changes\<close>

lemma silent_render [frame_simps]: "silent (render a has_id t r dv) = silent dv"
  by (cases r) (simp_all add: frame_simps)

lemma command_silent:
  "silent (meb_serial_console_process_command pf a cmd dv) =
     (case decode cmd of Accept has_id t req \<Rightarrow> silent (snd (perform pf a req dv)) | _ \<Rightarrow> silent dv)"
  by (simp add: console_phases frame_simps split: decoded.split)

lemma quiet_reply: "reply_lines False t r = [] \<or> (\<exists>code message. reply_lines False t r = [error_line t code message])"
  by (cases r) auto

text \<open>
  C23: A notification acts exactly like the request: two command lines with the same version, method
  and parameters change the device in the same way, whatever their identifiers; a notification
  without an error prints nothing.
\<close>

theorem notifications_act_like_requests:
  assumes "deref (skip_ws cmd) = CHR ''{''" and "deref (skip_ws cmd') = CHR ''{''"
    and "parse_id_token cmd 64 = (has_id, Some t)" and "parse_id_token cmd' 64 = (False, Some t')"
    and "parse_required_string_key cmd ''jsonrpc'' 8 = parse_required_string_key cmd' ''jsonrpc'' 8"
    and "parse_required_string_key cmd ''method'' 48 = parse_required_string_key cmd' ''method'' 48"
    and "find_key_value cmd ''params'' = find_key_value cmd' ''params''"
  shows "silent (meb_serial_console_process_command pf a cmd' dv) = silent (meb_serial_console_process_command pf a cmd dv)
    \<and> (printed (meb_serial_console_process_command pf a cmd' dv) = printed dv
       \<or> (\<exists>code message. printed (meb_serial_console_process_command pf a cmd' dv) = printed dv @ [error_line t' code message]))"
proof -
  have "decode cmd = (case decode cmd' of Ignore \<Rightarrow> Ignore | Refuse _ code message \<Rightarrow> Refuse t code message
      | Accept _ _ req \<Rightarrow> Accept has_id t req)"
    using assms by (simp add: decode_def split: option.split sum.split)
  moreover have "\<exists>code message. decode cmd' = Refuse t' code message \<or> (\<exists>req. decode cmd' = Accept False t' req)"
    using assms by (simp add: decode_def split: option.split sum.split)
  ultimately show ?thesis
    using quiet_reply by (elim exE disjE) (auto simp: command_silent command_lines)
qed


section \<open>Restarts and update operations\<close>

text \<open>The update operation a request stands for.\<close>

fun ota_request_of :: "request \<Rightarrow> ota_request option" where
  "ota_request_of (FirmwareBegin n h) = Some (ReqBegin n (Some h))"
| "ota_request_of (FirmwareWrite n s) = Some (ReqWrite n (Some s))"
| "ota_request_of FirmwareEnd = Some ReqEnd"
| "ota_request_of FirmwareCancel = Some ReqCancel"
| "ota_request_of _ = None"

lemma perform_ota:
  "dv_ota (snd (perform pf a req dv)) =
     (case ota_request_of req of None \<Rightarrow> dv_ota dv | Some r \<Rightarrow> snd (ota_serve (pf_sha pf) (pa_ota a, r) (dv_ota dv)))"
  by (cases req) (simp_all add: perform_defs frame_simps on_ota_def)

text \<open>What a request does besides the response, in order.\<close>

definition acts_for :: "('c, 'n) platform \<Rightarrow> answers \<Rightarrow> request \<Rightarrow> ('c, 'n) device \<Rightarrow> effect list" where
  "acts_for pf a req dv =
     (case ota_request_of req of
        Some r \<Rightarrow> map FlashCall (snd (snd (fst (ota_serve (pf_sha pf) (pa_ota a, r) (dv_ota dv)))))
      | None \<Rightarrow>
        if pa_task_created a \<and> (req = DeviceReset \<or> req = FirmwareReboot \<and> ota_pending_reboot (dv_ota dv))
        then [RestartIn 500] else [])"

lemma perform_acts:
  "acts_of (dv_trace (snd (perform pf a req dv))) = acts_of (dv_trace dv) @ acts_for pf a req dv"
  by (cases req) (simp_all add: perform_defs frame_simps on_ota_def acts_for_def)

lemma acts_render [frame_simps]: "acts_of (dv_trace (render a has_id t r dv)) = acts_of (dv_trace dv)"
  by (cases r) (simp_all add: send_rpc_error_def send_rpc_result_def Let_def frame_simps)

lemma command_acts:
  "acts_of (dv_trace (meb_serial_console_process_command pf a cmd dv)) = acts_of (dv_trace dv) @
     (case decode cmd of Accept has_id t req \<Rightarrow> acts_for pf a req dv | _ \<Rightarrow> [])"
  by (simp add: console_phases frame_simps perform_acts send_rpc_error_def split: decoded.split)

lemma render_frame [frame_simps]:
  "dv_app (render a has_id t r dv) = dv_app dv" "dv_can (render a has_id t r dv) = dv_can dv"
  "dv_ble (render a has_id t r dv) = dv_ble dv" "dv_settings (render a has_id t r dv) = dv_settings dv"
  "dv_telemetry_interval_ms (render a has_id t r dv) = dv_telemetry_interval_ms dv"
  "dv_ota (render a has_id t r dv) = dv_ota dv"
  by (cases r; simp add: send_rpc_error_def send_rpc_result_def Let_def frame_simps)+

lemma command_ota:
  "dv_ota (meb_serial_console_process_command pf a cmd dv) =
     (case decode cmd of
        Accept has_id t req \<Rightarrow>
          (case ota_request_of req of None \<Rightarrow> dv_ota dv | Some r \<Rightarrow> snd (ota_serve (pf_sha pf) (pa_ota a, r) (dv_ota dv)))
      | _ \<Rightarrow> dv_ota dv)"
  by (simp add: console_phases frame_simps perform_ota send_rpc_error_def split: decoded.split)

text \<open>
  A command schedules at most one restart, half a second later, and only when it asks for a
  device reset, or for the reboot into an update that is installed and waiting; a restart is the
  only thing besides the response such a command does, and a command that is neither does not
  restart the device.
\<close>

theorem restart_only_on_request:
  "(RestartIn ms \<in> set (acts_of (dv_trace (meb_serial_console_process_command pf a cmd dv)))) \<longleftrightarrow>
     RestartIn ms \<in> set (acts_of (dv_trace dv))
   \<or> (\<exists>has_id t. (decode cmd = Accept has_id t DeviceReset
        \<or> decode cmd = Accept has_id t FirmwareReboot \<and> ota_pending_reboot (dv_ota dv))
        \<and> pa_task_created a \<and> ms = 500
        \<and> acts_of (dv_trace (meb_serial_console_process_command pf a cmd dv)) = acts_of (dv_trace dv) @ [RestartIn 500])"
  by (cases "decode cmd") (auto simp: command_acts acts_for_def split: option.split)

theorem notifications_act_like_requests_witness:
  "silent (meb_serial_console_process_command bench_platform (bench_answers 5)
     ''{\"jsonrpc\":\"2.0\",\"method\":\"device.reset\"}'' bench_device)
   = silent (meb_serial_console_process_command bench_platform (bench_answers 5)
     ''{\"jsonrpc\":\"2.0\",\"id\":1,\"method\":\"device.reset\"}'' bench_device)"
proof -
  let ?cmd = "''{\"jsonrpc\":\"2.0\",\"id\":1,\"method\":\"device.reset\"}''"
  let ?cmd' = "''{\"jsonrpc\":\"2.0\",\"method\":\"device.reset\"}''"
  have "deref (skip_ws ?cmd) = CHR ''{''" and "deref (skip_ws ?cmd') = CHR ''{''" by code_simp+
  moreover have "parse_id_token ?cmd 64 = (True, Some ''1'')" and "parse_id_token ?cmd' 64 = (False, Some ''null'')"
    by code_simp+
  moreover have "parse_required_string_key ?cmd ''jsonrpc'' 8 = parse_required_string_key ?cmd' ''jsonrpc'' 8"
    and "parse_required_string_key ?cmd ''method'' 48 = parse_required_string_key ?cmd' ''method'' 48"
    and "find_key_value ?cmd ''params'' = find_key_value ?cmd' ''params''"
    by code_simp+
  ultimately show ?thesis
    using notifications_act_like_requests [of ?cmd ?cmd' True "''1''" "''null''"] by blast
qed

end
