(* ===== verification/Request_Text.thy ===== *)
theory Request_Text
  imports Console_Protocol
begin

text \<open>
  The text of a request, as a client writes it, and the proof that the console decodes it to the
  request: the round trip from the client's side of the protocol to the handlers.
\<close>

section \<open>The text of a request\<close>

fun method_name :: "request \<Rightarrow> string" where
  "method_name (HeatingSet b) = ''heating.set''"
| "method_name HeatingGet = ''heating.get''"
| "method_name (HeatingTimer n) = ''heating.set_auto_off_timer''"
| "method_name DeviceInfo = ''device.info''"
| "method_name DeviceUptime = ''device.uptime''"
| "method_name DeviceReset = ''device.reset''"
| "method_name (DeviceDiagnostics n) = ''device.diagnostics''"
| "method_name DeviceCan = ''device.can_diagnostics''"
| "method_name (DeviceEvents n) = ''device.events''"
| "method_name (TelemetryInterval n) = ''telemetry.set_interval''"
| "method_name (FirmwareBegin n h) = ''firmware.begin''"
| "method_name (FirmwareWrite n s) = ''firmware.write''"
| "method_name FirmwareEnd = ''firmware.end''"
| "method_name FirmwareCancel = ''firmware.cancel''"
| "method_name FirmwareStatus = ''firmware.status''"
| "method_name FirmwareReboot = ''firmware.reboot''"

fun params_text :: "request \<Rightarrow> string" where
  "params_text (HeatingSet b) = ''\"enabled\":'' @ bool_text b"
| "params_text (HeatingTimer n) = ''\"minutes\":'' @ print_dec (unat n)"
| "params_text (DeviceDiagnostics n) = ''\"limit\":'' @ print_dec (unat n)"
| "params_text (DeviceEvents n) = ''\"limit\":'' @ print_dec (unat n)"
| "params_text (TelemetryInterval n) = ''\"ms\":'' @ print_dec (unat n)"
| "params_text (FirmwareBegin n h) = ''\"size\":'' @ print_dec (unat n) @ '',\"sha256\":'' @ quote (escape h)"
| "params_text (FirmwareWrite n s) = ''\"offset\":'' @ print_dec (unat n) @ '',\"data\":'' @ quote (escape s)"
| "params_text _ = ''''"

definition request_text :: "nat \<Rightarrow> request \<Rightarrow> string" where
  "request_text k req =
     ''{\"jsonrpc\":\"2.0\",\"id\":'' @ print_dec k @ '',\"method\":'' @ quote (method_name req)
       @ '',\"params\":{'' @ params_text req @ ''}}''"

text \<open>The strings of a request fit the buffers of their handlers.\<close>

fun request_fits :: "request \<Rightarrow> bool" where
  "request_fits (FirmwareBegin n h) = (length h \<le> 64)"
| "request_fits (FirmwareWrite n s) = (length s \<le> 768)"
| "request_fits _ = True"

section \<open>Finding the keys\<close>

lemma digits_no_quote: "CHR 0x22 \<notin> set (print_dec k)"
  using print_dec_value [of k] by (auto simp: list_all_iff is_digit_def)

lemma strstr_digits [scan_simps]: "strstr (print_dec k @ s) (CHR 0x22 # p) = strstr s (CHR 0x22 # p)"
  by (rule strstr_skip) (simp_all add: digits_no_quote)

lemma method_no_quote: "CHR 0x22 \<notin> set (method_name req)"
  by (cases req) simp_all

lemma strstr_method [scan_simps]: "strstr (method_name req @ s) (CHR 0x22 # p) = strstr s (CHR 0x22 # p)"
  by (rule strstr_skip) (simp_all add: method_no_quote)

lemmas find_key_defs = find_key_value_def find_key_loop.simps quote_def is_ws_def

text \<open>Whatever follows the request on its line, the keys are found in the request.\<close>

lemma find_id: "find_key_value (request_text k req @ tail) ''id'' =
    Some (print_dec k @ '',\"method\":'' @ quote (method_name req) @ '',\"params\":{'' @ params_text req @ ''}}'' @ tail)"
proof -
  have "skip_ws (print_dec k @ s) = print_dec k @ s" for s
    by (rule skip_ws_start) (use print_dec_hd [of k] in \<open>cases "print_dec k"; auto simp: is_digit_def is_ws_def\<close>)
  then show ?thesis by (simp add: request_text_def find_key_defs scan_simps Let_def)
qed

lemma find_jsonrpc: "\<exists>rest. find_key_value (request_text k req @ tail) ''jsonrpc'' = Some (quote (escape ''2.0'') @ rest)"
  by (simp add: request_text_def find_key_defs scan_simps Let_def)

lemma find_method: "\<exists>rest. find_key_value (request_text k req @ tail) ''method'' = Some (quote (escape (method_name req)) @ rest)"
proof -
  have "escape (method_name req) = method_name req" by (cases req) simp_all
  then show ?thesis by (simp add: request_text_def find_key_defs scan_simps Let_def)
qed

lemma find_params: "find_key_value (request_text k req @ tail) ''params'' = Some (CHR ''{'' # params_text req @ ''}}'' @ tail)"
  by (cases req) (simp_all add: request_text_def find_key_defs scan_simps Let_def)

section \<open>Decoding the parameters\<close>

definition params_of :: "request \<Rightarrow> string \<Rightarrow> string option" where
  "params_of req tail = Some (CHR ''{'' # params_text req @ ''}}'' @ tail)"

lemma param_params_of: "param (params_of req tail) key = find_key_value (CHR ''{'' # params_text req @ ''}}'' @ tail) key"
  by (simp add: param_def params_of_def params_object_def)

lemma digits_start: "\<exists>c cs. print_dec k = c # cs \<and> is_digit c"
  using print_dec_hd [of k] by (cases "print_dec k") auto

lemma skip_ws_digits [scan_simps]: "skip_ws (print_dec k @ s) = print_dec k @ s"
  using digits_start [of k] by (auto simp: is_digit_def is_ws_def)

lemma skip_ws_bool [scan_simps]: "skip_ws (bool_text b @ s) = bool_text b @ s"
  by (simp add: bool_text_def is_ws_def)

lemma parse_bool_text [scan_simps]: "is_value_delimiter (deref s) \<Longrightarrow> parse_bool_value (Some (bool_text b @ s)) = Some b"
  by (simp add: parse_bool_value_def bool_text_def)

lemma delimiters [simp]: "is_value_delimiter (CHR ''}'')" "is_value_delimiter (CHR '','')"
  by (simp_all add: is_value_delimiter_def)

lemma parse_number [scan_simps]:
  fixes n :: u32
  shows "parse_uint_value (Some (print_dec (unat n) @ CHR ''}'' # s)) = Some n"
    and "parse_uint_value (Some (print_dec (unat n) @ CHR '','' # s)) = Some n"
  using unat_u32_bound [of n] by (simp_all add: parse_print_dec)

lemma parse_quoted: "length s < n \<Longrightarrow> parse_string_value (Some (CHR 0x22 # escape s @ CHR 0x22 # rest)) n = Some s"
  using parse_string_escape [of s rest n] by (simp add: quote_def)

lemma decode_params: "request_fits req \<Longrightarrow> decode_method (method_name req) (params_of req tail) = Inr req"
  by (cases req)
    (simp_all add: decode_method_def limit_param_def param_params_of find_key_defs scan_simps parse_quoted
      params_object_def params_of_def param_def Let_def)

lemma decode_request_tail:
  assumes "request_fits req" and "length (print_dec k) < 64"
  shows "decode (request_text k req @ tail) = Accept True (print_dec k) req"
proof -
  let ?cmd = "request_text k req @ tail"
  have brace: "deref (skip_ws ?cmd) = CHR ''{''" by (simp add: request_text_def is_ws_def)
  have ident: "parse_id_token ?cmd 64 = (True, Some (print_dec k))"
    using find_id [of k req tail] assms(2) by (intro parse_id_number) (auto simp: ends_id_def)
  obtain r1 where "find_key_value ?cmd ''jsonrpc'' = Some (quote (escape ''2.0'') @ r1)"
    using find_jsonrpc by blast
  then have version: "parse_required_string_key ?cmd ''jsonrpc'' 8 = Some ''2.0''"
    by (simp only: parse_required_string_key_def parse_string_escape) simp
  obtain r2 where "find_key_value ?cmd ''method'' = Some (quote (escape (method_name req)) @ r2)"
    using find_method by blast
  moreover have "length (method_name req) < 48" by (cases req) simp_all
  ultimately have m: "parse_required_string_key ?cmd ''method'' 48 = Some (method_name req)"
    by (simp add: parse_required_string_key_def parse_string_escape del: escape.simps)
  have "find_key_value ?cmd ''params'' = params_of req tail"
    by (simp add: find_params params_of_def)
  with brace ident version m decode_params [OF assms(1)] show ?thesis by (simp add: decode_def)
qed

lemma decode_request_text:
  "request_fits req \<Longrightarrow> length (print_dec k) < 64 \<Longrightarrow> decode (request_text k req) = Accept True (print_dec k) req"
  using decode_request_tail [of req k "''''"] by simp

text \<open>
  C17: The console decodes the text of every request back to the request. Whatever strings a
  \<open>firmware.begin\<close> or \<open>firmware.write\<close> carries, quotes, backslashes and texts that look like keys
  included, and whatever numbers, the decoded request is the one that was written, with its
  identifier, as long as the strings fit the buffers of their handlers and the identifier has less
  than 64 digits.
\<close>

theorem request_text_round_trip:
  assumes "request_fits req" and "length (print_dec k) < 64"
  shows "decode (request_text k req) = Accept True (print_dec k) req"
  by (rule decode_request_text) (rule assms)+

theorem request_text_round_trip_witness:
  "decode (request_text 7 (FirmwareWrite 5 [CHR 0x22, CHR ''a'', CHR 0x5C])) =
     Accept True (print_dec 7) (FirmwareWrite 5 [CHR 0x22, CHR ''a'', CHR 0x5C])"
  by (rule request_text_round_trip) (simp_all add: print_dec_def print_base.simps)

end
