(* ===== verification/Status_Led.thy ===== *)
theory Status_Led
  imports App_State Can_Bus
begin

text \<open>
  \<open>main/status_led.c\<close>: the colour that shows the state of the heating, and the task that keeps the
  LED at it. The strip driver is third-party: its calls are what the module does, its answers an
  argument. An \<open>ESP_ERROR_CHECK\<close> that fails aborts the firmware, which is \<open>None\<close>.
\<close>

section \<open>Data\<close>

record rgb =
  red :: u8
  green :: u8
  blue :: u8

datatype led_call = NewRmtDevice nat nat | ClearStrip | SetPixel rgb | RefreshStrip | CreateLedTask

definition MEB_LED_GPIO :: nat where "MEB_LED_GPIO = 27"
definition MEB_LED_COUNT :: nat where "MEB_LED_COUNT = 1"
definition MEB_LED_BRIGHTNESS :: u8 where "MEB_LED_BRIGHTNESS = 12"
definition MEB_LED_PERIOD_MS :: nat where "MEB_LED_PERIOD_MS = 500"

section \<open>Operations\<close>

definition configure_led :: "(led_call \<Rightarrow> esp_err) \<Rightarrow> esp_err \<times> led_call list" where
  "configure_led answer = run_calls answer [NewRmtDevice MEB_LED_GPIO MEB_LED_COUNT, ClearStrip]"

definition status_color :: "meb_state_snapshot \<Rightarrow> rgb" where
  "status_color state =
     (let requested = heating_enabled state;
          active = hs_valid (heating_status state) \<and> hs_active (heating_status state) \<noteq> 0 in
      if requested \<and> active then \<lparr>red = MEB_LED_BRIGHTNESS, green = 0, blue = 0\<rparr>
      else if requested \<and> \<not> active then \<lparr>red = MEB_LED_BRIGHTNESS, green = MEB_LED_BRIGHTNESS, blue = 0\<rparr>
      else if \<not> requested \<and> active then \<lparr>red = 0, green = 0, blue = MEB_LED_BRIGHTNESS\<rparr>
      else \<lparr>red = 0, green = MEB_LED_BRIGHTNESS, blue = 0\<rparr>)"

definition colors_equal :: "rgb \<Rightarrow> rgb \<Rightarrow> bool" where
  "colors_equal a b \<longleftrightarrow> red a = red b \<and> green a = green b \<and> blue a = blue b"

definition show_color :: "(led_call \<Rightarrow> esp_err) \<Rightarrow> rgb \<Rightarrow> esp_err \<times> led_call list" where
  "show_color answer color = run_calls answer [SetPixel color, RefreshStrip]"

definition delay_ticks :: "nat \<Rightarrow> u32" where
  "delay_ticks delay_ms = (let ticks = ms_to_ticks delay_ms in if ticks > 0 then ticks else 1)"

text \<open>
  One turn of the task on a snapshot; \<open>last_color\<close> is \<open>None\<close> before the first colour is shown
  (\<open>has_last_color\<close>).
\<close>

definition led_task ::
    "(led_call \<Rightarrow> esp_err) \<Rightarrow> meb_state_snapshot \<Rightarrow> rgb option \<Rightarrow> led_call list \<times> rgb option option" where
  "led_task answer state last_color =
     (let color = status_color state in
      if (case last_color of None \<Rightarrow> True | Some c \<Rightarrow> \<not> colors_equal color c)
      then (let (err, calls) = show_color answer color
            in (calls, if err \<noteq> ESP_OK then None else Some (Some color)))
      else ([], Some last_color))"

definition meb_status_led_start :: "(led_call \<Rightarrow> esp_err) \<Rightarrow> esp_err \<times> led_call list" where
  "meb_status_led_start answer =
     (let (err, calls) = configure_led answer in
      if err \<noteq> ESP_OK then (err, calls)
      else if answer CreateLedTask \<noteq> ESP_OK then (ESP_ERR_NO_MEM, calls @ [CreateLedTask])
      else (ESP_OK, calls @ [CreateLedTask]))"

section \<open>The LED shows the state\<close>

text \<open>What the strip shows: the pixel set last is shown when the strip is refreshed.\<close>

fun strip_after :: "led_call list \<Rightarrow> rgb option \<times> rgb option \<Rightarrow> rgb option \<times> rgb option" where
  "strip_after [] s = s"
| "strip_after (SetPixel c # calls) (pixel, shown) = strip_after calls (Some c, shown)"
| "strip_after (RefreshStrip # calls) (pixel, shown) = strip_after calls (pixel, pixel)"
| "strip_after (ClearStrip # calls) (pixel, shown) = strip_after calls (None, None)"
| "strip_after (_ # calls) s = strip_after calls s"

lemma strip_after_append: "strip_after (xs @ ys) s = strip_after ys (strip_after xs s)"
  by (induction xs s rule: strip_after.induct) simp_all

text \<open>A run of turns, until a driver error ends it.\<close>

fun led_turns ::
    "((led_call \<Rightarrow> esp_err) \<times> meb_state_snapshot) list \<Rightarrow> rgb option \<Rightarrow> led_call list \<times> rgb option option" where
  "led_turns [] last_color = ([], Some last_color)"
| "led_turns ((answer, state) # turns) last_color =
     (case led_task answer state last_color of
        (calls, None) \<Rightarrow> (calls, None)
      | (calls, Some last_color') \<Rightarrow>
          (let (calls', result) = led_turns turns last_color' in (calls @ calls', result)))"

lemma colors_equal_iff: "colors_equal a b \<longleftrightarrow> a = b"
  by (cases a; cases b) (simp add: colors_equal_def)

lemma status_color_cases:
  "status_color s = status_color s' \<longleftrightarrow>
     (heating_enabled s = heating_enabled s' \<and>
      (hs_valid (heating_status s) \<and> hs_active (heating_status s) \<noteq> 0) =
      (hs_valid (heating_status s') \<and> hs_active (heating_status s') \<noteq> 0))"
  by (auto simp: status_color_def MEB_LED_BRIGHTNESS_def Let_def)

lemma led_task_shows:
  assumes "led_task answer state c = (calls, Some c')" and "snd strip = c"
  shows "c' = Some (status_color state) \<and> snd (strip_after calls strip) = c'"
proof (cases "c = Some (status_color state)")
  case True
  then show ?thesis using assms by (auto simp: led_task_def colors_equal_iff Let_def)
next
  case False
  then have ok: "fst (show_color answer (status_color state)) = ESP_OK"
    and calls: "calls = snd (show_color answer (status_color state))" and c': "c' = Some (status_color state)"
    using assms(1) by (auto simp: led_task_def colors_equal_iff Let_def split_beta split: option.splits if_splits)
  have "calls = [SetPixel (status_color state), RefreshStrip]"
    using run_calls_ok [OF ok [unfolded show_color_def]] calls by (simp add: show_color_def)
  then show ?thesis using c' by (cases strip) simp
qed

lemma led_turns_show:
  "led_turns turns c = (calls, Some c') \<Longrightarrow> snd strip = c \<Longrightarrow>
     c' = (if turns = [] then c else Some (status_color (snd (List.last turns))))
     \<and> snd (strip_after calls strip) = c'"
proof (induction turns arbitrary: c calls strip)
  case Nil
  then show ?case by simp
next
  case (Cons turn turns)
  obtain answer state where turn: "turn = (answer, state)" by fastforce
  obtain calls1 c1 calls2 where t1: "led_task answer state c = (calls1, Some c1)"
    and t2: "led_turns turns c1 = (calls2, Some c')" and calls: "calls = calls1 @ calls2"
    using Cons.prems(1) by (auto simp: turn split: prod.splits option.splits)
  have "c1 = Some (status_color state)" "snd (strip_after calls1 strip) = c1"
    using led_task_shows [OF t1 Cons.prems(2)] by simp_all
  with Cons.IH [OF t2, of "strip_after calls1 strip"] show ?case
    by (simp add: calls strip_after_append turn)
qed

text \<open>
  After every turn of the LED task that is not stopped by a driver error the LED shows the colour
  of the last snapshot, although the task calls the driver only when the colour changes; and the
  four colours tell apart whether heating is requested and whether the car reports it active.
\<close>

theorem led_shows_status:
  assumes "led_turns turns None = (calls, Some c)" and "turns \<noteq> []"
  shows "snd (strip_after calls (None, None)) = Some (status_color (snd (List.last turns)))
    \<and> (status_color s = status_color s' \<longleftrightarrow>
        (heating_enabled s = heating_enabled s' \<and>
         (hs_valid (heating_status s) \<and> hs_active (heating_status s) \<noteq> 0) =
         (hs_valid (heating_status s') \<and> hs_active (heating_status s') \<noteq> 0)))"
  using led_turns_show [OF assms(1), of "(None, None)"] assms(2) by (simp add: status_color_cases)

theorem led_shows_status_witness:
  "snd (strip_after (fst (led_turns [(\<lambda>c. ESP_OK, zero_snapshot), (\<lambda>c. ESP_OK, zero_snapshot\<lparr>heating_enabled := True\<rparr>)] None))
     (None, None)) = Some \<lparr>red = 12, green = 12, blue = 0\<rparr>"
proof -
  let ?turns = "[(\<lambda>c :: led_call. ESP_OK, zero_snapshot), (\<lambda>c. ESP_OK, zero_snapshot\<lparr>heating_enabled := True\<rparr>)]"
  have "led_turns ?turns None = (fst (led_turns ?turns None), Some (Some (status_color (zero_snapshot\<lparr>heating_enabled := True\<rparr>))))"
    by (simp add: led_task_def show_color_def colors_equal_def status_color_def zero_snapshot_def
        MEB_LED_BRIGHTNESS_def Let_def)
  from led_shows_status [OF this] show ?thesis
    by (simp add: status_color_def zero_snapshot_def MEB_LED_BRIGHTNESS_def)
qed

end
