(* ===== verification/Power_Management.thy ===== *)
theory Power_Management
  imports Diagnostics
begin

text \<open>
  \<open>main/power_management.c\<close>: the set-up of automatic light sleep and the lock that keeps the device
  awake for a debugger. The power-management driver is third-party: its calls are what the module
  does, its answers an argument.
\<close>

section \<open>Data\<close>

text \<open>The build options the file is compiled under.\<close>

record pm_options =
  PM_ENABLE :: bool
  FREERTOS_USE_TICKLESS_IDLE :: bool
  MEB_PM_AUTOMATIC_LIGHT_SLEEP_ENABLED :: bool
  PM_SLP_DISABLE_GPIO :: bool
  MEB_PM_MAX_CPU_FREQ_MHZ :: nat
  MEB_PM_JTAG_BOOT_GRACE_MS :: int

definition MEB_PM_MIN_CPU_FREQ_MHZ :: nat where "MEB_PM_MIN_CPU_FREQ_MHZ = 48"

definition MEB_PM_LIGHT_SLEEP_RUNTIME_ENABLED :: "pm_options \<Rightarrow> bool" where
  "MEB_PM_LIGHT_SLEEP_RUNTIME_ENABLED opts \<longleftrightarrow>
     PM_ENABLE opts \<and> FREERTOS_USE_TICKLESS_IDLE opts \<and> MEB_PM_AUTOMATIC_LIGHT_SLEEP_ENABLED opts"

text \<open>
  The calls on the power-management, GPIO and task drivers.
\<close>

datatype pm_call =
    PmConfigure nat nat bool | GpioSleepSelDis nat | PmLockCreate | PmLockAcquire | PmLockRelease | CreateDebugTask

record pm_state =
  s_debug_pm_lock :: bool
  s_debug_pm_lock_held :: bool

definition pm_boot_state :: pm_state where
  "pm_boot_state = \<lparr>s_debug_pm_lock = False, s_debug_pm_lock_held = False\<rparr>"

section \<open>Operations\<close>

definition keep_gpio_active_in_light_sleep :: "(pm_call \<Rightarrow> esp_err) \<Rightarrow> nat option \<Rightarrow> esp_err \<times> pm_call list" where
  "keep_gpio_active_in_light_sleep answer gpio_num =
     (case gpio_num of None \<Rightarrow> (ESP_OK, []) | Some n \<Rightarrow> (answer (GpioSleepSelDis n), [GpioSleepSelDis n]))"

text \<open>The LED, the UART and the CAN pins of \<open>app_config.h\<close>, in the order of the calls.\<close>

definition sleep_gpios :: "nat option list" where
  "sleep_gpios = [Some 27, Some 11, Some 12, Some 4, Some 5]"

definition configure_light_sleep_gpio_behavior :: "pm_options \<Rightarrow> (pm_call \<Rightarrow> esp_err) \<Rightarrow> esp_err \<times> pm_call list" where
  "configure_light_sleep_gpio_behavior opts answer =
     (if PM_SLP_DISABLE_GPIO opts
      then fold (\<lambda>gpio so_far. and_then so_far (keep_gpio_active_in_light_sleep answer gpio)) sleep_gpios (ESP_OK, [])
      else (ESP_OK, []))"

definition set_debug_pm_lock :: "(pm_call \<Rightarrow> esp_err) \<Rightarrow> bool \<Rightarrow> pm_state \<Rightarrow> esp_err \<times> pm_call list \<times> pm_state" where
  "set_debug_pm_lock answer hold st =
     (if \<not> s_debug_pm_lock st \<or> hold = s_debug_pm_lock_held st then (ESP_OK, [], st)
      else let call = (if hold then PmLockAcquire else PmLockRelease); err = answer call
           in (err, [call], if err = ESP_OK then st\<lparr>s_debug_pm_lock_held := hold\<rparr> else st))"

text \<open>
  A turn of the monitor: \<open>now_us\<close> and \<open>debugger_attached\<close> are read at its start; an error of the
  lock is logged and tried again by the next turn.
\<close>

definition grace_until_us :: "pm_options \<Rightarrow> int \<Rightarrow> int" where
  "grace_until_us opts start_us = start_us + MEB_PM_JTAG_BOOT_GRACE_MS opts * 1000"

definition debug_pm_task ::
    "(pm_call \<Rightarrow> esp_err) \<Rightarrow> int \<Rightarrow> bool \<times> int \<Rightarrow> pm_state \<Rightarrow> pm_call list \<times> pm_state" where
  "debug_pm_task answer grace_until = (\<lambda>(debugger_attached, now_us) st.
     (let in_boot_grace = now_us < grace_until;
          (err, calls, st1) = set_debug_pm_lock answer (debugger_attached \<or> in_boot_grace) st
      in (calls, st1)))"

definition start_debug_pm_monitor ::
    "(pm_call \<Rightarrow> esp_err) \<Rightarrow> pm_state \<Rightarrow> esp_err \<times> pm_call list \<times> pm_state" where
  "start_debug_pm_monitor answer st =
     (if answer PmLockCreate \<noteq> ESP_OK then (answer PmLockCreate, [PmLockCreate], st)
      else let (err, calls, st1) = set_debug_pm_lock answer True (st\<lparr>s_debug_pm_lock := True\<rparr>) in
      if err \<noteq> ESP_OK then (err, PmLockCreate # calls, st1)
      else if answer CreateDebugTask \<noteq> ESP_OK then (ESP_ERR_NO_MEM, PmLockCreate # calls @ [CreateDebugTask], st1)
      else (ESP_OK, PmLockCreate # calls @ [CreateDebugTask], st1))"

definition meb_power_management_init ::
    "pm_options \<Rightarrow> (pm_call \<Rightarrow> esp_err) \<Rightarrow> pm_state \<Rightarrow> esp_err \<times> pm_call list \<times> pm_state" where
  "meb_power_management_init opts answer st =
     (if \<not> PM_ENABLE opts then (ESP_OK, [], st)
      else let sleep = MEB_PM_LIGHT_SLEEP_RUNTIME_ENABLED opts;
               configure = PmConfigure (MEB_PM_MAX_CPU_FREQ_MHZ opts) MEB_PM_MIN_CPU_FREQ_MHZ sleep in
      if answer configure \<noteq> ESP_OK then (answer configure, [configure], st)
      else if \<not> sleep then (ESP_OK, [configure], st)
      else let (err, gpio_calls) = configure_light_sleep_gpio_behavior opts answer in
      if err \<noteq> ESP_OK then (err, configure # gpio_calls, st)
      else let (err, calls, st1) = start_debug_pm_monitor answer st
           in (err, configure # gpio_calls @ calls, st1))"

section \<open>The lock\<close>

text \<open>
  How often the driver's lock is held: every accepted acquire counts up, every accepted release
  down. The lock sleeps only at zero.
\<close>

fun lock_count :: "(pm_call \<times> esp_err) list \<Rightarrow> int" where
  "lock_count [] = 0"
| "lock_count ((PmLockAcquire, err) # calls) = (if err = ESP_OK then 1 else 0) + lock_count calls"
| "lock_count ((PmLockRelease, err) # calls) = (if err = ESP_OK then - 1 else 0) + lock_count calls"
| "lock_count (_ # calls) = lock_count calls"

lemma lock_count_append: "lock_count (xs @ ys) = lock_count xs + lock_count ys"
  by (induction xs rule: lock_count.induct) simp_all

text \<open>A run of the monitor: each turn with the driver's answers and its two readings.\<close>

type_synonym pm_turn = "(pm_call \<Rightarrow> esp_err) \<times> bool \<times> int"

fun pm_step :: "int \<Rightarrow> pm_turn \<Rightarrow> (pm_call \<times> esp_err) list \<times> pm_state \<Rightarrow> (pm_call \<times> esp_err) list \<times> pm_state" where
  "pm_step grace (answer, reading) (trace, st) =
     (let (calls, st1) = debug_pm_task answer grace reading st in (trace @ map (\<lambda>c. (c, answer c)) calls, st1))"

definition lock_inv :: "(pm_call \<times> esp_err) list \<times> pm_state \<Rightarrow> bool" where
  "lock_inv s \<longleftrightarrow> s_debug_pm_lock (snd s) \<and> lock_count (fst s) = (if s_debug_pm_lock_held (snd s) then 1 else 0)"

lemma pm_step_result:
  "pm_step grace (answer, attached, now) (trace, st) =
     (let hold = (attached \<or> now < grace); call = (if hold then PmLockAcquire else PmLockRelease) in
      if \<not> s_debug_pm_lock st \<or> hold = s_debug_pm_lock_held st then (trace, st)
      else (trace @ [(call, answer call)], if answer call = ESP_OK then st\<lparr>s_debug_pm_lock_held := hold\<rparr> else st))"
  by (simp add: debug_pm_task_def set_debug_pm_lock_def Let_def)

interpretation pm_system: step_system lock_inv "\<lambda>e. True" "pm_step grace" lock_inv for grace
proof unfold_locales
  fix s e assume "lock_inv s"
  then show "lock_inv (pm_step grace e s)"
    by (cases s; cases e) (auto simp: pm_step_result lock_inv_def lock_count_append Let_def simp del: pm_step.simps)
qed simp

text \<open>After a successful start the invariant holds, with the lock taken once.\<close>

lemma monitor_start_inv:
  assumes "start_debug_pm_monitor answer pm_boot_state = (ESP_OK, calls, st)"
  shows "lock_inv (map (\<lambda>c. (c, answer c)) calls, st) \<and> s_debug_pm_lock_held st"
proof (cases "answer PmLockCreate = ESP_OK \<and> answer PmLockAcquire = ESP_OK \<and> answer CreateDebugTask = ESP_OK")
  case True
  then show ?thesis using assms
    by (auto simp: start_debug_pm_monitor_def set_debug_pm_lock_def pm_boot_state_def Let_def lock_inv_def)
next
  case False
  then show ?thesis using assms
    by (auto simp: start_debug_pm_monitor_def set_debug_pm_lock_def pm_boot_state_def Let_def split: if_splits)
qed

text \<open>
  After a successful start of the monitor, the lock that keeps the device awake is never
  acquired twice and never released without being held, whatever the driver answers; and after a
  turn in which the driver accepts its call the device is kept awake exactly when a debugger is
  attached or the grace period after boot is not over.
\<close>

theorem debug_lock_exact:
  assumes "start_debug_pm_monitor answer0 pm_boot_state = (ESP_OK, calls, st)"
    and "fold (pm_step grace) turns (map (\<lambda>c. (c, answer0 c)) calls, st) = (trace1, st1)"
    and "answer PmLockAcquire = ESP_OK" and "answer PmLockRelease = ESP_OK"
  shows "lock_count trace1 \<in> {0, 1}
    \<and> lock_count (fst (pm_step grace (answer, attached, now) (trace1, st1))) = (if attached \<or> now < grace then 1 else 0)"
proof -
  have "lock_inv (map (\<lambda>c. (c, answer0 c)) calls, st)" using monitor_start_inv [OF assms(1)] by simp
  then have "lock_inv (trace1, st1)"
    using pm_system.run_inv [of "(map (\<lambda>c. (c, answer0 c)) calls, st)" turns grace] assms(2) by (simp add: list_all_iff)
  then show ?thesis using assms(3,4)
    by (auto simp: pm_step_result lock_inv_def lock_count_append Let_def simp del: pm_step.simps)
qed

theorem debug_lock_exact_witness:
  "lock_count (fst (pm_step 30000000 (\<lambda>c. ESP_OK, False, 40000000)
     ([(PmLockCreate, ESP_OK), (PmLockAcquire, ESP_OK), (CreateDebugTask, ESP_OK)],
      \<lparr>s_debug_pm_lock = True, s_debug_pm_lock_held = True\<rparr>))) = 0"
proof -
  have "start_debug_pm_monitor (\<lambda>c. ESP_OK) pm_boot_state = (ESP_OK, [PmLockCreate, PmLockAcquire, CreateDebugTask],
      \<lparr>s_debug_pm_lock = True, s_debug_pm_lock_held = True\<rparr>)"
    by (simp add: start_debug_pm_monitor_def set_debug_pm_lock_def pm_boot_state_def Let_def)
  from debug_lock_exact [OF this, of 30000000 "[]" _ _ "\<lambda>c. ESP_OK" False 40000000] show ?thesis by simp
qed

end
