(* ===== verification/Firmware.thy ===== *)
theory Firmware
  imports Request_Text Status_Led Power_Management
begin

text \<open>
  The firmware as a whole: the start-up sequence of \<open>main/meb-preheat.c\<close>, and the tasks, callbacks and
  queues that run afterwards as one step relation on the device. A step is one turn of a task's
  loop (the control task's turn is three steps, so that the other tasks act between its parts), one
  received byte, one callback; the clock moves on with every step. The invariants of the
  components are invariants of the system, and the properties of the components hold in it.
\<close>

section \<open>Start-up\<close>

text \<open>What the set-up functions of the modules are answered.\<close>

record boot_answers =
  bo_diag_lock :: bool
  bo_state_lock :: bool
  bo_pm :: "pm_call \<Rightarrow> esp_err"
  bo_console :: "console_init_call \<Rightarrow> esp_err"
  bo_ble :: "ble_init_call \<Rightarrow> esp_err"
  bo_led :: "led_call \<Rightarrow> esp_err"
  bo_can :: "can_call \<Rightarrow> esp_err"
  bo_mask_filters :: nat
  bo_test_tx_created :: bool
  bo_control_created :: bool
  bo_telemetry_created :: bool

type_synonym ('c, 'n) boot_state = "pm_state \<times> ('c, 'n) device"

text \<open>\<open>ESP_ERROR_CHECK\<close> aborts at the first error.\<close>

fun run_steps :: "('s \<Rightarrow> esp_err \<times> 's) list \<Rightarrow> 's \<Rightarrow> esp_err \<times> 's" where
  "run_steps [] s = (ESP_OK, s)"
| "run_steps (f # fs) s = (let (err, s1) = f s in if err \<noteq> ESP_OK then (err, s1) else run_steps fs s1)"

definition boot_steps ::
    "('c, 'n) platform \<Rightarrow> pm_options \<Rightarrow> boot_answers \<Rightarrow> answers \<Rightarrow>
     (('c, 'n) boot_state \<Rightarrow> esp_err \<times> ('c, 'n) boot_state) list" where
  "boot_steps pf opts b a =
     [\<lambda>(pm, dv). let (err, d) = meb_diag_init (bo_diag_lock b) (pa_reading a AtEvent) (pf_reset_reason pf) (dv_diag dv)
        in (err, pm, dv\<lparr>dv_diag := d\<rparr>),
      \<lambda>(pm, dv). let (err, st) = meb_settings_init (pf_nvs pf) (dv_settings dv) in (err, pm, dv\<lparr>dv_settings := st\<rparr>),
      \<lambda>(pm, dv). let (err, st) = meb_state_init (bo_state_lock b) (dv_app dv) in (err, pm, dv\<lparr>dv_app := st\<rparr>),
      \<lambda>(pm, dv). let (err, calls, pm1) = meb_power_management_init opts (bo_pm b) pm in (err, pm1, dv),
      \<lambda>(pm, dv). let (err, calls, dv1) = meb_serial_console_init (pa_uart_installed a) (bo_console b) dv in (err, pm, dv1),
      \<lambda>(pm, dv). let (err, calls, ble) = meb_ble_console_init (bo_ble b) (dv_ble dv) in (err, pm, dv\<lparr>dv_ble := ble\<rparr>),
      \<lambda>(pm, dv). let (err, calls) = meb_status_led_start (bo_led b) in (err, pm, dv),
      \<lambda>(pm, dv). let (err, calls, can, d) = meb_can_init (bo_mask_filters b) (bo_can b) (pa_reading a AtTransmit)
            (dv_can dv, dv_diag dv) in (err, pm, dv\<lparr>dv_can := can, dv_diag := d\<rparr>),
      \<lambda>(pm, dv). (meb_can_start_test_tx (bo_test_tx_created b), pm, dv),
      \<lambda>(pm, dv). let (err, dv1) = meb_control_start pf a (bo_control_created b) (bo_telemetry_created b) dv in (err, pm, dv1)]"

definition app_main ::
    "('c, 'n) platform \<Rightarrow> pm_options \<Rightarrow> boot_answers \<Rightarrow> answers \<Rightarrow> ('c, 'n) boot_state \<Rightarrow> esp_err \<times> ('c, 'n) boot_state" where
  "app_main pf opts b a s =
     (let (err, pm, dv) = run_steps (boot_steps pf opts b a) s in
      if err \<noteq> ESP_OK then (err, pm, dv)
      else (ESP_OK, pm,
        meb_serial_printf a AtPrint
          [''{\"v\":'', print_int MEB_PREHEATER_PROTOCOL_VERSION, '',\"type\":\"device.ready\",\"version\":\"'', MEB_APP_VERSION,
           ''\"}'', newline]
          (on_diag (meb_diag_record_event (pa_reading a AtEvent) (Some ''system'') (Some ''ready'')
             (Some (MEB_BUILD_MODE (pf_release pf)))) dv)))"

section \<open>The running system\<close>

text \<open>
  Where the control task is: before the auto-off check, between the check (made at the time
  given) and the snapshot, between the snapshot and acting on it.
\<close>

datatype control_pc = CtlCheck | CtlSnapshot int | CtlAct int meb_state_snapshot

record ('c, 'n) system =
  sy_dev :: "('c, 'n) device"
  sy_now :: int
  sy_control :: control_pc
  sy_last_soc_us :: int
  sy_last_report_tick :: u32
  sy_uart_line :: string
  sy_ble_queue :: "string list"
  sy_led :: "rgb option"
  sy_led_calls :: "led_call list"
  sy_pm :: pm_state
  sy_grace_until_us :: int

text \<open>All readings of a step lie between the clock before and after it.\<close>

definition during :: "int \<Rightarrow> answers \<Rightarrow> int \<Rightarrow> bool" where
  "during t a t' \<longleftrightarrow> t \<le> t' \<and> (\<forall>m. t \<le> pa_time a m \<and> pa_time a m \<le> t')"

text \<open>The interrupts of the CAN node.\<close>

datatype can_isr = IsrTxDone "nat option" bool | IsrError u32 | IsrState u32 u32

fun on_isr :: "can_isr \<Rightarrow> can_state \<Rightarrow> can_state" where
  "on_isr (IsrTxDone slot success) can = twai_tx_done_callback slot success can"
| "on_isr (IsrError flags) can = twai_error_callback flags can"
| "on_isr (IsrState old new) can = twai_state_change_callback old new can"

text \<open>
  A pass of the task that runs the queued BLE lines; it waits while the queue is empty.
\<close>

definition command_task ::
    "('c, 'n) platform \<Rightarrow> answers \<Rightarrow> string list \<times> ('c, 'n) device \<Rightarrow> (string list \<times> ('c, 'n) device) option" where
  "command_task pf a = (\<lambda>(queue, dv).
     (case queue of
        [] \<Rightarrow> None
      | cmd # rest \<Rightarrow> Some (rest, meb_serial_console_process_command pf a cmd dv)))"

lemma command_task_Some:
  "command_task pf a (queue, dv) = Some (rest, dv') \<longleftrightarrow>
     (\<exists>cmd. queue = cmd # rest \<and> dv' = meb_serial_console_process_command pf a cmd dv)"
  by (auto simp: command_task_def split: list.split)

text \<open>
  The steps, for a platform \<open>pf\<close> whose answers satisfy \<open>E\<close>. A BLE line is queued by the write
  callback and run by the BLE command task; a UART line is run by the task that reads the bytes. An
  error of the LED driver aborts the firmware, so that turn has no step.
\<close>

inductive sys_step :: "('c, 'n) platform \<Rightarrow> (answers \<Rightarrow> bool) \<Rightarrow> ('c, 'n) system \<Rightarrow> ('c, 'n) system \<Rightarrow> bool"
  for pf :: "('c, 'n) platform" and E :: "answers \<Rightarrow> bool" where
  step_check: "E a \<Longrightarrow> during (sy_now s) a t \<Longrightarrow> sy_control s = CtlCheck \<Longrightarrow>
    sys_step pf E s (s\<lparr>sy_now := t, sy_dev := control_auto_off pf a (sy_dev s), sy_control := CtlSnapshot (pa_time a AtChange)\<rparr>)"
| step_snapshot: "E a \<Longrightarrow> during (sy_now s) a t \<Longrightarrow> sy_control s = CtlSnapshot t1 \<Longrightarrow>
    sys_step pf E s (s\<lparr>sy_now := t, sy_control := CtlAct t1
      (meb_state_get_snapshot (pf_config pf) (pa_time a AtSnapshot) (dv_app (sy_dev s)))\<rparr>)"
| step_act: "E a \<Longrightarrow> during (sy_now s) a t \<Longrightarrow> sy_control s = CtlAct t1 state \<Longrightarrow>
    sys_step pf E s (s\<lparr>sy_now := t, sy_dev := control_act pf a state (sy_dev s), sy_control := CtlCheck\<rparr>)"
| step_telemetry: "E a \<Longrightarrow> during (sy_now s) a t \<Longrightarrow> telemetry_task pf a (sy_last_soc_us s, sy_dev s) = (delay, last_us, dv) \<Longrightarrow>
    sys_step pf E s (s\<lparr>sy_now := t, sy_dev := dv, sy_last_soc_us := last_us\<rparr>)"
| step_uart: "E a \<Longrightarrow> during (sy_now s) a t \<Longrightarrow>
    uart_command_task pf [(a, c)] (sy_uart_line s, sy_dev s) = (line, dv) \<Longrightarrow>
    sys_step pf E s (s\<lparr>sy_now := t, sy_uart_line := line, sy_dev := dv\<rparr>)"
| step_ble_access: "E a \<Longrightarrow> during (sy_now s) a t \<Longrightarrow>
    gatt_access_cb (pa_reading a AtEvent) attr acc (dv_ble (sy_dev s), dv_diag (sy_dev s)) = (code, answer, cmds, ble, d) \<Longrightarrow>
    sys_step pf E s (s\<lparr>sy_now := t, sy_ble_queue := sy_ble_queue s @ cmds, sy_dev := (sy_dev s)\<lparr>dv_ble := ble, dv_diag := d\<rparr>\<rparr>)"
| step_ble_command: "E a \<Longrightarrow> during (sy_now s) a t \<Longrightarrow>
    command_task pf a (sy_ble_queue s, sy_dev s) = Some (rest, dv) \<Longrightarrow>
    sys_step pf E s (s\<lparr>sy_now := t, sy_ble_queue := rest, sy_dev := dv\<rparr>)"
| step_gap: "E a \<Longrightarrow> during (sy_now s) a t \<Longrightarrow>
    gap_event_cb (pa_reading a AtEvent) rcs ev (dv_ble (sy_dev s), dv_diag (sy_dev s)) = (calls, ble, d) \<Longrightarrow>
    sys_step pf E s (s\<lparr>sy_now := t, sy_dev := (sy_dev s)\<lparr>dv_ble := ble, dv_diag := d\<rparr>\<rparr>)"
| step_sync: "E a \<Longrightarrow> during (sy_now s) a t \<Longrightarrow>
    on_sync (pa_reading a AtEvent) addr infer rcs (dv_ble (sy_dev s), dv_diag (sy_dev s)) = (calls, ble, d) \<Longrightarrow>
    sys_step pf E s (s\<lparr>sy_now := t, sy_dev := (sy_dev s)\<lparr>dv_ble := ble, dv_diag := d\<rparr>\<rparr>)"
| step_reset: "E a \<Longrightarrow> during (sy_now s) a t \<Longrightarrow>
    sys_step pf E s (s\<lparr>sy_now := t, sy_dev := on_diag (on_reset (pa_reading a AtEvent) reason) (sy_dev s)\<rparr>)"
| step_led: "E a \<Longrightarrow> during (sy_now s) a t \<Longrightarrow>
    led_task answer (meb_state_get_snapshot (pf_config pf) (pa_time a AtSnapshot) (dv_app (sy_dev s))) (sy_led s) = (led_calls, Some color) \<Longrightarrow>
    sys_step pf E s (s\<lparr>sy_now := t, sy_led := color, sy_led_calls := sy_led_calls s @ led_calls\<rparr>)"
| step_debug_pm: "E a \<Longrightarrow> during (sy_now s) a t \<Longrightarrow>
    debug_pm_task pm_answer (sy_grace_until_us s) (attached, pa_time a AtChange) (sy_pm s) = (pm_calls, pm) \<Longrightarrow>
    sys_step pf E s (s\<lparr>sy_now := t, sy_pm := pm\<rparr>)"
| step_can_task: "E a \<Longrightarrow> during (sy_now s) a t \<Longrightarrow>
    can_rx_task_step (pa_reading a AtChange) received tick info isr
      (sy_last_report_tick s, dv_can (sy_dev s), dv_app (sy_dev s), dv_diag (sy_dev s)) = (tick', can, app, d) \<Longrightarrow>
    sys_step pf E s (s\<lparr>sy_now := t, sy_last_report_tick := tick',
      sy_dev := (sy_dev s)\<lparr>dv_can := can, dv_app := app, dv_diag := d\<rparr>\<rparr>)"
| step_isr: "sys_step pf E s (s\<lparr>sy_dev := (sy_dev s)\<lparr>dv_can := on_isr isr (dv_can (sy_dev s))\<rparr>\<rparr>)"

inductive_cases sys_stepE: "sys_step pf E s s'"

inductive reachable :: "('c, 'n) platform \<Rightarrow> (answers \<Rightarrow> bool) \<Rightarrow> ('c, 'n) system \<Rightarrow> ('c, 'n) system \<Rightarrow> bool"
  for pf :: "('c, 'n) platform" and E :: "answers \<Rightarrow> bool" and s0 :: "('c, 'n) system" where
  reach_start: "reachable pf E s0 s0"
| reach_step: "reachable pf E s0 s \<Longrightarrow> sys_step pf E s s' \<Longrightarrow> reachable pf E s0 s'"

text \<open>
  The system as start-up leaves it, at the time \<open>t\<close>. The monitor of the debug lock reads the clock first
  when it starts.
\<close>

definition started ::
    "('c, 'n) platform \<Rightarrow> pm_options \<Rightarrow> ('c, 'n) boot_state \<Rightarrow> int \<Rightarrow> u32 \<Rightarrow> ('c, 'n) system" where
  "started pf opts boot t tick = \<lparr>sy_dev = snd boot, sy_now = t, sy_control = CtlCheck, sy_last_soc_us = telemetry_first_soc_us,
     sy_last_report_tick = tick, sy_uart_line = [], sy_ble_queue = [], sy_led = None, sy_led_calls = [],
     sy_pm = fst boot, sy_grace_until_us = grace_until_us opts t\<rparr>"

section \<open>What a command does to the shared state\<close>

definition app_event_of :: "request \<Rightarrow> app_event option" where
  "app_event_of req = (case req of HeatingSet b \<Rightarrow> Some (SetHeating b) | HeatingTimer n \<Rightarrow> Some (SetTimer n) | _ \<Rightarrow> None)"

lemma perform_app:
  "dv_app (snd (perform pf a req dv)) =
     (case app_event_of req of None \<Rightarrow> dv_app dv
      | Some ev \<Rightarrow> fst (app_step cfg (pa_reading a AtChange, ev) (dv_app dv, d)))"
  by (cases req) (simp_all add: perform_defs frame_simps app_event_of_def on_app_def
      meb_state_set_heating_enabled_def meb_state_set_auto_off_timer_minutes_def)

lemma command_app:
  "dv_app (meb_serial_console_process_command pf a cmd dv) = dv_app dv
   \<or> (\<exists>ev. dv_app (meb_serial_console_process_command pf a cmd dv) =
        fst (app_step cfg (pa_reading a AtChange, ev) (dv_app dv, d)))"
  by (auto simp: console_phases frame_simps perform_app [where cfg = cfg and d = d] send_rpc_error_def
      split: decoded.split option.split)

lemma perform_interval:
  "interval_in_range (dv_telemetry_interval_ms dv) \<Longrightarrow> interval_in_range (dv_telemetry_interval_ms (snd (perform pf a req dv)))"
  by (cases req) (simp_all add: perform_defs frame_simps set_interval_result valid_is_in_range)

lemma command_interval:
  "interval_in_range (dv_telemetry_interval_ms dv) \<Longrightarrow>
     interval_in_range (dv_telemetry_interval_ms (meb_serial_console_process_command pf a cmd dv))"
  by (simp add: console_phases frame_simps send_rpc_error_def perform_interval split: decoded.split)

lemma perform_ble: "dv_ble (snd (perform pf a req dv)) = dv_ble dv"
  by (cases req) (simp_all add: perform_defs frame_simps)

lemma command_ble: "dv_ble (meb_serial_console_process_command pf a cmd dv) = dv_ble dv"
  by (simp add: console_phases frame_simps send_rpc_error_def perform_ble split: decoded.split)

section \<open>Every step on the shared state\<close>

text \<open>
  A step leaves the shared state alone or does one event of \<open>App_State\<close>, at a time within the step.
\<close>

definition app_moves :: "build_config \<Rightarrow> int \<Rightarrow> int \<Rightarrow> app_state \<Rightarrow> app_state \<Rightarrow> bool" where
  "app_moves cfg t t' st st' \<longleftrightarrow> st' = st \<or>
     (\<exists>r ev. t \<le> rd_time_us r \<and> rd_time_us r \<le> t' \<and> st' = fst (app_step cfg (r, ev) (st, diag_boot_state)))"

lemma app_moves_refl [simp]: "app_moves cfg t t' st st"
  by (simp add: app_moves_def)

lemma app_moves_event:
  "t \<le> rd_time_us r \<Longrightarrow> rd_time_us r \<le> t' \<Longrightarrow> st' = fst (app_step cfg (r, ev) (st, d)) \<Longrightarrow> app_moves cfg t t' st st'"
proof -
  assume t: "t \<le> rd_time_us r" "rd_time_us r \<le> t'" and eq: "st' = fst (app_step cfg (r, ev) (st, d))"
  have "fst (app_step cfg (r, ev) (st, d)) = fst (app_step cfg (r, ev) (st, diag_boot_state))"
    by (cases ev) (auto simp: meb_state_set_heating_enabled_def meb_state_set_auto_off_timer_minutes_def
        meb_state_update_diag_response_def Let_def split: option.split)
  with t eq show ?thesis unfolding app_moves_def by blast
qed

lemma command_moves:
  "during t a t' \<Longrightarrow> app_moves cfg t t' (dv_app dv) (dv_app (meb_serial_console_process_command pf a cmd dv))"
proof -
  assume "during t a t'"
  then have "t \<le> pa_time a AtChange" "pa_time a AtChange \<le> t'" by (simp_all add: during_def)
  with command_app [where pf = pf and a = a and cmd = cmd and dv = dv and cfg = cfg and d = diag_boot_state]
  show ?thesis unfolding app_moves_def by blast
qed

lemma rx_event:
  "fst (process_rx_message r msg (st, d)) = st \<or> (\<exists>ev. fst (process_rx_message r msg (st, d)) = fst (app_step cfg (r, ev) (st, d)))"
proof -
  let ?data = "Some (rx_data msg)" and ?len = "rx_len msg"
  have "fst (process_rx_message r msg (st, d)) \<in> {st} \<union>
      (\<lambda>ev. fst (app_step cfg (r, ev) (st, d))) `
        {DiagResponse ?data ?len, HeatingStatus ?data ?len, ChargingOptimization ?data ?len, Dynamic ?data ?len,
         Temperature ?data ?len}"
    by (simp add: process_rx_message_def Let_def)
  then show ?thesis by blast
qed

lemma can_task_app:
  "can_rx_task_step r received tick info isr (tick0, can0, st, d) = (tick1, can1, st1, d1) \<Longrightarrow>
     st1 = (case received of None \<Rightarrow> st | Some msg \<Rightarrow> fst (process_rx_message r msg (st, d)))"
  by (auto simp: can_rx_task_step_def Let_def split_beta split: option.splits if_splits)

lemma step_moves:
  assumes "sys_step pf E s s'"
  shows "app_moves (pf_config pf) (sy_now s) (sy_now s') (dv_app (sy_dev s)) (dv_app (sy_dev s')) \<and> sy_now s \<le> sy_now s'"
  using assms
proof cases
  case (step_check a t)
  then have "sy_now s \<le> pa_time a AtChange" "pa_time a AtChange \<le> t" by (simp_all add: during_def)
  then have "app_moves (pf_config pf) (sy_now s) t (dv_app (sy_dev s))
      (snd (meb_state_apply_auto_off (pf_config pf) (pa_time a AtChange) (dv_app (sy_dev s))))"
    by (intro app_moves_event [where ev = ApplyAutoOff and r = "pa_reading a AtChange"]) simp_all
  with step_check show ?thesis by (simp add: frame_simps during_def)
next
  case (step_act a t t1 state)
  then have "sy_now s \<le> pa_time a AtChange" "pa_time a AtChange \<le> t" by (simp_all add: during_def)
  then have "app_moves (pf_config pf) (sy_now s) t (dv_app (sy_dev s)) (snd (meb_state_take_session_error (dv_app (sy_dev s))))"
    by (intro app_moves_event [where ev = TakeSessionError and r = "pa_reading a AtChange"]) simp_all
  with step_act show ?thesis by (simp add: frame_simps during_def)
next
  case (step_telemetry a t delay last_us dv)
  then have "dv_app dv = dv_app (sy_dev s)" using telemetry_frame(2) [of pf a "sy_last_soc_us s" "sy_dev s"] by simp
  with step_telemetry show ?thesis by (simp add: during_def)
next
  case (step_uart a t c line dv)
  then show ?thesis
    by (auto simp: Let_def split_beta during_def [of _ _ t] intro: command_moves split: option.splits)
next
  case (step_ble_command a t rest dv)
  then show ?thesis by (auto simp: command_task_Some command_moves) (simp add: during_def)
next
  case (step_can_task a t received tick info isr tick' can app d)
  then have t: "sy_now s \<le> pa_time a AtChange" "pa_time a AtChange \<le> t" by (simp_all add: during_def)
  from can_task_app [OF step_can_task(4)] rx_event [where cfg = "pf_config pf"]
  have "app_moves (pf_config pf) (sy_now s) t (dv_app (sy_dev s)) app"
    using t by (auto split: option.splits intro: app_moves_event) (metis app_moves_event app_moves_refl)
  with step_can_task show ?thesis by (simp add: during_def)
qed (simp_all add: during_def frame_simps)

end
