(* ===== verification/End_To_End.thy ===== *)
theory End_To_End
  imports Firmware
begin

text \<open>
  From the bytes of a request on the wire to its effect: the framing of \<open>Line_Framing\<close>, the decoding
  of \<open>Request_Text\<close> and the phases of \<open>Console_Spec\<close> composed, for both transports. The last section
  is about a line that a BLE client leaves unfinished.
\<close>

section \<open>The bytes of a request\<close>

definition char_byte :: "char \<Rightarrow> u8" where
  "char_byte c = of_nat (of_char c)"

definition wire :: "string \<Rightarrow> u8 list" where
  "wire s = map char_byte s"

text \<open>A line that no byte of which ends it early, and that fits the line buffers.\<close>

definition wire_safe :: "string \<Rightarrow> bool" where
  "wire_safe s \<longleftrightarrow> NUL \<notin> set s \<and> CHR 0x0A \<notin> set s \<and> CHR 0x0D \<notin> set s \<and> length s \<le> 1023"

lemma byte_char_char_byte [simp]: "byte_char (char_byte c) = c"
proof -
  have "(of_char c :: nat) < 256" by (rule nat_of_char_less_256)
  then show ?thesis by (simp add: byte_char_def char_byte_def unat_of_nat take_bit_nat_eq_self)
qed

lemma text_of_wire [simp]: "text_of (wire s) = s"
  by (simp add: text_of_def wire_def comp_def)

lemma char_byte_newline: "is_newline (char_byte c) \<longleftrightarrow> c = CHR 0x0A \<or> c = CHR 0x0D"
proof -
  have "byte_char 10 = CHR 0x0A" "byte_char 13 = CHR 0x0D" by code_simp+
  moreover have "char_byte (CHR 0x0A) = 10" "char_byte (CHR 0x0D) = 13" by code_simp+
  ultimately show ?thesis unfolding is_newline_def by (metis byte_char_char_byte)
qed

lemma plain_wire: "wire_safe s \<Longrightarrow> plain (wire s)"
  by (auto simp: plain_def wire_def wire_safe_def list_all_iff char_byte_newline)

lemma brace_byte: "char_byte (CHR ''{'') = 0x7B"
  by code_simp

lemma request_starts: "\<exists>rest. request_text k req = CHR ''{'' # rest"
  by (simp add: request_text_def)

lemma wire_request: "\<exists>bs. wire (request_text k req) = 0x7B # bs \<and> text_of (0x7B # bs) = request_text k req
    \<and> (wire_safe (request_text k req) \<longrightarrow> plain bs \<and> Suc (length bs) \<le> 1023)"
proof -
  obtain rest where r: "request_text k req = CHR ''{'' # rest" using request_starts by blast
  then have w: "wire (request_text k req) = 0x7B # wire rest" by (simp add: wire_def brace_byte)
  then have "text_of (0x7B # wire rest) = request_text k req" using text_of_wire [of "request_text k req"] by simp
  moreover have "plain (wire rest) \<and> Suc (length (wire rest)) \<le> 1023" if "wire_safe (request_text k req)"
    using plain_wire [OF that] that unfolding w by (simp add: plain_def wire_safe_def r wire_def)
  ultimately show ?thesis using w by blast
qed

section \<open>UART\<close>

lemma uart_task_append:
  "uart_command_task pf (xs @ ys) s = uart_command_task pf ys (uart_command_task pf xs s)"
  by (induction pf xs s rule: uart_command_task.induct) (simp_all add: split_beta Let_def)

lemma uart_task_collects:
  "fst (uart_feed (map snd xs) buf) = [] \<Longrightarrow>
     uart_command_task pf xs (buf, dv) = (snd (uart_feed (map snd xs) buf), dv)"
proof (induction xs arbitrary: buf)
  case (Cons x xs)
  obtain a c where x: "x = (a, c)" by fastforce
  show ?case using Cons by (simp add: x Let_def split_beta split: option.splits)
qed simp

lemma uart_serves_line:
  assumes "map snd chunk = 0x7B # bs @ [10]" and "plain bs" and "Suc (length bs) \<le> 1023"
  shows "uart_command_task pf chunk ('''', dv) =
    ('''', meb_serial_console_process_command pf (fst (List.last chunk)) (c_str (text_of (0x7B # bs))) dv)"
proof -
  have "chunk \<noteq> []" using assms(1) by auto
  then obtain xs a c where chunk: "chunk = xs @ [(a, c)]" by (metis append_butlast_last_id surj_pair)
  with assms(1) have xs: "map snd xs = 0x7B # bs" and c: "c = 10"
    by (simp_all flip: append_Cons)
  have start: "\<not> is_newline 0x7B" by (simp add: is_newline_def)
  have feed: "uart_feed (map snd xs) [] = ([], byte_char 0x7B # text_of bs)"
    using uart_lines.feed_start [OF start, of bs] uart_lines.collect [OF assms(2), of "[byte_char 0x7B]" "[]"] assms(3)
    by (simp add: xs CMD_RX_BUF_SIZE_def)
  have "uart_command_task pf xs ('''', dv) = (byte_char 0x7B # text_of bs, dv)"
    using uart_task_collects [of xs "''''" pf dv] feed by simp
  then show ?thesis
    by (simp add: chunk uart_task_append c uart_feed_byte_def is_newline_def text_of_def)
qed

section \<open>BLE\<close>

lemma feed_rx_is_ble_feed:
  "buffer_ok (s_rx_line st) \<Longrightarrow> s_command_queue st \<Longrightarrow>
     fst (feed_rx_bytes r (map (\<lambda>c. (c, True)) bs) (st, d)) = fst (ble_feed bs (s_rx_line st))
   \<and> s_rx_line (fst (snd (feed_rx_bytes r (map (\<lambda>c. (c, True)) bs) (st, d)))) = snd (ble_feed bs (s_rx_line st))
   \<and> s_command_queue (fst (snd (feed_rx_bytes r (map (\<lambda>c. (c, True)) bs) (st, d))))"
proof (induction bs arbitrary: st d)
  case (Cons c bs)
  obtain line dropped buf where byte: "ble_feed_byte c (s_rx_line st) = (line, dropped, buf)"
    by (cases "ble_feed_byte c (s_rx_line st)")
  have ok: "pred_option command_ok line" "buffer_ok buf"
    using feed_byte_ok [OF Cons.prems(1), of c] byte by simp_all
  have len: "length l \<le> 1023 \<and> l \<noteq> []" if "line = Some l" for l
    using ok(1) that by (simp add: command_ok_def)
  show ?case
    using Cons.IH [of "st\<lparr>s_rx_line := buf\<rparr>"] Cons.prems(2) ok(2) len
    by (cases line) (auto simp: byte Let_def split_beta queue_line_def BLE_CMD_RX_BUF_SIZE_def)
qed simp

lemma wire_request_command:
  assumes "wire_safe (request_text k req)" and "s_command_queue ble" and "s_rx_line ble = []"
  shows "fst (feed_rx_bytes r (map (\<lambda>c. (c, True)) (wire (request_text k req) @ [10])) (ble, d)) = [request_text k req]"
proof -
  obtain bs where w: "wire (request_text k req) = 0x7B # bs" "text_of (0x7B # bs) = request_text k req"
    and bs: "plain bs" "Suc (length bs) \<le> 1023"
    using wire_request [of k req] assms(1) by blast
  have text_ok: "c_str (text_of (0x7B # bs)) = request_text k req"
    using assms(1) unfolding w(2) wire_safe_def by simp
  have newline: "is_newline 10" by (simp add: is_newline_def)
  have "ble_feed (0x7B # bs @ [10]) [] = ([request_text k req], [])"
    using ble_lines.line [OF bs(1) _ newline, of "[]"] bs(2) text_ok by (simp add: BLE_CMD_RX_BUF_SIZE_def)
  then show ?thesis
    using feed_rx_is_ble_feed [of ble r "wire (request_text k req) @ [10]" d] assms(2,3) w(1)
    by (simp add: buffer_ok_def del: feed_rx_bytes.simps ble_feed.simps)
qed

text \<open>
  C8: A request is served from the wire. The bytes of a request's line, sent to the UART, or written
  to the BLE characteristic and taken from the queue, have exactly the effect of the request: it is
  performed, and its reply is rendered with its identifier. This holds for every request whose text
  fits a line and has no NUL and no line break in its strings.
\<close>

theorem request_served_from_wire:
  assumes "wire_safe (request_text k req)" and "request_fits req" and "length (print_dec k) < 64"
    and "map snd chunk = wire (request_text k req) @ [10]"
    and "s_command_queue ble" and "s_rx_line ble = ''''"
  shows "uart_command_task pf chunk ('''', dv) =
      ('''', let (reply, dv1) = perform pf (fst (List.last chunk)) req dv in render (fst (List.last chunk)) True (print_dec k) reply dv1)
    \<and> fst (feed_rx_bytes r (map (\<lambda>c. (c, True)) (wire (request_text k req) @ [10])) (ble, d)) = [request_text k req]
    \<and> meb_serial_console_process_command pf a (request_text k req) dv =
      (let (reply, dv1) = perform pf a req dv in render a True (print_dec k) reply dv1)"
proof -
  obtain bs where w: "wire (request_text k req) = 0x7B # bs" "text_of (0x7B # bs) = request_text k req"
    and bs: "plain bs" "Suc (length bs) \<le> 1023"
    using wire_request [of k req] assms(1) by blast
  have text_ok: "c_str (text_of (0x7B # bs)) = request_text k req"
    using assms(1) unfolding w(2) wire_safe_def by simp
  have command: "meb_serial_console_process_command pf a (request_text k req) dv =
      (let (reply, dv1) = perform pf a req dv in render a True (print_dec k) reply dv1)" for a
    by (simp add: console_eq_phases decode_request_text [OF assms(2,3)])
  have "fst (feed_rx_bytes r (map (\<lambda>c. (c, True)) (wire (request_text k req) @ [10])) (ble, d)) = [request_text k req]"
    by (rule wire_request_command [OF assms(1,5,6)])
  moreover have "uart_command_task pf chunk ('''', dv) =
      ('''', meb_serial_console_process_command pf (fst (List.last chunk)) (request_text k req) dv)"
    using uart_serves_line [OF _ bs, of chunk pf dv] assms(4) w(1) text_ok by simp
  ultimately show ?thesis by (simp add: command)
qed

abbreviation on_request :: string where
  "on_request \<equiv> request_text 7 (HeatingSet True)"

lemma on_request_ok: "wire_safe on_request" "length (print_dec 7) < 64" "request_fits (HeatingSet True)"
  by (simp_all add: wire_safe_def request_text_def print_dec_def print_base.simps digit_char_def bool_text_def quote_def NUL_def) code_simp

theorem request_served_from_wire_witness:
  "heating_enabled (s_state (dv_app (snd (uart_command_task bench_platform
      (map (\<lambda>c. (bench_answers 5, c)) (wire on_request @ [10])) ('''', bench_device)))))"
proof -
  let ?chunk = "map (\<lambda>c. (bench_answers 5, c)) (wire on_request @ [10])"
  have chunk: "map snd ?chunk = wire on_request @ [10]" by (simp add: comp_def)
  have "s_command_queue (ble_boot_state 1\<lparr>s_command_queue := True\<rparr>)" and "s_rx_line (ble_boot_state 1\<lparr>s_command_queue := True\<rparr>) = ''''"
    by (simp_all add: ble_boot_state_def)
  note served = request_served_from_wire [OF on_request_ok(1,3,2) chunk this, of bench_platform bench_device, THEN conjunct1]
  show ?thesis
    unfolding served
    by (simp add: split_beta Let_def frame_simps perform_app [where cfg = default_config and d = diag_boot_state]
        app_event_of_def meb_state_set_heating_enabled_def set_heating_locked_def del: perform.simps)
qed

section \<open>A line left behind\<close>

text \<open>
  A client whose connection ends in the middle of a line leaves its bytes in the buffer; the
  callbacks for the end of the connection and for the next one do not clear it.
\<close>

lemma fragment_kept:
  assumes "wire_safe frag" and "hd frag = CHR ''{''" and "frag \<noteq> ''''"
    and "s_command_queue ble" and "s_rx_line ble = ''''"
    and "feed_rx_bytes r (map (\<lambda>c. (c, True)) (wire frag)) (ble, d) = (cmds, ble1, d1)"
  shows "cmds = [] \<and> s_rx_line ble1 = frag \<and> s_command_queue ble1"
proof -
  obtain rest where frag: "frag = CHR ''{'' # rest" using assms(2,3) by (cases frag) simp_all
  have start: "\<not> is_newline 0x7B" by (simp add: is_newline_def)
  have "plain (wire rest)" "length (wire rest) \<le> 1022"
    using plain_wire [OF assms(1)] assms(1) by (simp_all add: frag wire_def plain_def wire_safe_def)
  then have "ble_feed (wire frag) [] = ([], frag)"
    using ble_lines.feed_start [OF start, of "wire rest"] ble_lines.collect [of "wire rest" "[byte_char 0x7B]" "[]"]
    by (simp add: frag wire_def brace_byte [symmetric] BLE_CMD_RX_BUF_SIZE_def text_of_wire [unfolded wire_def] del: ble_feed.simps(2))
  then show ?thesis using feed_rx_is_ble_feed [of ble r "wire frag" d] assms(4-6)
    by (simp add: buffer_ok_def del: ble_feed.simps)
qed

lemma line_after_fragment:
  assumes "wire_safe t" and "NUL \<notin> set frag" and "frag \<noteq> ''''" and "length frag + length t \<le> 1023"
  shows "ble_feed (wire t @ [10]) frag = ([frag @ t], [])"
proof -
  have newline: "is_newline 10" by (simp add: is_newline_def)
  have "ble_feed (wire t @ [10]) frag = ble_feed [10] (frag @ t)"
    using ble_lines.collect [OF plain_wire [OF assms(1)] assms(3), of "[10]"] assms(4)
    by (simp add: wire_def BLE_CMD_RX_BUF_SIZE_def text_of_wire [unfolded wire_def] del: ble_feed.simps)
  also have "\<dots> = ([c_str (frag @ t)], [])"
    using ble_lines.feed_newline [OF newline, of "[]" "frag @ t"] assms(3) by (simp add: Let_def)
  also have "c_str (frag @ t) = frag @ t" using assms(1,2) by (simp add: wire_safe_def)
  finally show ?thesis .
qed

text \<open>
  C21: A line that a BLE client leaves unfinished is glued to the first line of the next client. After
  any unfinished line, the end of that connection and a new connection, the next client's request
  is queued as one command with the bytes left behind in front of it; and when these are a request
  without its line end, that request is performed and answered, and the next client's is not.
\<close>

theorem abandoned_line_joins_next:
  assumes "wire_safe frag" and "hd frag = CHR ''{''" and "frag \<noteq> ''''"
    and "wire_safe (request_text k' req')" and "length frag + length (request_text k' req') \<le> 1023"
    and "s_command_queue ble" and "s_rx_line ble = ''''"
    and "feed_rx_bytes r1 (map (\<lambda>c. (c, True)) (wire frag)) (ble, d) = (cmds1, s1)"
    and "gap_event_cb r2 rcs2 (GapDisconnect reason h) s1 = (calls2, s2)"
    and "gap_event_cb r3 rcs3 (GapConnect 0 h') s2 = (calls3, s3)"
    and "feed_rx_bytes r4 (map (\<lambda>c. (c, True)) (wire (request_text k' req') @ [10])) s3 = (cmds4, s4)"
  shows "cmds1 = [] \<and> cmds4 = [frag @ request_text k' req']
    \<and> (frag = request_text k req \<and> request_fits req \<and> length (print_dec k) < 64 \<longrightarrow>
        meb_serial_console_process_command pf a (frag @ request_text k' req') dv =
          (let (reply, dv1) = perform pf a req dv in render a True (print_dec k) reply dv1))"
proof (intro conjI impI)
  obtain ble1 d1 where s1: "s1 = (ble1, d1)" by fastforce
  note kept = fragment_kept [OF assms(1-3,6,7) assms(8) [unfolded s1]]
  then show "cmds1 = []" by blast
  obtain ble3 d3 where s3: "s3 = (ble3, d3)" by fastforce
  have buf: "s_rx_line ble3 = frag" "s_command_queue ble3"
    using kept gap_line [of r2 rcs2 "GapDisconnect reason h" s1] gap_line [of r3 rcs3 "GapConnect 0 h'" s2] assms(9,10)
    by (simp_all add: s1 s3)
  have "buffer_ok frag" using assms(2,3,5) by (cases frag) (simp_all add: buffer_ok_def)
  moreover have "ble_feed (wire (request_text k' req') @ [10]) frag = ([frag @ request_text k' req'], [])"
    using assms(1) by (intro line_after_fragment [OF assms(4) _ assms(3,5)]) (simp add: wire_safe_def)
  ultimately show "cmds4 = [frag @ request_text k' req']"
    using feed_rx_is_ble_feed [of ble3 r4 "wire (request_text k' req') @ [10]" d3] buf assms(11)
    by (simp add: s3 del: ble_feed.simps)
next
  assume "frag = request_text k req \<and> request_fits req \<and> length (print_dec k) < 64"
  then show "meb_serial_console_process_command pf a (frag @ request_text k' req') dv =
      (let (reply, dv1) = perform pf a req dv in render a True (print_dec k) reply dv1)"
    by (simp add: console_eq_phases decode_request_tail)
qed

theorem abandoned_line_joins_next_witness:
  "heating_enabled (s_state (dv_app (meb_serial_console_process_command bench_platform (bench_answers 5)
      (on_request @ request_text 8 HeatingGet) bench_device)))"
proof -
  let ?ble = "ble_boot_state 1\<lparr>s_command_queue := True\<rparr>" and ?r = "pa_reading (bench_answers 5) AtEvent"
  obtain cmds1 s1 where f1: "feed_rx_bytes ?r (map (\<lambda>c. (c, True)) (wire on_request)) (?ble, diag_boot_state) = (cmds1, s1)" by (rule prod.exhaust)
  obtain calls2 s2 where g2: "gap_event_cb ?r (0, 0, 0) (GapDisconnect 19 1) s1 = (calls2, s2)" by (rule prod.exhaust)
  obtain calls3 s3 where g3: "gap_event_cb ?r (0, 0, 0) (GapConnect 0 2) s2 = (calls3, s3)" by (rule prod.exhaust)
  obtain cmds4 s4 where f4: "feed_rx_bytes ?r (map (\<lambda>c. (c, True)) (wire (request_text 8 HeatingGet) @ [10])) s3 = (cmds4, s4)"
    by (rule prod.exhaust)
  have get: "wire_safe (request_text 8 HeatingGet)" "length on_request + length (request_text 8 HeatingGet) \<le> 1023"
    by (simp_all add: wire_safe_def request_text_def print_dec_def print_base.simps digit_char_def bool_text_def quote_def NUL_def)
      code_simp
  have start: "hd on_request = CHR ''{''" "on_request \<noteq> ''''" by (simp_all add: request_text_def)
  have "s_command_queue ?ble" "s_rx_line ?ble = ''''" by (simp_all add: ble_boot_state_def)
  note joined = abandoned_line_joins_next [OF on_request_ok(1) start get this f1 g2 g3 f4,
      where k = 7 and req = "HeatingSet True" and pf = bench_platform and a = "bench_answers 5" and dv = bench_device,
      THEN conjunct2, THEN conjunct2]
  show ?thesis
    by (subst joined [rule_format])
      (use on_request_ok in \<open>simp_all add: split_beta Let_def frame_simps perform_app [where cfg = default_config and d = diag_boot_state]
        app_event_of_def meb_state_set_heating_enabled_def set_heating_locked_def del: perform.simps\<close>)
qed

end
