(* ===== verification/Event_Json.thy ===== *)
theory Event_Json
  imports Serial_Console
begin

text \<open>
  The event log as JSON: \<open>format_event_log_json\<close> of \<open>main/serial_console.c\<close> builds the text piece by
  piece in a fixed buffer; it is proved to produce the whole text of the last events, or nothing.
\<close>

section \<open>The whole text\<close>

fun with_commas :: "string list \<Rightarrow> string" where
  "with_commas [] = ''''"
| "with_commas [x] = x"
| "with_commas (x # xs) = x @ '','' @ with_commas xs"

definition event_text :: "meb_diag_event \<Rightarrow> string" where
  "event_text ev = concat (event_parts ev)"

text \<open>The log of the last \<open>n\<close> events, as a JSON object.\<close>

definition event_log_text :: "nat \<Rightarrow> meb_diag_event_snapshot \<Rightarrow> string" where
  "event_log_text n snapshot =
     ''{\"capacity\":'' @ print_dec (unat (sn_capacity snapshot)) @ '',\"count\":'' @ print_dec (unat (sn_count snapshot))
     @ '',\"returned\":'' @ print_dec n @ '',\"overwritten\":'' @ print_dec (unat (sn_overwritten snapshot))
     @ '',\"events\":['' @ with_commas (map event_text (last_part n (sn_events snapshot))) @ '']}''"

section \<open>All or nothing\<close>

definition fits :: "nat \<Rightarrow> string \<Rightarrow> string option" where
  "fits n s = (if length s < n then Some s else None)"

lemma append_fits: "json_appendf n parts buf = fits n (buf @ concat parts)"
  by (auto simp: json_appendf_def fits_def Let_def)

text \<open>What the loop appends: a comma before every event but the first.\<close>

fun loop_text :: "bool \<Rightarrow> meb_diag_event list \<Rightarrow> string" where
  "loop_text first [] = ''''"
| "loop_text first (ev # evs) = (if first then '''' else '','') @ event_text ev @ loop_text False evs"

lemma append_events_fits: "length buf < n \<Longrightarrow> append_events n first evs buf = fits n (buf @ loop_text first evs)"
proof (induction evs arbitrary: first buf)
  case Nil
  then show ?case by (simp add: fits_def)
next
  case (Cons ev evs)
  then show ?case
    by (auto simp: append_fits fits_def event_text_def [symmetric] split: option.splits if_splits)
qed

lemma loop_text_rest: "loop_text False evs = concat (map (\<lambda>e. CHR '','' # event_text e) evs)"
  by (induction evs) simp_all

lemma commas_rest: "with_commas (x # map event_text evs) = x @ concat (map (\<lambda>e. CHR '','' # event_text e) evs)"
  by (induction evs arbitrary: x) simp_all

lemma loop_text_commas: "loop_text True evs = with_commas (map event_text evs)"
  by (cases evs) (simp_all add: loop_text_rest commas_rest)

lemma copied_count: "length (sn_events (meb_diag_get_events d)) = unat (sn_count (meb_diag_get_events d))"
  by (simp add: meb_diag_get_events_def diag_copy_events_def)

text \<open>
  C34: The event log is all or nothing. The answer is the text of the last events, as many as were
  asked for, at most eight and at most as many as are recorded, with the number of events it
  shows; when the whole text does not fit the buffer with its terminator the answer is an error,
  never a text cut short.
\<close>

theorem event_log_all_or_nothing:
  "format_event_log_json buf_len limit d =
     (let snapshot = meb_diag_get_events d; n = min (min (unat limit) 8) (length (sn_events snapshot));
          whole = event_log_text n snapshot
      in if length whole < buf_len then Some whole else None)"
proof -
  let ?s = "meb_diag_get_events d"
  define limit1 where "limit1 = (if limit > DIAG_EVENTS_MAX_LIMIT then DIAG_EVENTS_MAX_LIMIT else limit)"
  define limit2 where "limit2 = (if limit1 > sn_count ?s then sn_count ?s else limit1)"
  define start where "start = (if sn_count ?s > limit2 then sn_count ?s - limit2 else 0)"
  have "unat limit1 = min (unat limit) 8"
    by (auto simp: limit1_def DIAG_EVENTS_MAX_LIMIT_def word_less_nat_alt)
  then have n: "unat limit2 = min (min (unat limit) 8) (length (sn_events ?s))"
    by (auto simp: limit2_def copied_count word_less_nat_alt)
  have "unat start = length (sn_events ?s) - unat limit2"
    by (auto simp: start_def copied_count word_less_nat_alt unat_sub_if_size not_less)
  then have events: "drop (unat start) (sn_events ?s) = last_part (unat limit2) (sn_events ?s)"
    by (simp add: last_part_def)
  show ?thesis
    unfolding format_event_log_json_def Let_def limit1_def [symmetric] limit2_def [symmetric] start_def [symmetric] events
      n [symmetric]
    by (auto simp: append_fits append_events_fits fits_def loop_text_commas event_log_text_def split: option.splits if_splits)
qed

end
