(* ===== verification/System_Properties.thy ===== *)
theory System_Properties
  imports End_To_End Event_Json
begin

text \<open>
  The invariants of the running system, by rule induction over its steps, and what follows for the
  device: heating ends at the safety limit whatever the tasks, commands and frames do in between,
  and the boot partition is switched only to a verified image.
\<close>

section \<open>Start-up\<close>

lemma load_frame [frame_simps]:
  "dv_app (snd (load_telemetry_interval_setting pf a dv)) = dv_app dv"
  "dv_ota (snd (load_telemetry_interval_setting pf a dv)) = dv_ota dv"
  "dv_ble (snd (load_telemetry_interval_setting pf a dv)) = dv_ble dv"
  "dv_trace (snd (load_telemetry_interval_setting pf a dv)) = dv_trace dv"
  "interval_in_range (dv_telemetry_interval_ms dv) \<Longrightarrow>
     interval_in_range (dv_telemetry_interval_ms (snd (load_telemetry_interval_setting pf a dv)))"
  by (simp_all add: load_telemetry_interval_setting_def set_telemetry_interval_in_memory_def valid_is_in_range
      split_beta frame_simps Let_def split: sum.split)

lemma start_frame [frame_simps]:
  "dv_app (snd (meb_control_start pf a x y dv)) = dv_app dv" "dv_ota (snd (meb_control_start pf a x y dv)) = dv_ota dv"
  "dv_ble (snd (meb_control_start pf a x y dv)) = dv_ble dv" "dv_trace (snd (meb_control_start pf a x y dv)) = dv_trace dv"
  "interval_in_range (dv_telemetry_interval_ms dv) \<Longrightarrow>
     interval_in_range (dv_telemetry_interval_ms (snd (meb_control_start pf a x y dv)))"
  by (simp_all add: meb_control_start_def Let_def split_beta frame_simps)

lemma console_init_frame [frame_simps]:
  "dv_app (snd (snd (meb_serial_console_init x y dv))) = dv_app dv" "dv_ota (snd (snd (meb_serial_console_init x y dv))) = dv_ota dv"
  "dv_ble (snd (snd (meb_serial_console_init x y dv))) = dv_ble dv" "dv_trace (snd (snd (meb_serial_console_init x y dv))) = dv_trace dv"
  "dv_telemetry_interval_ms (snd (snd (meb_serial_console_init x y dv))) = dv_telemetry_interval_ms dv"
  by (simp_all add: meb_serial_console_init_def Let_def)

lemma ble_init_line: "s_rx_line (snd (snd (meb_ble_console_init answer st))) = s_rx_line st"
  by (simp add: meb_ble_console_init_def Let_def split_beta)

lemma default_interval: "interval_in_range MEB_TELEMETRY_PERIOD_MS"
  by (simp add: interval_in_range_def MEB_TELEMETRY_PERIOD_MS_def MEB_TELEMETRY_MIN_PERIOD_MS_def MEB_TELEMETRY_MAX_PERIOD_MS_def)

text \<open>What every start-up step leaves as at power-up.\<close>

definition fresh :: "('c, 'n) platform \<Rightarrow> ('c, 'n) device \<Rightarrow> bool" where
  "fresh pf dv \<longleftrightarrow> (\<exists>lock. dv_app dv = app_boot_state\<lparr>s_state_lock := lock\<rparr>) \<and> dv_ota dv = ota_zero (pf_sha pf)
   \<and> s_rx_line (dv_ble dv) = '''' \<and> acts_of (dv_trace dv) = [] \<and> interval_in_range (dv_telemetry_interval_ms dv)"

lemma run_steps_inv:
  "list_all (\<lambda>f. \<forall>s. I s \<longrightarrow> I (snd (f s))) fs \<Longrightarrow> I s \<Longrightarrow> I (snd (run_steps fs s))"
  by (induction fs arbitrary: s) (auto simp: Let_def split_beta)

lemma state_init_fresh: "\<exists>lock. snd (meb_state_init b (app_boot_state\<lparr>s_state_lock := l\<rparr>)) = app_boot_state\<lparr>s_state_lock := lock\<rparr>"
  by (simp add: meb_state_init_def) blast

lemma boot_steps_fresh:
  "list_all (\<lambda>f. \<forall>s. fresh pf (snd s) \<longrightarrow> fresh pf (snd (snd (f s)))) (boot_steps pf opts b a)"
  using state_init_fresh
  by (auto simp: boot_steps_def split_beta Let_def fresh_def frame_simps ble_init_line)

lemma boot_state:
  assumes "app_main pf opts b a (pm_boot_state, device_boot_state pf f) = (ESP_OK, pm, dv)"
  shows "fresh pf dv"
proof -
  have "app_boot_state = app_boot_state\<lparr>s_state_lock := False\<rparr>" by (simp add: app_boot_state_def)
  then have "fresh pf (device_boot_state pf f)"
    unfolding fresh_def by (auto simp: device_boot_state_def ble_boot_state_def default_interval)
  then have "fresh pf (snd (snd (run_steps (boot_steps pf opts b a) (pm_boot_state, device_boot_state pf f))))"
    using run_steps_inv [OF boot_steps_fresh, of pf "(pm_boot_state, device_boot_state pf f)" opts b a] by simp
  then show ?thesis
    using assms by (auto simp: app_main_def Let_def split_beta fresh_def frame_simps split: if_splits)
qed

section \<open>The invariant of the system\<close>

definition on_since :: "('c, 'n) system \<Rightarrow> int" where
  "on_since s = s_heating_enabled_since_us (dv_app (sy_dev s))"

definition heating_on :: "('c, 'n) system \<Rightarrow> bool" where
  "heating_on s = heating_enabled (s_state (dv_app (sy_dev s)))"

definition sys_inv :: "('c, 'n) system \<Rightarrow> bool" where
  "sys_inv s \<longleftrightarrow> 0 < sy_now s \<and> app_inv (dv_app (sy_dev s)) \<and> on_since s \<le> sy_now s
   \<and> interval_in_range (dv_telemetry_interval_ms (sy_dev s))
   \<and> buffer_ok (sy_uart_line s) \<and> buffer_ok (s_rx_line (dv_ble (sy_dev s))) \<and> list_all command_ok (sy_ble_queue s)
   \<and> snd (strip_after (sy_led_calls s) (None, None)) = sy_led s"

lemma app_step_since_le:
  "s_heating_enabled_since_us (fst s) \<le> t \<Longrightarrow> 0 \<le> t \<Longrightarrow> rd_time_us r \<le> t \<Longrightarrow>
     s_heating_enabled_since_us (fst (app_step cfg (r, ev) s)) \<le> t"
  by (cases s; cases ev) (auto simp: meb_state_set_heating_enabled_def set_heating_locked_def
      meb_state_set_auto_off_timer_minutes_def set_timer_locked_def meb_state_apply_auto_off_def
      meb_state_take_session_error_def signal_defs Let_def split: option.splits)

lemma moves_inv:
  assumes "app_moves cfg t t' st st'" and "app_inv st" and "s_heating_enabled_since_us st \<le> t" and "0 < t" and "t \<le> t'"
  shows "app_inv st' \<and> s_heating_enabled_since_us st' \<le> t'"
proof (cases "st' = st")
  case False
  then obtain r ev where r: "t \<le> rd_time_us r" "rd_time_us r \<le> t'" and st': "st' = fst (app_step cfg (r, ev) (st, diag_boot_state))"
    using assms(1) unfolding app_moves_def by blast
  show ?thesis
    using app_step_inv [of "(st, diag_boot_state)" "(r, ev)" cfg] app_step_since_le [of "(st, diag_boot_state)" t' r cfg ev]
      assms r st' by simp
qed (use assms in simp)

lemma moves_since:
  assumes "app_moves cfg t t' st st'" and "heating_enabled (s_state st)" and "heating_enabled (s_state st')"
  shows "s_heating_enabled_since_us st' = s_heating_enabled_since_us st"
  using assms app_step_since [of "(st, diag_boot_state)" cfg] unfolding app_moves_def by fastforce

lemma command_queued: "command_ok l \<Longrightarrow> snprintf BLE_CMD_RX_BUF_SIZE l = l"
  by (simp add: command_ok_def BLE_CMD_RX_BUF_SIZE_def)

lemma feed_rx_Cons:
  assumes "ble_feed_byte c (s_rx_line st) = (line, dropped, buf)"
    and "(case line of Some l \<Rightarrow> queue_line r sent l (st, d)
      | None \<Rightarrow> (None, st, if dropped then meb_diag_record_event r (Some ''ble'') (Some ''cmd_overlong'') (Some '''') d else d))
      = (queued, st1, d1)"
    and "feed_rx_bytes r bs (st1\<lparr>s_rx_line := buf\<rparr>, d1) = (cmds, st2, d2)"
  shows "feed_rx_bytes r ((c, sent) # bs) (st, d) = ((case queued of Some cmd \<Rightarrow> cmd # cmds | None \<Rightarrow> cmds), st2, d2)"
  unfolding feed_rx_bytes.simps assms(1) Let_def prod.case assms(2,3) ..

lemma feed_rx_ok:
  "feed_rx_bytes r bs (st, d) = (cmds, st', d') \<Longrightarrow> buffer_ok (s_rx_line st) \<Longrightarrow>
     list_all command_ok cmds \<and> buffer_ok (s_rx_line st')"
proof (induction bs arbitrary: st d cmds)
  case (Cons b bs)
  obtain c sent where b: "b = (c, sent)" by fastforce
  obtain line dropped buf where byte: "ble_feed_byte c (s_rx_line st) = (line, dropped, buf)"
    by (cases "ble_feed_byte c (s_rx_line st)")
  have ok: "pred_option command_ok line" "buffer_ok buf"
    using feed_byte_ok [OF Cons.prems(2), of c] byte by simp_all
  obtain queued st1 d1 where queue: "(case line of Some l \<Rightarrow> queue_line r sent l (st, d)
      | None \<Rightarrow> (None, st, if dropped then meb_diag_record_event r (Some ''ble'') (Some ''cmd_overlong'') (Some '''') d else d))
      = (queued, st1, d1)"
    by (rule prod_cases3)
  have "pred_option command_ok (fst (queued, st1, d1))"
    unfolding queue [symmetric] using ok(1) by (auto simp: queue_line_def command_queued Let_def split: option.split)
  moreover obtain cmds' st'' d'' where rest: "feed_rx_bytes r bs (st1\<lparr>s_rx_line := buf\<rparr>, d1) = (cmds', st'', d'')"
    by (rule prod_cases3)
  note fed = Cons.prems(1) [unfolded b feed_rx_Cons [OF byte queue rest]]
  have "feed_rx_bytes r bs (st1\<lparr>s_rx_line := buf\<rparr>, d1) = (cmds', st', d')" using rest fed by simp
  ultimately show ?case using Cons.IH fed ok(2) by (auto split: option.splits)
qed simp

lemma access_ok:
  "buffer_ok (s_rx_line st) \<Longrightarrow> gatt_access_cb r attr acc (st, d) = (code, answer, cmds, st', d') \<Longrightarrow>
     list_all command_ok cmds \<and> buffer_ok (s_rx_line st')"
  by (auto simp: gatt_access_cb_def Let_def dest: feed_rx_ok split: gatt_access.splits option.splits if_splits prod.splits)

lemma telemetry_dev:
  assumes "telemetry_task pf a (last_us, dv) = (delay, last', dv')"
  shows "dv_app dv' = dv_app dv" "dv_ota dv' = dv_ota dv" "dv_ble dv' = dv_ble dv"
    "dv_telemetry_interval_ms dv' = dv_telemetry_interval_ms dv"
  using telemetry_frame [of pf a last_us dv] assms by simp_all

lemma step_lines_inv:
  assumes "sys_step pf E s s'" and "sys_inv s"
  shows "interval_in_range (dv_telemetry_interval_ms (sy_dev s')) \<and> buffer_ok (sy_uart_line s')
    \<and> buffer_ok (s_rx_line (dv_ble (sy_dev s'))) \<and> list_all command_ok (sy_ble_queue s')
    \<and> snd (strip_after (sy_led_calls s') (None, None)) = sy_led s'"
  using assms(1)
proof cases
  case (step_led a t answer led_calls color)
  with led_task_shows [OF step_led(4), of "strip_after (sy_led_calls s) (None, None)"] assms(2)
  show ?thesis by (simp add: sys_inv_def strip_after_append)
next
  case (step_telemetry a t delay last_us dv)
  with telemetry_dev [OF step_telemetry(4)] assms(2) show ?thesis by (simp add: sys_inv_def)
next
  case (step_uart a t c line dv)
  with assms(2) feed_byte_ok [of "sy_uart_line s" c] show ?thesis
    by (auto simp: sys_inv_def Let_def split_beta command_interval command_ble split: option.splits)
next
  case (step_ble_access a t attr acc code answer cmds ble d)
  with access_ok [OF _ step_ble_access(4)] assms(2) show ?thesis by (simp add: sys_inv_def)
next
  case (step_gap a t rcs ev calls ble d)
  with gap_line [of "pa_reading a AtEvent" rcs ev "(dv_ble (sy_dev s), dv_diag (sy_dev s))"] assms(2)
  show ?thesis by (simp add: sys_inv_def)
next
  case (step_sync a t addr infer rcs calls ble d)
  with sync_line [of "pa_reading a AtEvent" addr infer rcs "(dv_ble (sy_dev s), dv_diag (sy_dev s))"] assms(2)
  show ?thesis by (simp add: sys_inv_def)
qed (use assms(2) in \<open>auto simp: sys_inv_def frame_simps command_interval command_ble command_task_Some\<close>)

lemma step_inv: "sys_step pf E s s' \<Longrightarrow> sys_inv s \<Longrightarrow> sys_inv s'"
  using step_lines_inv [of pf E s s'] step_moves [of pf E s s']
    moves_inv [of "pf_config pf" "sy_now s" "sy_now s'" "dv_app (sy_dev s)" "dv_app (sy_dev s')"]
  by (simp add: sys_inv_def on_since_def)

lemma started_inv:
  assumes "app_main pf opts b a (pm_boot_state, device_boot_state pf f) = (ESP_OK, pm, dv)" and "0 < t"
  shows "sys_inv (started pf opts (pm, dv) t tick)"
  using boot_state [OF assms(1)] assms(2) app_boot_inv
  by (auto simp: fresh_def sys_inv_def started_def on_since_def buffer_ok_def) (simp add: app_boot_state_def)

lemma reachable_inv:
  assumes "reachable pf E s0 s" and "sys_inv s0"
  shows "sys_inv s"
  using assms by induction (auto intro: step_inv)

section \<open>A start-up that succeeds\<close>

definition all_ok :: boot_answers where
  "all_ok = \<lparr>bo_diag_lock = True, bo_state_lock = True, bo_pm = (\<lambda>c. ESP_OK), bo_console = (\<lambda>c. ESP_OK),
     bo_ble = (\<lambda>c. ESP_OK), bo_led = (\<lambda>c. ESP_OK), bo_can = (\<lambda>c. ESP_OK), bo_mask_filters = 3,
     bo_test_tx_created = True,
     bo_control_created = True, bo_telemetry_created = True\<rparr>"

definition plain_pm :: pm_options where
  "plain_pm = \<lparr>PM_ENABLE = True, FREERTOS_USE_TICKLESS_IDLE = True, MEB_PM_AUTOMATIC_LIGHT_SLEEP_ENABLED = False,
     PM_SLP_DISABLE_GPIO = False, MEB_PM_MAX_CPU_FREQ_MHZ = 240, MEB_PM_JTAG_BOOT_GRACE_MS = 0\<rparr>"

lemma run_calls_ok_answers: "fst (run_calls (\<lambda>c. ESP_OK) cs) = ESP_OK"
  by (induction cs) (simp_all add: Let_def split_beta)

lemma bench_starts: "fst (app_main bench_platform plain_pm all_ok (bench_answers t) (pm_boot_state, bench_device)) = ESP_OK"
proof -
  have can: "fst (meb_can_init 3 (\<lambda>c. ESP_OK) r s) = ESP_OK" for r s
    using run_calls_ok_answers
    by (simp add: meb_can_init_def can_init_steps_def Let_def split_beta and_then_def checked_def
        configure_exact_canfd_timing_def data_timing_def MEB_TWAI_DATA_BITRATE_def configure_rx_filters_def)
  have ble: "fst (meb_ble_console_init (\<lambda>c. ESP_OK) st) = ESP_OK" for st
    by (simp add: meb_ble_console_init_def ble_init_plan_def Let_def)
  have led: "fst (meb_status_led_start (\<lambda>c. ESP_OK)) = ESP_OK"
    using run_calls_ok_answers by (simp add: meb_status_led_start_def configure_led_def Let_def split_beta)
  have con: "fst (meb_serial_console_init True (\<lambda>c. ESP_OK) dv) = ESP_OK" for dv :: "(u8 list, u32 option) device"
    by (simp add: meb_serial_console_init_def Let_def)
  have ctl: "fst (meb_control_start bench_platform a True True dv) = ESP_OK" for a and dv :: "(u8 list, u32 option) device"
    by (simp add: meb_control_start_def load_telemetry_interval_setting_def meb_settings_get_telemetry_interval_ms_def
        meb_settings_init_def bench_platform_def cell_nvs_def Let_def split_beta split: option.split sum.split)
  have nvs: "fst (meb_settings_init (pf_nvs bench_platform) st) = ESP_OK" for st
    by (simp add: meb_settings_init_def bench_platform_def cell_nvs_def Let_def)
  have uart: "pa_uart_installed (bench_answers t)" by (simp add: bench_answers_def)
  show ?thesis
    by (simp add: app_main_def boot_steps_def all_ok_def meb_can_start_test_tx_def MEB_CAN_TEST_TX_ENABLED_def split_beta Let_def can ble led con ctl nvs uart meb_diag_init_def
        meb_state_init_def meb_power_management_init_def plain_pm_def MEB_PM_LIGHT_SLEEP_RUNTIME_ENABLED_def)
qed

text \<open>The start-up of the examples, and the system it leaves.\<close>

abbreviation bench_boot :: "esp_err \<times> (u8 list, u32 option) boot_state" where
  "bench_boot \<equiv> app_main bench_platform plain_pm all_ok (bench_answers 5) (pm_boot_state, bench_device)"

abbreviation bench_start :: "(u8 list, u32 option) system" where
  "bench_start \<equiv> started bench_platform plain_pm (fst (snd bench_boot), snd (snd bench_boot)) 7 0"

lemma bench_boot_ok: "bench_boot = (ESP_OK, fst (snd bench_boot), snd (snd bench_boot))"
  using bench_starts [of 5] by (simp add: prod_eq_iff)

section \<open>Properties of the system\<close>

text \<open>
  C14: In every state the system can reach after start-up the components keep their invariants
  together: the deadlines and the signals of the shared state are consistent, heating was not
  switched on in the future, the telemetry interval is in range, the line buffers hold no more than
  they can, only whole commands wait in the BLE queue, and the LED shows the colour its task showed
  last.
\<close>

theorem system_invariant:
  assumes "app_main pf opts b a (pm_boot_state, device_boot_state pf f) = (ESP_OK, pm, dv)" and "0 < t"
    and "reachable pf E (started pf opts (pm, dv) t tick) s"
  shows "sys_inv s"
  by (rule reachable_inv [OF assms(3) started_inv [OF assms(1,2)]])

theorem system_invariant_witness: "sys_inv bench_start"
proof -
  have "reachable bench_platform (\<lambda>a. True) bench_start bench_start" by (rule reach_start)
  from system_invariant [OF bench_boot_ok _ this] show ?thesis by simp
qed

text \<open>A run of the system through states with heating on.\<close>

inductive stays_on :: "('c, 'n) platform \<Rightarrow> (answers \<Rightarrow> bool) \<Rightarrow> ('c, 'n) system \<Rightarrow> ('c, 'n) system \<Rightarrow> bool"
  for pf :: "('c, 'n) platform" and E :: "answers \<Rightarrow> bool" and s1 :: "('c, 'n) system" where
  on_start: "heating_on s1 \<Longrightarrow> stays_on pf E s1 s1"
| on_step: "stays_on pf E s1 s \<Longrightarrow> sys_step pf E s s' \<Longrightarrow> heating_on s' \<Longrightarrow> stays_on pf E s1 s'"

lemma stays_on_since:
  assumes "stays_on pf E s1 s" and "sys_inv s1"
  shows "heating_on s \<and> on_since s = on_since s1 \<and> sys_inv s"
  using assms
proof induction
  case (on_step s s')
  then have s: "heating_on s" "on_since s = on_since s1" "sys_inv s" by simp_all
  have "on_since s' = on_since s"
    using step_moves [OF on_step.hyps(2)] s(1) on_step.hyps(3) moves_since
    unfolding on_since_def heating_on_def by blast
  with s on_step.hyps step_inv show ?case by metis
qed simp

lemma check_step:
  assumes "sys_step pf E s s'" and "sy_control s = CtlCheck" and "sy_control s' = CtlSnapshot t1"
  shows "dv_app (sy_dev s') = snd (meb_state_apply_auto_off (pf_config pf) t1 (dv_app (sy_dev s)))"
  using assms(1)
proof cases
  case (step_check a t)
  with assms(3) show ?thesis by (simp add: frame_simps)
qed (use assms(2,3) in simp_all)

text \<open>A check that leaves heating on comes before the limit.\<close>

lemma check_before_deadline:
  assumes "MEB_SAFETY_AUTO_OFF_ENABLED (pf_config pf)" and "0 < MEB_SAFETY_AUTO_OFF_MINUTES (pf_config pf)"
    and "sys_inv s1" and "stays_on pf E s1 s2" and "sys_step pf E s2 s3" and "sy_control s2 = CtlCheck" and "sy_control s3 = CtlSnapshot t1"
    and "heating_on s3"
  shows "t1 < sy_now s1 + minutes_to_us (MEB_SAFETY_AUTO_OFF_MINUTES (pf_config pf))"
proof (rule ccontr)
  assume late: "\<not> ?thesis"
  from stays_on_since [OF assms(4,3)] assms(3) have s2: "heating_on s2" "on_since s2 \<le> sy_now s1" "app_inv (dv_app (sy_dev s2))"
    by (simp_all add: sys_inv_def)
  then have "0 < on_since s2" "0 \<le> s_user_auto_off_deadline_us (dv_app (sy_dev s2))"
    by (auto simp: app_inv_def auto_off_inv_def heating_on_def on_since_def split: if_splits)
  with s2(2) assms(1,2) late have "\<not> heating_on s3"
    unfolding heating_on_def check_step [OF assms(5-7)] on_since_def
    by (intro apply_auto_off_expired) auto
  with assms(8) show False by simp
qed

text \<open>
  C1: In the running system heating ends at the safety limit. Take any moment at which heating is
  switched on, and any run of tasks, commands, frames and callbacks from there in which it stays
  on: a check of the control task at or after the limit, counted from that moment, leaves it off.
\<close>

theorem system_heating_limited:
  assumes "MEB_SAFETY_AUTO_OFF_ENABLED (pf_config pf)" and "0 < MEB_SAFETY_AUTO_OFF_MINUTES (pf_config pf)"
    and "app_main pf opts b a (pm_boot_state, device_boot_state pf f) = (ESP_OK, pm, dv)" and "0 < t"
    and "reachable pf E (started pf opts (pm, dv) t tick) s0" and "sys_step pf E s0 s1" and "stays_on pf E s1 s2"
    and "sys_step pf E s2 s3" and "sy_control s2 = CtlCheck" and "sy_control s3 = CtlSnapshot t1"
    and "sy_now s1 + minutes_to_us (MEB_SAFETY_AUTO_OFF_MINUTES (pf_config pf)) \<le> t1"
  shows "\<not> heating_on s3"
proof
  assume "heating_on s3"
  have "sys_inv s1"
    using reachable_inv [OF assms(5) started_inv [OF assms(3,4)]] step_inv [OF assms(6)] by simp
  from check_before_deadline [OF assms(1,2) this assms(7-10) \<open>heating_on s3\<close>] assms(11) show False by simp
qed

text \<open>A start-up, a request to heat that arrives over BLE, and a check three hours later.\<close>

lemma bench_during: "t \<le> t' \<Longrightarrow> during t (bench_answers t') t'"
  by (simp add: during_def bench_answers_def)

lemma bench_queue: "s_command_queue (dv_ble (snd (snd (app_main bench_platform plain_pm all_ok (bench_answers t) (pm_boot_state, bench_device)))))"
proof -
  have ble: "s_command_queue (snd (snd (meb_ble_console_init (\<lambda>c. ESP_OK) st)))" for st
    by (simp add: meb_ble_console_init_def Let_def split_beta)
  show ?thesis
    using bench_starts [of t]
    by (simp add: app_main_def boot_steps_def all_ok_def meb_can_start_test_tx_def MEB_CAN_TEST_TX_ENABLED_def split_beta Let_def frame_simps ble split: if_splits)
qed

lemma bench_heats:
  assumes "sys_inv s" and "sy_now s \<le> 8" and "s_command_queue (dv_ble (sy_dev s))" and "s_rx_line (dv_ble (sy_dev s)) = ''''"
    and "sy_ble_queue s = []"
  shows "\<exists>s0 s1. reachable bench_platform (\<lambda>a. True) s s0 \<and> sys_step bench_platform (\<lambda>a. True) s0 s1
    \<and> heating_on s1 \<and> sy_now s1 = 9 \<and> sy_control s1 = sy_control s
    \<and> dv_trace (sy_dev s0) = dv_trace (sy_dev s)
    \<and> temperature_status_charge (s_state (dv_app (sy_dev s1))) = temperature_status_charge (s_state (dv_app (sy_dev s)))
    \<and> s_temperature_status_charge_seen_us (dv_app (sy_dev s1)) = s_temperature_status_charge_seen_us (dv_app (sy_dev s))"
proof -
  let ?pf = bench_platform and ?E = "\<lambda>a :: answers. True" and ?dv = "sy_dev s"
  let ?bytes = "map (\<lambda>c. (c, True)) (wire on_request @ [10])"
  obtain cmds ble d where access: "feed_rx_bytes (pa_reading (bench_answers 8) AtEvent) ?bytes (dv_ble ?dv, dv_diag ?dv) = (cmds, ble, d)"
    by (cases "feed_rx_bytes (pa_reading (bench_answers 8) AtEvent) ?bytes (dv_ble ?dv, dv_diag ?dv)")
  note served = wire_request_command [OF on_request_ok(1) assms(3,4)]
  have cmds: "cmds = [on_request]"
    using served [of "pa_reading (bench_answers 8) AtEvent" "dv_diag ?dv"] access by simp
  let ?s0 = "s\<lparr>sy_now := 8, sy_ble_queue := sy_ble_queue s @ cmds, sy_dev := ?dv\<lparr>dv_ble := ble, dv_diag := d\<rparr>\<rparr>"
  let ?s1 = "?s0\<lparr>sy_now := 9, sy_ble_queue := [], sy_dev := meb_serial_console_process_command ?pf (bench_answers 9) on_request (sy_dev ?s0)\<rparr>"
  have step0: "sys_step ?pf ?E s ?s0"
    by (rule step_ble_access [where a = "bench_answers 8" and attr = "s_rx_val_handle (dv_ble ?dv)"
          and acc = "GattWrite 1 (Some ?bytes)" and code = 0 and answer = None])
      (use access assms(2) in \<open>simp_all add: bench_during gatt_access_cb_def BLE_CMD_RX_BUF_SIZE_def\<close>)
  have step1: "sys_step ?pf ?E ?s0 ?s1"
    by (rule step_ble_command) (simp_all add: bench_during assms(5) cmds command_task_def)
  have app: "dv_app (sy_dev ?s1) = set_heating_locked 9 True (dv_app ?dv)"
    by (simp add: console_phases decode_request_text [OF on_request_ok(3,2)] frame_simps
        perform_app [where cfg = default_config and d = diag_boot_state] app_event_of_def
        meb_state_set_heating_enabled_def bench_answers_def Let_def del: perform.simps)
  have "heating_on ?s1" unfolding heating_on_def app by (simp add: set_heating_locked_def Let_def)
  moreover have "temperature_status_charge (s_state (dv_app (sy_dev ?s1))) = temperature_status_charge (s_state (dv_app ?dv))"
    and "s_temperature_status_charge_seen_us (dv_app (sy_dev ?s1)) = s_temperature_status_charge_seen_us (dv_app ?dv)"
    unfolding app by (simp_all add: set_heating_locked_def Let_def)
  moreover have "sy_now ?s1 = 9" "sy_control ?s1 = sy_control s" "dv_trace (sy_dev ?s0) = dv_trace (sy_dev s)" by simp_all
  ultimately show ?thesis using step1 reach_step [OF reach_start step0] by blast
qed

theorem system_heating_limited_witness:
  "\<exists>s2 s3. heating_on s2 \<and> sys_step bench_platform (\<lambda>a. True) s2 s3 \<and> \<not> heating_on s3"
proof -
  have "s_command_queue (dv_ble (snd (snd bench_boot)))" by (rule bench_queue)
  moreover have "s_rx_line (dv_ble (snd (snd bench_boot))) = ''''" using boot_state [OF bench_boot_ok] by (simp add: fresh_def)
  ultimately obtain s0 s1 where reach: "reachable bench_platform (\<lambda>a. True) bench_start s0"
    and step: "sys_step bench_platform (\<lambda>a. True) s0 s1"
    and s1: "heating_on s1" "sy_now s1 = 9" "sy_control s1 = CtlCheck"
    using bench_heats [of bench_start] started_inv [OF bench_boot_ok, of 7 0] by (auto simp: started_def)
  let ?t = "10800000009"
  let ?s3 = "s1\<lparr>sy_now := ?t, sy_dev := control_auto_off bench_platform (bench_answers ?t) (sy_dev s1), sy_control := CtlSnapshot ?t\<rparr>"
  have time: "pa_time (bench_answers ?t) AtChange = ?t" by (simp add: bench_answers_def)
  have check: "sys_step bench_platform (\<lambda>a. True) s1 ?s3"
    using step_check [of "\<lambda>a. True" "bench_answers ?t" s1 ?t bench_platform] s1(2,3) bench_during [of 9 ?t] time by simp
  have "\<not> heating_on ?s3"
    using system_heating_limited [OF _ _ bench_boot_ok _ reach step on_start [OF s1(1)] check s1(3)] s1(2)
    by (simp add: bench_platform_def default_config_def time_defs)
  with s1(1) check show ?thesis by blast
qed

section \<open>How long heating stays on\<close>

text \<open>
  Heating stays on from \<open>s1\<close> to \<open>s\<close>; the last check of the control task was at \<open>c\<close> (or the run has had
  none and \<open>c\<close> is its start), and the task is never kept from its next check for longer than \<open>D\<close>.
\<close>

inductive checked_run ::
    "('c, 'n) platform \<Rightarrow> (answers \<Rightarrow> bool) \<Rightarrow> int \<Rightarrow> ('c, 'n) system \<Rightarrow> ('c, 'n) system \<Rightarrow> int \<Rightarrow> bool"
  for pf :: "('c, 'n) platform" and E :: "answers \<Rightarrow> bool" and D :: int and s1 :: "('c, 'n) system" where
  run_start: "heating_on s1 \<Longrightarrow> checked_run pf E D s1 s1 (sy_now s1)"
| run_check: "checked_run pf E D s1 s c \<Longrightarrow> sys_step pf E s s' \<Longrightarrow> sy_control s = CtlCheck \<Longrightarrow> sy_control s' = CtlSnapshot t1 \<Longrightarrow>
    heating_on s' \<Longrightarrow> sy_now s' \<le> c + D \<Longrightarrow> checked_run pf E D s1 s' t1"
| run_other: "checked_run pf E D s1 s c \<Longrightarrow> sys_step pf E s s' \<Longrightarrow> heating_on s' \<Longrightarrow> sy_now s' \<le> c + D \<Longrightarrow>
    checked_run pf E D s1 s' c"

lemma checked_run_stays: "checked_run pf E D s1 s c \<Longrightarrow> stays_on pf E s1 s"
  by (induction rule: checked_run.induct) (auto intro: stays_on.intros)

text \<open>
  C4: Heating cannot outlast the safety limit by more than the control task is late. From any moment
  at which heating is switched on, through any run of tasks, commands, frames and callbacks in which
  at most \<open>D\<close> passes from one check of the control task to the next, heating stays on for less than
  the limit and \<open>D\<close> together.
\<close>

theorem heating_time_bounded:
  assumes "MEB_SAFETY_AUTO_OFF_ENABLED (pf_config pf)" and "0 < MEB_SAFETY_AUTO_OFF_MINUTES (pf_config pf)"
    and "app_main pf opts b a (pm_boot_state, device_boot_state pf f) = (ESP_OK, pm, dv)" and "0 < t"
    and "reachable pf E (started pf opts (pm, dv) t tick) s0" and "sys_step pf E s0 s1" and "0 \<le> D"
    and "checked_run pf E D s1 s c"
  shows "sy_now s < sy_now s1 + minutes_to_us (MEB_SAFETY_AUTO_OFF_MINUTES (pf_config pf)) + D"
proof -
  let ?limit = "minutes_to_us (MEB_SAFETY_AUTO_OFF_MINUTES (pf_config pf))"
  have inv: "sys_inv s1"
    using reachable_inv [OF assms(5) started_inv [OF assms(3,4)]] step_inv [OF assms(6)] by simp
  have "0 < ?limit" using assms(2) by (rule minutes_to_us_pos)
  with assms(8,7) have "c < sy_now s1 + ?limit \<and> sy_now s < sy_now s1 + ?limit + D"
  proof induction
    case (run_check s c s' t1)
    then have "c < sy_now s1 + ?limit" by simp
    moreover have "t1 < sy_now s1 + ?limit"
      by (rule check_before_deadline [OF assms(1,2) inv checked_run_stays [OF run_check.hyps(1)] run_check.hyps(2-5)])
    ultimately show ?case using run_check.hyps(6) by simp
  qed auto
  then show ?thesis by simp
qed

theorem heating_time_bounded_witness:
  "\<exists>s1 s. sy_now s1 = 9 \<and> checked_run bench_platform (\<lambda>a. True) 600000 s1 s 9 \<and> sy_now s = 500000 \<and> sy_now s < 10800600009"
proof -
  have "s_command_queue (dv_ble (snd (snd bench_boot)))" by (rule bench_queue)
  moreover have "s_rx_line (dv_ble (snd (snd bench_boot))) = ''''" using boot_state [OF bench_boot_ok] by (simp add: fresh_def)
  ultimately obtain s0 s1 where reach: "reachable bench_platform (\<lambda>a. True) bench_start s0"
    and step: "sys_step bench_platform (\<lambda>a. True) s0 s1" and s1: "heating_on s1" "sy_now s1 = 9"
    using bench_heats [of bench_start] started_inv [OF bench_boot_ok, of 7 0] by (auto simp: started_def)
  let ?s = "s1\<lparr>sy_now := 500000, sy_dev := on_diag (on_reset (pa_reading (bench_answers 500000) AtEvent) 1) (sy_dev s1)\<rparr>"
  have "sys_step bench_platform (\<lambda>a. True) s1 ?s"
    by (rule step_reset) (simp_all add: bench_during s1(2))
  moreover have "heating_on ?s" using s1(1) by (simp add: heating_on_def frame_simps)
  ultimately have run: "checked_run bench_platform (\<lambda>a. True) 600000 s1 ?s 9"
    using run_other [OF run_start [OF s1(1)]] s1(2) by simp
  have "sy_now ?s < 10800600009"
    using heating_time_bounded [OF _ _ bench_boot_ok _ reach step _ run] s1(2)
    by (simp add: bench_platform_def default_config_def time_defs)
  with run s1(2) show ?thesis by (intro exI [of _ s1] exI [of _ ?s]) simp
qed

end
