(* ===== verification/System_Control.thy ===== *)
theory System_Control
  imports System_Properties
begin

text \<open>
  The requests to the battery in the running system: other tasks may act between the snapshot of the
  control task and its request, so a request answers to a state the system was in a moment before.
\<close>

section \<open>Who sends requests\<close>

lemma requests_acts: "requests_of (acts_of es) = requests_of es"
proof (induction es)
  case (Cons e es)
  then show ?case by (cases e) simp_all
qed simp

lemma requests_flash: "requests_of (map FlashCall cs) = []"
  by (induction cs) simp_all

lemma command_requests:
  "requests_of (dv_trace (meb_serial_console_process_command pf a cmd dv)) = requests_of (dv_trace dv)"
proof -
  have "requests_of (acts_for pf a req dv) = []" for req
    by (simp add: acts_for_def requests_flash split: option.split)
  then have "requests_of (acts_of (dv_trace (meb_serial_console_process_command pf a cmd dv))) = requests_of (acts_of (dv_trace dv))"
    by (simp add: command_acts split: decoded.split)
  then show ?thesis by (simp only: requests_acts)
qed

lemma telemetry_requests:
  "requests_of (dv_trace (snd (snd (telemetry_task pf a (last_us, dv))))) = requests_of (dv_trace dv) @
     (if MEB_BMS_SOC_POLL_PERIOD_MS * 1000 \<le> pa_time a AtChange - last_us then [BmsSoc] else [])"
proof -
  have "requests_of (acts_of (dv_trace (snd (snd (telemetry_task pf a (last_us, dv)))))) =
      requests_of (acts_of (dv_trace dv)) @ (if MEB_BMS_SOC_POLL_PERIOD_MS * 1000 \<le> pa_time a AtChange - last_us then [BmsSoc] else [])"
    by (simp add: acts_telemetry)
  then show ?thesis by (simp add: requests_acts)
qed

text \<open>Only the last part of a control turn adds a request other than a poll, and only on its snapshot.\<close>

lemma step_requests:
  assumes "sys_step pf E s s'" and "requests_of (dv_trace (sy_dev s')) = requests_of (dv_trace (sy_dev s)) @ rs"
    and "k \<in> set rs" and "k \<noteq> BmsSoc"
  shows "\<exists>t1 state. sy_control s = CtlAct t1 state \<and> wants_heat state"
  using assms(1)
proof cases
  case (step_act a t t1 state)
  with assms(2,3) show ?thesis by (auto simp: frame_simps split: if_splits)
next
  case (step_telemetry a t delay last_us dv)
  with assms(2-4) telemetry_requests [of pf a "sy_last_soc_us s" "sy_dev s"] show ?thesis by (auto split: if_splits)
next
  case (step_uart a t c line dv)
  with assms(2,3) show ?thesis by (auto simp: Let_def split_beta command_requests split: option.splits)
qed (use assms(2,3) in \<open>auto simp: frame_simps command_requests command_task_Some\<close>)

section \<open>The snapshot a request answers to\<close>

lemma reachable_trans: "reachable pf E s1 s2 \<Longrightarrow> reachable pf E s0 s1 \<Longrightarrow> reachable pf E s0 s2"
  by (induction rule: reachable.induct) (auto intro: reach_step)

definition snapshot_of ::
    "('c, 'n) platform \<Rightarrow> (answers \<Rightarrow> bool) \<Rightarrow> ('c, 'n) system \<Rightarrow> ('c, 'n) system \<Rightarrow> meb_state_snapshot \<Rightarrow> bool" where
  "snapshot_of pf E start s state \<longleftrightarrow> (\<exists>s0 t0. reachable pf E start s0 \<and> reachable pf E s0 s
     \<and> sy_now s0 \<le> t0 \<and> t0 \<le> sy_now s \<and> state = meb_state_get_snapshot (pf_config pf) t0 (dv_app (sy_dev s0)))"

lemma snapshot_of_step:
  "snapshot_of pf E start s state \<Longrightarrow> sys_step pf E s s' \<Longrightarrow> snapshot_of pf E start s' state"
proof -
  assume "snapshot_of pf E start s state" and step: "sys_step pf E s s'"
  then obtain s0 t0 where s0: "reachable pf E start s0" "reachable pf E s0 s" "sy_now s0 \<le> t0" "t0 \<le> sy_now s"
    "state = meb_state_get_snapshot (pf_config pf) t0 (dv_app (sy_dev s0))"
    unfolding snapshot_of_def by blast
  moreover have "sy_now s \<le> sy_now s'" using step_moves [OF step] by blast
  ultimately have "t0 \<le> sy_now s'" "reachable pf E s0 s'" using reach_step [OF s0(2) step] by simp_all
  with s0 show ?thesis unfolding snapshot_of_def by blast
qed

lemma control_snapshot:
  assumes "sys_step pf E s s'" and "reachable pf E start s" and "sy_control s' = CtlAct t1 state"
  shows "sy_control s = CtlAct t1 state \<or> snapshot_of pf E start s' state"
  using assms(1)
proof cases
  case (step_snapshot a t t1')
  then have "state = meb_state_get_snapshot (pf_config pf) (pa_time a AtSnapshot) (dv_app (sy_dev s))"
    and "sy_now s \<le> pa_time a AtSnapshot" "pa_time a AtSnapshot \<le> sy_now s'"
    using assms(3) by (auto simp: during_def)
  moreover have "reachable pf E s s'" using assms(1) by (blast intro: reach_start reach_step)
  ultimately show ?thesis using assms(2) unfolding snapshot_of_def by blast
qed (use assms(3) in simp_all)

lemma reachable_snapshot:
  assumes "reachable pf E start s" and "sy_control start = CtlCheck" and "sy_control s = CtlAct t1 state"
  shows "snapshot_of pf E start s state"
  using assms
proof (induction arbitrary: t1 state)
  case (reach_step s s')
  from control_snapshot [OF reach_step.hyps(2,1) reach_step.prems(2)]
  show ?case using reach_step.IH [OF reach_step.prems(1)] snapshot_of_step [OF _ reach_step.hyps(2)] by blast
qed simp


text \<open>
  A run to a request: a check with heating off, a frame that says the battery is cold, a command to
  heat over BLE, the snapshot and the request.
\<close>

abbreviation any :: "answers \<Rightarrow> bool" where
  "any \<equiv> \<lambda>a. True"

definition cold_frame :: meb_can_rx_message where
  "cold_frame = \<lparr>rx_header = zero_header\<lparr>th_id := MEB_CAN_ID_CHARGING_OPTIMIZATION, th_ide := True\<rparr>, rx_data = [0, 128, 0], rx_len = 3\<rparr>"

lemma cold_frame_app:
  "fst (process_rx_message r cold_frame (st, d)) = meb_state_update_charging_optimization (rd_time_us r) (Some [0, 128, 0]) 3 st"
  by (simp add: process_rx_message_def cold_frame_def MEB_CAN_ID_CHARGING_OPTIMIZATION_def MEB_CAN_ID_DIAG_RESP_def
      MEB_CAN_ID_HEATING_STATUS_def)

lemma bench_cold:
  assumes "sys_inv s" and "sy_now s = 7" and "sy_control s = CtlCheck" and "\<not> heating_on s"
  shows "\<exists>s2. reachable bench_platform any s s2 \<and> sy_now s2 = 7 \<and> sy_control s2 = CtlSnapshot 7
    \<and> dv_ble (sy_dev s2) = dv_ble (sy_dev s) \<and> sy_ble_queue s2 = sy_ble_queue s
    \<and> temperature_status_charge (s_state (dv_app (sy_dev s2))) = \<lparr>nv_valid = True, nv_value = 1\<rparr>
    \<and> s_temperature_status_charge_seen_us (dv_app (sy_dev s2)) = 7"
proof -
  let ?s1 = "s\<lparr>sy_now := 7, sy_dev := control_auto_off bench_platform (bench_answers 7) (sy_dev s), sy_control := CtlSnapshot 7\<rparr>"
  let ?r = "pa_reading (bench_answers 7) AtChange"
  obtain tick can app d where task: "can_rx_task_step ?r (Some cold_frame) 0 None []
      (sy_last_report_tick ?s1, dv_can (sy_dev ?s1), dv_app (sy_dev ?s1), dv_diag (sy_dev ?s1)) = (tick, can, app, d)"
    by (metis prod_cases4)
  let ?s2 = "?s1\<lparr>sy_now := 7, sy_last_report_tick := tick, sy_dev := (sy_dev ?s1)\<lparr>dv_can := can, dv_app := app, dv_diag := d\<rparr>\<rparr>"
  have time: "pa_time (bench_answers 7) AtChange = 7" by (simp add: bench_answers_def)
  have check: "sys_step bench_platform any s ?s1"
    using step_check [of any "bench_answers 7" s 7 bench_platform] assms(2,3) bench_during [of 7 7] time by simp
  have frame: "sys_step bench_platform any ?s1 ?s2"
    by (rule step_can_task [OF _ _ task]) (simp_all add: bench_during)
  have "app = meb_state_update_charging_optimization 7 (Some [0, 128, 0]) 3 (dv_app (sy_dev ?s1))"
    using can_task_app [OF task] by (simp add: cold_frame_app time)
  then have "temperature_status_charge (s_state app) = \<lparr>nv_valid = True, nv_value = 1\<rparr>" "s_temperature_status_charge_seen_us app = 7"
    by (simp_all add: meb_state_update_charging_optimization_def)
  moreover have "reachable bench_platform any s ?s2"
    using reach_step [OF reach_step [OF reach_start check] frame] .
  ultimately show ?thesis by (intro exI [of _ ?s2]) (simp add: frame_simps)
qed

lemma bench_acts:
  assumes "sy_control s = CtlSnapshot 7" and "heating_on s" and "sy_now s = 9"
    and "temperature_status_charge (s_state (dv_app (sy_dev s))) = \<lparr>nv_valid = True, nv_value = 1\<rparr>"
    and "s_temperature_status_charge_seen_us (dv_app (sy_dev s)) = 7"
  shows "\<exists>s1 s2 k. reachable bench_platform any s s1 \<and> sys_step bench_platform any s1 s2 \<and> k \<noteq> BmsSoc
    \<and> requests_of (dv_trace (sy_dev s2)) = requests_of (dv_trace (sy_dev s1)) @ [k]"
proof -
  let ?state = "meb_state_get_snapshot default_config 10 (dv_app (sy_dev s))"
  let ?s1 = "s\<lparr>sy_now := 10, sy_control := CtlAct 7 ?state\<rparr>"
  let ?s2 = "?s1\<lparr>sy_now := 11, sy_dev := control_act bench_platform (bench_answers 11) ?state (sy_dev s), sy_control := CtlCheck\<rparr>"
  have snap: "sys_step bench_platform any s ?s1"
    using step_snapshot [of any "bench_answers 10" s 10 7 bench_platform] assms(1,3) bench_during [of 9 10]
    by (simp add: bench_platform_def bench_answers_def)
  have act: "sys_step bench_platform any ?s1 ?s2"
    using step_act [of any "bench_answers 11" ?s1 11 7 ?state bench_platform] bench_during [of 10 11] by simp
  have wants: "wants_heat ?state"
    using assms(2,4,5) by (simp add: wants_heat_def heating_on_def snapshot_control snapshot_signals can_signal_is_fresh_def
        time_defs MEB_TEMPERATURE_STATUS_UNDER_OPTIMAL_def Let_def)
  then have "requests_of (dv_trace (sy_dev ?s2)) = requests_of (dv_trace (sy_dev ?s1)) @
      [if session_error (s_state (dv_app (sy_dev s))) then DiagSession else HeatRequest]"
    by (simp add: frame_simps)
  moreover have "(if session_error (s_state (dv_app (sy_dev s))) then DiagSession else HeatRequest) \<noteq> BmsSoc" by simp
  ultimately show ?thesis using reach_step [OF reach_start snap] act by blast
qed


end
