(* ===== verification/System_Update.thy ===== *)
theory System_Update
  imports System_Control
begin

text \<open>
  The firmware update in the running system: whatever the tasks, callbacks and commands do in
  between, the session of the device is the abstract one of \<open>Ota_Update\<close>, the flash calls of the
  trace are its calls, and so the boot partition is only switched to a verified image.
\<close>

section \<open>The flash calls of a trace\<close>

fun flash_call_of :: "effect \<Rightarrow> ota_call option" where
  "flash_call_of (FlashCall c) = Some c"
| "flash_call_of _ = None"

definition flash_calls :: "effect list \<Rightarrow> ota_call list" where
  "flash_calls es = List.map_filter flash_call_of es"

lemma flash_calls_append [simp]: "flash_calls (xs @ ys) = flash_calls xs @ flash_calls ys"
  by (simp add: flash_calls_def List.map_filter_def)

lemma flash_calls_simps [simp]:
  "flash_calls [] = []" "flash_calls (Written w # es) = flash_calls es"
  "flash_calls (FlashCall c # es) = c # flash_calls es" "flash_calls (CanRequest k e # es) = flash_calls es"
  "flash_calls (RestartIn n # es) = flash_calls es"
  by (simp_all add: flash_calls_def List.map_filter_def)

lemma flash_calls_map [simp]: "flash_calls (map FlashCall cs) = cs"
  by (induction cs) simp_all

lemma flash_calls_acts: "flash_calls (acts_of es) = flash_calls es"
proof (induction es)
  case (Cons e es)
  then show ?case by (cases e) simp_all
qed simp

text \<open>What the calls leave in the flash: the partition opened last and the bytes it accepted.\<close>

definition flash_content :: "effect list \<Rightarrow> (esp_partition \<times> u8 list) option" where
  "flash_content es = fold flash_after (flash_calls es) None"

section \<open>Every step on the update session\<close>

lemma flash_printf [frame_simps]:
  "flash_calls (dv_trace (meb_serial_printf a m parts dv)) = flash_calls (dv_trace dv)"
  by (simp add: meb_serial_printf_def Let_def split_beta frame_simps)

lemma flash_auto_off [frame_simps]:
  "flash_calls (dv_trace (control_auto_off pf a dv)) = flash_calls (dv_trace dv)"
  by (simp add: control_auto_off_def split_beta Let_def frame_simps)

lemma flash_act [frame_simps]:
  "flash_calls (dv_trace (control_act pf a state dv)) = flash_calls (dv_trace dv)"
  by (simp add: control_act_def meb_state_take_session_error_def Let_def frame_simps)

lemma flash_telemetry:
  "flash_calls (dv_trace (snd (snd (telemetry_task pf a (last_us, dv))))) = flash_calls (dv_trace dv)"
  by (simp add: telemetry_task_def Let_def split_beta frame_simps)

text \<open>
  A step leaves the session and the flash alone, or serves one update request: \<open>calls\<close> are the
  flash calls it adds.
\<close>

definition ota_moves ::
    "('c, 'n) platform \<Rightarrow> (answers \<Rightarrow> bool) \<Rightarrow> ('c, 'n) device \<Rightarrow> ('c, 'n) device \<Rightarrow> ota_call list \<Rightarrow> bool" where
  "ota_moves pf E dv dv' calls \<longleftrightarrow>
     flash_calls (dv_trace dv') = flash_calls (dv_trace dv) @ calls \<and>
     (dv_ota dv' = dv_ota dv \<and> calls = [] \<or>
      (\<exists>a r. E a \<and> dv_ota dv' = snd (ota_serve (pf_sha pf) (pa_ota a, r) (dv_ota dv))
         \<and> calls = snd (snd (fst (ota_serve (pf_sha pf) (pa_ota a, r) (dv_ota dv))))))"

lemma ota_moves_none:
  "dv_ota dv' = dv_ota dv \<Longrightarrow> flash_calls (dv_trace dv') = flash_calls (dv_trace dv) \<Longrightarrow> ota_moves pf E dv dv' []"
  by (simp add: ota_moves_def)

lemma command_ota_moves:
  assumes "E a"
  shows "\<exists>calls. ota_moves pf E dv (meb_serial_console_process_command pf a cmd dv) calls"
proof -
  let ?dv' = "meb_serial_console_process_command pf a cmd dv"
  have calls: "flash_calls (dv_trace ?dv') = flash_calls (dv_trace dv) @
     flash_calls (case decode cmd of Accept has_id t req \<Rightarrow> acts_for pf a req dv | _ \<Rightarrow> [])"
    using command_acts [of pf a cmd dv] by (metis flash_calls_acts flash_calls_append)
  show ?thesis
  proof (cases "decode cmd")
    case (Accept has_id t req)
    show ?thesis
    proof (cases "ota_request_of req")
      case None
      then have "ota_moves pf E dv ?dv' []"
        using calls Accept by (intro ota_moves_none) (simp_all add: command_ota acts_for_def)
      then show ?thesis ..
    next
      case (Some r)
      then have "ota_moves pf E dv ?dv' (snd (snd (fst (ota_serve (pf_sha pf) (pa_ota a, r) (dv_ota dv)))))"
        using calls assms Accept by (auto simp: ota_moves_def command_ota acts_for_def)
      then show ?thesis ..
    qed
  qed (use calls in \<open>auto simp: command_ota intro!: exI [of _ "[]"] ota_moves_none\<close>)
qed

lemma step_ota:
  assumes "sys_step pf E s s'"
  shows "\<exists>calls. ota_moves pf E (sy_dev s) (sy_dev s') calls"
  using assms
proof cases
  case (step_check a t)
  then show ?thesis by (intro exI [of _ "[]"] ota_moves_none) (simp_all add: frame_simps)
next
  case (step_act a t t1 state)
  then show ?thesis by (intro exI [of _ "[]"] ota_moves_none) (simp_all add: frame_simps)
next
  case (step_telemetry a t delay last_us dv)
  then show ?thesis
    using telemetry_dev(2) [OF step_telemetry(4)] flash_telemetry [of pf a "sy_last_soc_us s" "sy_dev s"]
    by (intro exI [of _ "[]"] ota_moves_none) simp_all
next
  case (step_uart a t c line dv)
  then show ?thesis
    by (auto simp: Let_def split_beta intro: command_ota_moves ota_moves_none split: option.splits)
next
  case (step_ble_command a t rest dv)
  then show ?thesis by (auto simp: command_task_Some command_ota_moves)
qed (auto simp: frame_simps intro!: exI [of _ "[]"] ota_moves_none)

section \<open>The session of the device\<close>

definition update_inv ::
    "'c sha_api \<Rightarrow> ('c \<Rightarrow> u8 list \<Rightarrow> bool) \<Rightarrow> ('c, 'n) device \<Rightarrow> session \<Rightarrow> bool" where
  "update_inv api absorbed dv se \<longleftrightarrow>
     session_rel absorbed api (dv_ota dv) se \<and> (\<exists>ann. traced se (flash_content (dv_trace dv)) ann)"

lemma update_step:
  assumes "sha_lawful (pf_sha pf) absorbed H" and "\<And>a. E a \<Longrightarrow> flash_ok (pa_ota a)"
    and "update_inv (pf_sha pf) absorbed dv se" and "ota_moves pf E dv dv' calls"
  shows "\<exists>se'. update_inv (pf_sha pf) absorbed dv' se'
    \<and> (calls = [] \<or> (\<exists>a r. E a \<and> calls = snd (snd (fst (spec_serve H (pa_ota a, r) se)))))"
proof -
  have content: "flash_content (dv_trace dv') = fold flash_after calls (flash_content (dv_trace dv))"
    using assms(4) by (simp add: ota_moves_def flash_content_def)
  obtain ann where inv: "session_rel absorbed (pf_sha pf) (dv_ota dv) se" "traced se (flash_content (dv_trace dv)) ann"
    using assms(3) unfolding update_inv_def by blast
  from assms(4) consider "dv_ota dv' = dv_ota dv" "calls = []"
    | a r where "E a" "dv_ota dv' = snd (ota_serve (pf_sha pf) (pa_ota a, r) (dv_ota dv))"
      "calls = snd (snd (fst (ota_serve (pf_sha pf) (pa_ota a, r) (dv_ota dv))))"
    unfolding ota_moves_def by blast
  then show ?thesis
  proof cases
    case 1
    with assms(3) content show ?thesis by (auto simp: update_inv_def)
  next
    case (2 a r)
    have sim: "fst (ota_serve (pf_sha pf) (pa_ota a, r) (dv_ota dv)) = fst (spec_serve H (pa_ota a, r) se)"
      "session_rel absorbed (pf_sha pf) (snd (ota_serve (pf_sha pf) (pa_ota a, r) (dv_ota dv))) (snd (spec_serve H (pa_ota a, r) se))"
      using ota_refines.sim [of "pf_sha pf" absorbed H "dv_ota dv" se "(pa_ota a, r)"] assms(1) assms(2) [OF 2(1)] inv(1) by simp_all
    have "traced (snd (spec_serve H (pa_ota a, r) se)) (flash_content (dv_trace dv'))
        (announced ((pa_ota a, r), fst (spec_serve H (pa_ota a, r) se)) ann)"
      using traced_step [OF inv(2), of H "(pa_ota a, r)"] unfolding content 2(3) sim(1) .
    with sim 2 show ?thesis unfolding update_inv_def by (metis (no_types))
  qed
qed

lemma reachable_update:
  assumes "reachable pf E s0 s" and "sha_lawful (pf_sha pf) absorbed H" and "\<And>a. E a \<Longrightarrow> flash_ok (pa_ota a)"
    and "update_inv (pf_sha pf) absorbed (sy_dev s0) se0"
  shows "\<exists>se. update_inv (pf_sha pf) absorbed (sy_dev s) se"
  using assms
proof induction
  case (reach_step s s')
  then obtain se calls where "update_inv (pf_sha pf) absorbed (sy_dev s) se" "ota_moves pf E (sy_dev s) (sy_dev s') calls"
    using step_ota [OF reach_step.hyps(2)] by blast
  with update_step [OF assms(2,3)] show ?case by blast
qed blast

lemma started_update:
  assumes "app_main pf opts b a (pm_boot_state, device_boot_state pf f) = (ESP_OK, pm, dv)"
  shows "update_inv (pf_sha pf) absorbed (sy_dev (started pf opts (pm, dv) t tick)) Idle"
  using boot_state [OF assms] by (simp add: update_inv_def started_def fresh_def)

lemma cancel_selects:
  "SetBoot q e \<in> set (snd (snd (fst (spec_serve H (an, ReqCancel) s)))) \<Longrightarrow> \<exists>p n. s = Ready p n"
  by (cases s) simp_all


text \<open>An update over the UART, one byte per step, up to the end request that selects the new image.\<close>

abbreviation good_answers :: "answers \<Rightarrow> bool" where
  "good_answers \<equiv> \<lambda>a. pa_ota a = good_flash"

lemma bench_uart:
  assumes "sy_now s \<le> t" and "uart_command_task bench_platform (map (\<lambda>c. (bench_answers t, c)) bs) (sy_uart_line s, sy_dev s) = (line, dv)"
    and "reachable bench_platform good_answers s0 s" and "bs \<noteq> []"
  shows "reachable bench_platform good_answers s0 (s\<lparr>sy_now := t, sy_uart_line := line, sy_dev := dv\<rparr>)"
  using assms
proof (induction bs arbitrary: s)
  case (Cons c bs)
  obtain line1 dv1 where byte: "uart_command_task bench_platform [(bench_answers t, c)] (sy_uart_line s, sy_dev s) = (line1, dv1)"
    by (cases "uart_command_task bench_platform [(bench_answers t, c)] (sy_uart_line s, sy_dev s)")
  let ?s1 = "s\<lparr>sy_now := t, sy_uart_line := line1, sy_dev := dv1\<rparr>"
  have "sys_step bench_platform good_answers s ?s1"
    by (rule step_uart [OF _ bench_during [OF Cons.prems(1)] byte]) (simp add: bench_answers_def)
  then have reach: "reachable bench_platform good_answers s0 ?s1" by (rule reach_step [OF Cons.prems(3)])
  have rest: "uart_command_task bench_platform (map (\<lambda>c. (bench_answers t, c)) bs) (line1, dv1) = (line, dv)"
    using Cons.prems(2) uart_task_append [of bench_platform "[(bench_answers t, c)]" "map (\<lambda>c. (bench_answers t, c)) bs"] byte
    by (simp del: uart_command_task.simps)
  show ?case
  proof (cases "bs = []")
    case True
    with rest reach show ?thesis by simp
  next
    case False
    with Cons.IH [of ?s1] rest reach show ?thesis by simp
  qed
qed simp

text \<open>A line over the UART, one byte per step; the last step serves its request.\<close>

lemma bench_line:
  assumes "reachable bench_platform good_answers s0 s" and "sy_uart_line s = ''''" and "sy_now s \<le> t"
    and "wire_safe (request_text k req)"
  shows "\<exists>sm s'. reachable bench_platform good_answers s0 sm \<and> sys_step bench_platform good_answers sm s'
    \<and> sy_uart_line s' = '''' \<and> sy_now s' = t \<and> sy_dev sm = sy_dev s
    \<and> sy_dev s' = meb_serial_console_process_command bench_platform (bench_answers t) (request_text k req) (sy_dev s)"
proof -
  let ?a = "bench_answers t" and ?cmd = "request_text k req"
  let ?dv' = "meb_serial_console_process_command bench_platform ?a ?cmd (sy_dev s)"
  obtain bs where w: "wire ?cmd = 0x7B # bs" "text_of (0x7B # bs) = ?cmd" and bs: "plain bs" "Suc (length bs) \<le> 1023"
    using wire_request [of k req] assms(4) by blast
  have start: "\<not> is_newline 0x7B" by (simp add: is_newline_def)
  have "uart_feed (0x7B # bs) [] = ([], byte_char 0x7B # text_of bs)"
    using uart_lines.feed_start [OF start, of bs] uart_lines.collect [OF bs(1), of "[byte_char 0x7B]" "[]"] bs(2)
    by (simp add: CMD_RX_BUF_SIZE_def)
  then have fed: "uart_feed (0x7B # bs) [] = ([], ?cmd)" using w(2) by (simp add: text_of_def)
  have collect: "uart_command_task bench_platform (map (\<lambda>c. (?a, c)) (0x7B # bs)) (sy_uart_line s, sy_dev s) = (?cmd, sy_dev s)"
    using uart_task_collects [of "map (\<lambda>c. (?a, c)) (0x7B # bs)" "[]" bench_platform "sy_dev s"] fed assms(2)
    by (simp add: comp_def del: uart_command_task.simps uart_feed.simps)
  define sm where "sm = s\<lparr>sy_now := t, sy_uart_line := ?cmd, sy_dev := sy_dev s\<rparr>"
  have reach: "reachable bench_platform good_answers s0 sm"
    unfolding sm_def by (rule bench_uart [OF assms(3) collect assms(1)]) simp
  have "c_str ?cmd = ?cmd" using assms(4) by (simp add: wire_safe_def)
  then have serve: "uart_command_task bench_platform [(?a, 10)] (sy_uart_line sm, sy_dev sm) = ('''', ?dv')"
    using request_starts [of k req] by (auto simp: sm_def uart_feed_byte_def is_newline_def)
  have step: "sys_step bench_platform good_answers sm (sm\<lparr>sy_now := t, sy_uart_line := '''', sy_dev := ?dv'\<rparr>)"
    by (rule step_uart [OF _ bench_during serve]) (simp_all add: bench_answers_def sm_def)
  show ?thesis using reach step
    by (intro exI [of _ sm] exI [of _ "sm\<lparr>sy_now := t, sy_uart_line := '''', sy_dev := ?dv'\<rparr>"]) (simp add: sm_def)
qed

lemma bench_request:
  assumes "reachable bench_platform good_answers s0 s" and "sy_uart_line s = ''''" and "sy_now s \<le> t"
    and "wire_safe (request_text k req)" and "request_fits req" and "length (print_dec k) < 64" and "ota_request_of req = Some r"
  shows "\<exists>sm s'. reachable bench_platform good_answers s0 sm \<and> sys_step bench_platform good_answers sm s'
    \<and> sy_uart_line s' = '''' \<and> sy_now s' = t \<and> sy_dev sm = sy_dev s
    \<and> dv_ota (sy_dev s') = snd (ota_serve plain_sha (good_flash, r) (dv_ota (sy_dev s)))
    \<and> flash_calls (dv_trace (sy_dev s')) = flash_calls (dv_trace (sy_dev s)) @
        snd (snd (fst (ota_serve plain_sha (good_flash, r) (dv_ota (sy_dev s)))))"
proof -
  let ?a = "bench_answers t" and ?cmd = "request_text k req"
  let ?dv' = "meb_serial_console_process_command bench_platform ?a ?cmd (sy_dev s)"
  note decoded = decode_request_text [OF assms(5,6)]
  have acts: "flash_calls (acts_of (dv_trace ?dv')) = flash_calls (acts_of (dv_trace (sy_dev s))) @
      flash_calls (acts_for bench_platform ?a req (sy_dev s))"
    by (simp add: command_acts decoded)
  have "dv_ota ?dv' = snd (ota_serve plain_sha (good_flash, r) (dv_ota (sy_dev s)))"
    using assms(7) by (simp add: command_ota decoded bench_platform_def bench_answers_def)
  moreover have "flash_calls (dv_trace ?dv') = flash_calls (dv_trace (sy_dev s)) @
      snd (snd (fst (ota_serve plain_sha (good_flash, r) (dv_ota (sy_dev s)))))"
    using acts assms(7) by (simp add: bench_platform_def bench_answers_def acts_for_def flash_calls_acts)
  ultimately show ?thesis using bench_line [OF assms(1-4)] by metis
qed

abbreviation bench_requests :: "request list" where
  "bench_requests \<equiv>
    [FirmwareBegin 3 (hex_text True (plain_hash [65, 66, 67])), FirmwareWrite 0 ''QUI='', FirmwareWrite 2 ''Qw=='', FirmwareEnd]"

lemma bench_requests_ok:
  "list_all (\<lambda>req. wire_safe (request_text 1 req) \<and> request_fits req) bench_requests"
  by code_simp

lemma bench_id: "length (print_dec 1) < 64"
  by code_simp

text \<open>The states after some update requests, sent as lines over the UART.\<close>

definition bench_at ::
    "(u8 list, u32 option) system \<Rightarrow> ota_request list \<Rightarrow> (u8 list, u32 option) system \<Rightarrow> bool" where
  "bench_at s0 rs s \<longleftrightarrow> reachable bench_platform good_answers s0 s \<and> sy_uart_line s = '''' \<and> sy_now s \<le> 8
     \<and> dv_ota (sy_dev s) = ota_after plain_sha (map (Pair good_flash) rs)"

lemma bench_serves:
  assumes "bench_at s0 rs s" and "wire_safe (request_text 1 req)" and "request_fits req" and "ota_request_of req = Some r"
  shows "\<exists>sm s'. reachable bench_platform good_answers s0 sm \<and> sys_step bench_platform good_answers sm s' \<and> sy_dev sm = sy_dev s
    \<and> bench_at s0 (rs @ [r]) s' \<and> flash_calls (dv_trace (sy_dev s')) = flash_calls (dv_trace (sy_dev s)) @
        snd (snd (fst (ota_serve plain_sha (good_flash, r) (dv_ota (sy_dev s)))))"
proof -
  have at: "reachable bench_platform good_answers s0 s" "sy_uart_line s = ''''" "sy_now s \<le> 8"
    "dv_ota (sy_dev s) = ota_after plain_sha (map (Pair good_flash) rs)"
    using assms(1) by (simp_all add: bench_at_def)
  obtain sm s' where reach: "reachable bench_platform good_answers s0 sm" and step: "sys_step bench_platform good_answers sm s'"
    and same: "sy_uart_line s' = ''''" "sy_now s' = 8" "sy_dev sm = sy_dev s"
    and ota: "dv_ota (sy_dev s') = snd (ota_serve plain_sha (good_flash, r) (dv_ota (sy_dev s)))"
    and flash: "flash_calls (dv_trace (sy_dev s')) = flash_calls (dv_trace (sy_dev s)) @
        snd (snd (fst (ota_serve plain_sha (good_flash, r) (dv_ota (sy_dev s)))))"
    using bench_request [OF at(1-3) assms(2,3) bench_id assms(4)] by blast
  have "bench_at s0 (rs @ [r]) s'"
    using reach_step [OF reach step] same ota at(4)
    by (simp add: bench_at_def run_outputs_append split_beta Let_def del: ota_serve.simps)
  with reach step same(3) flash show ?thesis by blast
qed

lemma bench_upload:
  assumes "bench_at s0 rs s" and "list_all (\<lambda>req. wire_safe (request_text 1 req) \<and> request_fits req) reqs"
    and "map ota_request_of reqs = map Some rs'"
  shows "\<exists>s'. bench_at s0 (rs @ rs') s'"
  using assms
proof (induction reqs arbitrary: rs s rs')
  case (Cons req reqs)
  then obtain r rs'' where rs': "rs' = r # rs''" "ota_request_of req = Some r" by auto
  with bench_serves [OF Cons.prems(1)] Cons.prems(2) obtain s1 where "bench_at s0 (rs @ [r]) s1" by (metis list.pred_inject(2))
  from Cons.IH [OF this] Cons.prems(2,3) rs' show ?case by simp
qed auto

abbreviation bench_image :: esp_partition where
  "bench_image \<equiv> \<lparr>part_label = ''ota_1'', part_size = 0x1E0000\<rparr>"


end
