(* ===== verification/System_Restart.thy ===== *)
theory System_Restart
  imports System_Update
begin

text \<open>
  Restarts of the running system: which steps schedule one, and what the device boots into when
  the restart is the one that ends an update.
\<close>

section \<open>The restarts of a trace\<close>

fun restart_of :: "effect \<Rightarrow> u32 option" where
  "restart_of (RestartIn ms) = Some ms"
| "restart_of _ = None"

definition restarts :: "effect list \<Rightarrow> u32 list" where
  "restarts es = List.map_filter restart_of es"

lemma restarts_append [simp]: "restarts (xs @ ys) = restarts xs @ restarts ys"
  by (simp add: restarts_def List.map_filter_def)

lemma restarts_simps [simp]:
  "restarts [] = []" "restarts (Written w # es) = restarts es" "restarts (FlashCall c # es) = restarts es"
  "restarts (CanRequest k e # es) = restarts es" "restarts (RestartIn ms # es) = ms # restarts es"
  by (simp_all add: restarts_def List.map_filter_def)

lemma restarts_flash [simp]: "restarts (map FlashCall cs) = []"
  by (induction cs) simp_all

lemma restarts_acts: "restarts (acts_of es) = restarts es"
proof (induction es)
  case (Cons e es)
  then show ?case by (cases e) simp_all
qed simp

lemma restarts_frame [frame_simps]:
  "restarts (dv_trace (meb_serial_printf a m parts dv)) = restarts (dv_trace dv)"
  "restarts (dv_trace (control_auto_off pf a dv)) = restarts (dv_trace dv)"
  "restarts (dv_trace (control_act pf a state dv)) = restarts (dv_trace dv)"
  "restarts (dv_trace (snd (snd (telemetry_task pf a (last_us, dv))))) = restarts (dv_trace dv)"
proof -
  show printf: "restarts (dv_trace (meb_serial_printf a m parts dv)) = restarts (dv_trace dv)" for parts m and dv :: "('a, 'b) device"
    by (simp add: meb_serial_printf_def Let_def split_beta frame_simps)
  show "restarts (dv_trace (control_auto_off pf a dv)) = restarts (dv_trace dv)"
    by (simp add: control_auto_off_def split_beta Let_def frame_simps printf)
  show "restarts (dv_trace (control_act pf a state dv)) = restarts (dv_trace dv)"
    by (simp add: control_act_def meb_state_take_session_error_def Let_def frame_simps printf)
  have "restarts (acts_of (dv_trace (snd (snd (telemetry_task pf a (last_us, dv)))))) = restarts (acts_of (dv_trace dv))"
    by (simp add: acts_telemetry)
  then show "restarts (dv_trace (snd (snd (telemetry_task pf a (last_us, dv))))) = restarts (dv_trace dv)"
    by (simp add: restarts_acts)
qed

lemma command_restarts:
  "restarts (dv_trace (meb_serial_console_process_command pf a cmd dv)) = restarts (dv_trace dv) @
     (case decode cmd of
        Accept has_id t req \<Rightarrow>
          if pa_task_created a \<and> (req = DeviceReset \<or> req = FirmwareReboot \<and> ota_pending_reboot (dv_ota dv)) then [500] else []
      | _ \<Rightarrow> [])"
proof -
  have "restarts (acts_for pf a req dv) =
      (if pa_task_created a \<and> (req = DeviceReset \<or> req = FirmwareReboot \<and> ota_pending_reboot (dv_ota dv)) then [500] else [])" for req
    by (cases req) (simp_all add: acts_for_def)
  moreover have "restarts (acts_of (dv_trace (meb_serial_console_process_command pf a cmd dv))) = restarts (acts_of (dv_trace dv)) @
      restarts (case decode cmd of Accept has_id t req \<Rightarrow> acts_for pf a req dv | _ \<Rightarrow> [])"
    by (simp add: command_acts)
  ultimately show ?thesis by (simp add: restarts_acts split: decoded.split)
qed

lemma step_restarts:
  assumes "sys_step pf E s s'" and "restarts (dv_trace (sy_dev s')) \<noteq> restarts (dv_trace (sy_dev s))"
  shows "\<exists>a cmd. E a \<and> sy_dev s' = meb_serial_console_process_command pf a cmd (sy_dev s)"
  using assms(1)
proof cases
  case (step_telemetry a t delay last_us dv)
  then show ?thesis using assms(2) restarts_frame(4) [of pf a "sy_last_soc_us s" "sy_dev s"] by simp
next
  case (step_uart a t c line dv)
  then show ?thesis using assms(2) by (auto simp: Let_def split_beta split: option.splits)
next
  case (step_ble_command a t rest dv)
  then show ?thesis by (auto simp: command_task_Some)
qed (use assms(2) in \<open>auto simp: frame_simps\<close>)

section \<open>The image a restart boots into\<close>

text \<open>The partition that the calls of a trace selected last.\<close>

fun selects :: "ota_call \<Rightarrow> esp_partition option \<Rightarrow> esp_partition option" where
  "selects (SetBoot p err) b = (if err = ESP_OK then Some p else b)"
| "selects _ b = b"

definition boot_selection :: "effect list \<Rightarrow> esp_partition option" where
  "boot_selection es = fold selects (flash_calls es) None"

text \<open>While an update waits for its restart, the selected partition holds the verified image.\<close>

definition verified_selection :: "(u8 list \<Rightarrow> u8 list) \<Rightarrow> ('c, 'n) device \<Rightarrow> bool" where
  "verified_selection H dv \<longleftrightarrow>
     (\<exists>p img. boot_selection (dv_trace dv) = Some p \<and> flash_content (dv_trace dv) = Some (p, img)
        \<and> length img = unat (ota_expected_size (dv_ota dv)) \<and> H img = ota_expected_sha256 (dv_ota dv))"

lemma serve_installs:
  assumes "\<not> ota_pending_reboot st" and "ota_serve api (an, r) st = ((err, len, calls), st')" and "ota_pending_reboot st'"
  shows "\<exists>p. ota_active st \<and> ota_partition st = Some p \<and> calls = [OtaEnd (ota_handle st) ESP_OK, SetBoot p ESP_OK]
    \<and> ota_written st = ota_expected_size st \<and> snd (tc_sha256_final api (ota_sha256_ctx st)) = ota_expected_sha256 st
    \<and> ota_expected_size st' = ota_expected_size st \<and> ota_expected_sha256 st' = ota_expected_sha256 st"
  using assms
  by (cases r) (auto simp: meb_ota_update_begin_def meb_ota_update_write_def meb_ota_update_end_def meb_ota_update_cancel_def
      abort_active_update_def Let_def split_beta split: if_splits option.splits sum.splits)

lemma serve_waits:
  assumes "ota_pending_reboot st" and "\<not> ota_active st" and "ota_serve api (an, r) st = ((err, len, calls), st')" and "ota_pending_reboot st'"
  shows "st' = st \<and> fold selects calls b = b \<and> fold flash_after calls c = c"
  using assms
  by (cases r) (auto simp: meb_ota_update_begin_def meb_ota_update_write_def meb_ota_update_end_def meb_ota_update_cancel_def
      abort_active_update_def Let_def split_beta split: if_splits option.splits sum.splits)

definition installed_inv :: "(u8 list \<Rightarrow> u8 list) \<Rightarrow> ('c, 'n) device \<Rightarrow> bool" where
  "installed_inv H dv \<longleftrightarrow> (ota_pending_reboot (dv_ota dv) \<longrightarrow> verified_selection H dv)"

lemma installed_step:
  assumes law: "sha_lawful (pf_sha pf) absorbed H" and "update_inv (pf_sha pf) absorbed dv se"
    and inv: "installed_inv H dv" and "ota_moves pf E dv dv' calls"
  shows "installed_inv H dv'"
proof -
  have flash: "flash_calls (dv_trace dv') = flash_calls (dv_trace dv) @ calls" using assms(4) by (simp add: ota_moves_def)
  obtain ann where rel: "session_rel absorbed (pf_sha pf) (dv_ota dv) se" and tr: "traced se (flash_content (dv_trace dv)) ann"
    using assms(2) by (auto simp: update_inv_def)
  from assms(4) consider "dv_ota dv' = dv_ota dv" "calls = []"
    | a r where "E a" "dv_ota dv' = snd (ota_serve (pf_sha pf) (pa_ota a, r) (dv_ota dv))"
      "calls = snd (snd (fst (ota_serve (pf_sha pf) (pa_ota a, r) (dv_ota dv))))"
    unfolding ota_moves_def by blast
  then show ?thesis
  proof cases
    case 1
    with inv flash show ?thesis
      by (simp add: installed_inv_def verified_selection_def boot_selection_def flash_content_def)
  next
    case (2 a r)
    then obtain err len where serve: "ota_serve (pf_sha pf) (pa_ota a, r) (dv_ota dv) = ((err, len, calls), dv_ota dv')"
      by (metis prod.collapse)
    show ?thesis
    proof (cases "ota_pending_reboot (dv_ota dv') \<and> ota_pending_reboot (dv_ota dv)")
      case True
      with rel have "\<not> ota_active (dv_ota dv)" by (cases se) auto
      with serve_waits [OF _ this serve] True inv flash show ?thesis
        by (simp add: installed_inv_def verified_selection_def boot_selection_def flash_content_def)
    next
      case False
      show ?thesis
      proof (cases "ota_pending_reboot (dv_ota dv')")
        case True
        with False serve_installs [OF _ serve] obtain p where p: "ota_active (dv_ota dv)" "ota_partition (dv_ota dv) = Some p"
          "calls = [OtaEnd (ota_handle (dv_ota dv)) ESP_OK, SetBoot p ESP_OK]"
          "ota_written (dv_ota dv) = ota_expected_size (dv_ota dv)"
          "snd (tc_sha256_final (pf_sha pf) (ota_sha256_ctx (dv_ota dv))) = ota_expected_sha256 (dv_ota dv)"
          "ota_expected_size (dv_ota dv') = ota_expected_size (dv_ota dv)"
          "ota_expected_sha256 (dv_ota dv') = ota_expected_sha256 (dv_ota dv)" by blast
        with rel tr obtain img where "flash_content (dv_trace dv) = Some (p, img)" "length img = unat (ota_expected_size (dv_ota dv))"
          and img: "absorbed (ota_sha256_ctx (dv_ota dv)) img" by (cases se) auto
        moreover have "H img = ota_expected_sha256 (dv_ota dv)" using sha_laws(3) [OF law img] p(5) by simp
        ultimately show ?thesis using p(3,6,7) flash
          by (simp add: installed_inv_def verified_selection_def boot_selection_def flash_content_def)
      qed (simp add: installed_inv_def)
    qed
  qed
qed

lemma reachable_installed:
  assumes "reachable pf E s0 s" and "sha_lawful (pf_sha pf) absorbed H" and "\<And>a. E a \<Longrightarrow> flash_ok (pa_ota a)"
    and "update_inv (pf_sha pf) absorbed (sy_dev s0) se0" and "installed_inv H (sy_dev s0)"
  shows "installed_inv H (sy_dev s)"
  using assms
proof induction
  case (reach_step s s')
  obtain se where "update_inv (pf_sha pf) absorbed (sy_dev s) se" using reachable_update [OF reach_step.hyps(1) assms(2-4)] by blast
  moreover obtain calls where "ota_moves pf E (sy_dev s) (sy_dev s') calls" using step_ota [OF reach_step.hyps(2)] by blast
  ultimately show ?case using installed_step [OF assms(2)] reach_step.IH reach_step.prems by blast
qed



end
