(* ===== verification/System_Events.thy ===== *)
theory System_Events
  imports System_Properties
begin

text \<open>
  The event log in the running system. Whatever task or callback records an event, the log is the one
  of \<open>Diagnostics\<close>: nothing is lost but the oldest events, and these are counted.
\<close>

section \<open>Operations only add events\<close>

definition log_grows :: "diag_state \<Rightarrow> diag_state \<Rightarrow> bool" where
  "log_grows d d' \<longleftrightarrow> (\<exists>calls. d' = fold diag_push calls d)"

lemma grows_refl [simp]: "log_grows d d"
  unfolding log_grows_def by (rule exI [of _ "[]"]) simp

lemma grows_trans: "log_grows d d' \<Longrightarrow> log_grows d' d'' \<Longrightarrow> log_grows d d''"
  unfolding log_grows_def by (metis comp_apply fold_append)

lemma grows_event [simp]: "log_grows d (meb_diag_record_event r component event detail d)"
  unfolding log_grows_def by (rule exI [of _ "[(r, component, event, detail)]"]) (simp add: diag_push_def)

lemma grows_eventf [simp]: "log_grows d (meb_diag_record_eventf r component event formatted d)"
  by (simp add: meb_diag_record_eventf_def Let_def)

text \<open>The libraries of the components.\<close>

lemma rx_grows: "log_grows d (snd (process_rx_message r msg (st, d)))"
  by (simp add: process_rx_message_def meb_state_update_diag_response_def Let_def split: option.split)

lemma report_grows:
  "log_grows (snd s) (snd (report_overflow r s))" "log_grows (snd s) (snd (report_errors r node isr s))"
  "log_grows (snd s) (snd (report_states r node s))" "log_grows (snd s) (snd (report_tx_failures r s))"
  "log_grows (snd s) (snd (report_slot_exhaustion r s))"
  by (simp_all add: report_overflow_def report_errors_def report_states_def report_tx_failures_def
      report_slot_exhaustion_def Let_def split_beta)

lemma isr_report_grows: "log_grows (snd s) (snd (report_isr_diagnostics r info isr s))"
  unfolding report_isr_diagnostics_def Let_def by (meson grows_trans report_grows)

lemma can_task_grows:
  assumes "can_rx_task_step r received now info isr (tick, can, app, d) = (tick', can', app', d')"
  shows "log_grows d d'"
proof -
  obtain app1 d1 where rx: "(case received of None \<Rightarrow> (app, d) | Some msg \<Rightarrow> process_rx_message r msg (app, d)) = (app1, d1)"
    by fastforce
  then have "log_grows d d1" using rx_grows [of d r _ app] by (cases received) (auto, metis snd_conv)
  moreover have "log_grows d1 d'"
    using assms isr_report_grows [of "(can, d1)" r info isr]
    by (auto simp: can_rx_task_step_def rx Let_def split: if_splits prod.splits)
  ultimately show ?thesis by (rule grows_trans)
qed

lemma transmit_grows: "log_grows (snd s) (snd (snd (snd (transmit_fd_frame len2dlc err_name r answer ident data name s))))"
  by (cases s) (simp add: transmit_fd_frame_def split_beta split: option.split)

lemma notify_chunks_grow: "log_grows d (snd (notify_chunks r h ans k data d))"
proof (induction r h ans k data d rule: notify_chunks.induct)
  case (1 r h ans k rest d)
  then show ?case by (subst notify_chunks.simps) (auto simp: Let_def split_beta)
qed

lemma notify_peers_grow: "log_grows d (snd (notify_peers r ans data ps d))"
proof (induction ps arbitrary: d)
  case (Cons p ps)
  have "log_grows (snd (notify_chunks r (bp_conn_handle p) (ans (bp_conn_handle p)) 0 data d))
      (snd (notify_peers r ans data ps (snd (notify_chunks r (bp_conn_handle p) (ans (bp_conn_handle p)) 0 data d))))"
    by (rule Cons.IH)
  then show ?case using Cons.IH [of d] by (auto simp: Let_def split_beta intro: grows_trans [OF notify_chunks_grow])
qed simp

lemma feed_rx_grows: "log_grows (snd s) (snd (snd (feed_rx_bytes r bs s)))"
proof (induction bs arbitrary: s)
  case (Cons b bs)
  obtain c sent st d where b: "b = (c, sent)" and s: "s = (st, d)" by (cases b, cases s)
  obtain line dropped buf where byte: "ble_feed_byte c (s_rx_line st) = (line, dropped, buf)"
    by (cases "ble_feed_byte c (s_rx_line st)")
  obtain queued st1 d1 where queue: "(case line of Some l \<Rightarrow> queue_line r sent l (st, d)
      | None \<Rightarrow> (None, st, if dropped then meb_diag_record_event r (Some ''ble'') (Some ''cmd_overlong'') (Some '''') d else d))
      = (queued, st1, d1)"
    by (rule prod_cases3)
  have "log_grows d (snd (snd (queued, st1, d1)))"
    unfolding queue [symmetric] by (simp add: queue_line_def Let_def split: option.split)
  moreover obtain cmds st2 d2 where rest: "feed_rx_bytes r bs (st1\<lparr>s_rx_line := buf\<rparr>, d1) = (cmds, st2, d2)"
    by (rule prod_cases3)
  ultimately show ?case using Cons.IH [of "(st1\<lparr>s_rx_line := buf\<rparr>, d1)"] grows_trans
    unfolding b s feed_rx_Cons [OF byte queue rest] rest by auto
qed simp

lemma access_grows:
  assumes "gatt_access_cb r attr acc (st, d) = (code, answer, cmds, st', d')"
  shows "log_grows d d'"
proof -
  have "log_grows d d'" if "feed_rx_bytes r bs (st, d) = (cmds, st', d')" for bs
    using feed_rx_grows [of "(st, d)" r bs] that by simp
  then show ?thesis using assms
    by (auto simp: gatt_access_cb_def Let_def split: gatt_access.splits option.splits if_splits prod.splits)
qed

lemma gap_grows: "log_grows (snd s) (snd (snd (gap_event_cb r rcs ev s)))"
  by (cases s; cases ev) (simp_all add: gap_event_cb_def Let_def split_beta)

lemma sync_grows: "log_grows (snd s) (snd (snd (on_sync r addr infer rcs s)))"
  by (cases s) (simp add: on_sync_def Let_def)

section \<open>Device operations\<close>

abbreviation dv_grows :: "('c, 'n) device \<Rightarrow> ('c, 'n) device \<Rightarrow> bool" where
  "dv_grows dv dv' \<equiv> log_grows (dv_diag dv) (dv_diag dv')"

lemma printf_grows [simp]: "dv_grows dv (meb_serial_printf a m parts dv)"
  by (simp add: meb_serial_printf_def meb_ble_console_write_def notify_peers_grow frame_simps on_diag_def Let_def split_beta)

lemma on_diag_grows: "(\<And>d. log_grows d (f d)) \<Longrightarrow> dv_grows dv (on_diag f dv)"
  by (simp add: on_diag_def)

lemma effects_diag [simp]: "dv_diag (effects es dv) = dv_diag dv"
  by (simp add: effects_def)

lemma can_send_grows [simp]: "dv_grows dv (snd (can_send pf a k dv))"
  using transmit_grows [of "(dv_can dv, dv_diag dv)"]
  by (cases k) (simp_all add: can_send_def meb_can_request_diag_session_def meb_can_send_heat_request_def
      meb_can_request_bms_soc_def split_beta Let_def)

lemma auto_off_grows: "dv_grows dv (control_auto_off pf a dv)"
proof -
  have "dv_grows dv (meb_serial_printf a AtPrint parts (on_diag (meb_diag_record_eventf r ''control'' name x) (dv\<lparr>dv_app := st\<rparr>)))"
    for parts r name x st
    by (rule grows_trans [OF _ printf_grows]) (simp add: on_diag_def)
  then show ?thesis by (simp add: control_auto_off_def Let_def split_beta)
qed

lemma act_grows: "dv_grows dv (control_act pf a state dv)"
proof -
  have "dv_grows dv (snd (can_send pf a DiagSession (meb_serial_printf a AtRetry parts
      (on_diag (meb_diag_record_event r c e x) (dv\<lparr>dv_app := st\<rparr>)))))" for parts r c e x st
    by (rule grows_trans [OF grows_trans [OF _ printf_grows] can_send_grows]) (simp add: on_diag_def)
  moreover have "dv_grows dv (snd (can_send pf a HeatRequest (dv\<lparr>dv_app := st\<rparr>)))" for st
    using can_send_grows [of "dv\<lparr>dv_app := st\<rparr>" pf a HeatRequest] by simp
  ultimately show ?thesis by (simp add: control_act_def Let_def split_beta)
qed

lemma telemetry_grows: "telemetry_task pf a (last_us, dv) = (delay, last', dv') \<Longrightarrow> dv_grows dv dv'"
proof -
  have "dv_grows dv (meb_serial_printf a AtPrint parts (snd (can_send pf a k dv)))" for parts k
    by (rule grows_trans [OF can_send_grows printf_grows])
  then show "telemetry_task pf a (last_us, dv) = (delay, last', dv') \<Longrightarrow> dv_grows dv dv'"
    by (auto simp: telemetry_task_def Let_def split_beta split: if_splits)
qed

lemma error_grows [simp]: "dv_grows dv (send_rpc_error a t code message dv)"
  by (simp add: send_rpc_error_def)

lemma result_grows [simp]: "dv_grows dv (send_rpc_result a has_id t parts dv)"
  by (simp add: send_rpc_result_def Let_def)

lemma render_grows: "dv_grows dv (render a has_id t reply dv)"
  by (cases reply) simp_all

lemma perform_grows: "dv_grows dv (snd (perform pf a req dv))"
  by (cases req)
    (simp_all add: perform_defs on_app_def meb_state_set_heating_enabled_def meb_state_set_auto_off_timer_minutes_def
      meb_control_set_telemetry_interval_ms_def interval_event_def on_diag_def set_telemetry_interval_in_memory_def on_ota_def)

lemma command_grows: "dv_grows dv (meb_serial_console_process_command pf a cmd dv)"
  by (auto simp: console_phases split: decoded.split intro: grows_trans [OF perform_grows render_grows])

lemma step_log_grows:
  assumes "sys_step pf E s s'"
  shows "dv_grows (sy_dev s) (sy_dev s')"
  using assms
proof cases
  case (step_telemetry a t delay last_us dv)
  then show ?thesis by (simp add: telemetry_grows)
next
  case (step_uart a t c line dv)
  then show ?thesis by (auto simp: Let_def split_beta command_grows split: option.splits)
next
  case (step_ble_access a t attr acc code answer cmds ble d)
  then show ?thesis by (simp add: access_grows)
next
  case (step_ble_command a t rest dv)
  then show ?thesis by (auto simp: command_task_Some command_grows)
next
  case (step_gap a t rcs ev calls ble d)
  then show ?thesis using gap_grows [of "(dv_ble (sy_dev s), dv_diag (sy_dev s))" "pa_reading a AtEvent" rcs ev] by simp
next
  case (step_sync a t addr infer rcs calls ble d)
  then show ?thesis using sync_grows [of "(dv_ble (sy_dev s), dv_diag (sy_dev s))" "pa_reading a AtEvent" addr infer rcs] by simp
next
  case (step_can_task a t received tick info isr tick' can app d)
  then show ?thesis by (simp add: can_task_grows)
qed (simp_all add: auto_off_grows act_grows on_diag_def on_reset_def)

lemma reachable_log_grows: "reachable pf E s0 s \<Longrightarrow> dv_grows (sy_dev s0) (sy_dev s)"
  by (induction rule: reachable.induct) (auto intro: grows_trans step_log_grows)

section \<open>The log in the running system\<close>

text \<open>What the log shows does not depend on whether its lock exists.\<close>

lemma push_lock: "diag_push c (d\<lparr>s_diag_lock := l\<rparr>) = (diag_push c d)\<lparr>s_diag_lock := l\<rparr>"
  by (simp add: diag_push_def meb_diag_record_event_def diag_store_def Let_def split: prod.split)

lemma pushes_lock: "fold diag_push calls (d\<lparr>s_diag_lock := l\<rparr>) = (fold diag_push calls d)\<lparr>s_diag_lock := l\<rparr>"
  by (induction calls arbitrary: d) (simp_all add: push_lock)

text \<open>\<open>d\<close> shows the calls \<open>calls\<close>: the last sixteen, numbered, with the others counted.\<close>

definition shows_log :: "diag_state \<Rightarrow> diag_call list \<Rightarrow> bool" where
  "shows_log d calls \<longleftrightarrow>
     (let s = meb_diag_get_events d in
      map (\<lambda>e. e\<lparr>ev_seq := 0\<rparr>) (sn_events s) = last_part 16 (map diag_entry calls)
      \<and> map ev_seq (sn_events s) = map (\<lambda>k. sn_next_seq s - sn_count s + of_nat k) [0 ..< length (sn_events s)]
      \<and> sn_next_seq s = 1 + of_nat (length calls) \<and> sn_overwritten s = of_nat (length calls - 16))"

lemma log_is_shown: "shows_log (fold diag_push calls (diag_boot_state\<lparr>s_diag_lock := l\<rparr>)) calls"
proof -
  have "meb_diag_get_events (d\<lparr>s_diag_lock := l\<rparr>) = meb_diag_get_events d" for d
    by (simp add: meb_diag_get_events_def diag_copy_events_def diag_first_def)
  then show ?thesis
    using event_log_accounts_for_all [of calls] diag_log.view_run [of calls]
    unfolding shows_log_def pushes_lock diag_view_def diag_push_def [symmetric] by (simp add: Let_def)
qed

text \<open>Start-up records the boot event first.\<close>

lemma can_init_grows: "log_grows d (snd (snd (snd (meb_can_init n answer r (st, d)))))"
  by (simp add: meb_can_init_def Let_def split_beta)

lemma control_start_grows: "dv_grows dv (snd (meb_control_start pf a c t dv))"
  by (simp add: meb_control_start_def load_telemetry_interval_setting_def interval_event_def on_diag_def
      set_telemetry_interval_in_memory_def Let_def split_beta split: sum.split)

lemma serial_init_diag: "dv_diag (snd (snd (meb_serial_console_init u answer dv))) = dv_diag dv"
  by (simp add: meb_serial_console_init_def Let_def)

definition boot_call :: "('c, 'n) platform \<Rightarrow> answers \<Rightarrow> diag_call" where
  "boot_call pf a = (pa_reading a AtEvent, Some ''system'', Some ''boot'',
     Some (snprintf MEB_DIAG_DETAIL_LEN (''reset='' @ meb_diag_reset_reason_name (pf_reset_reason pf))))"

definition logs_from_boot :: "('c, 'n) platform \<Rightarrow> answers \<Rightarrow> diag_state \<Rightarrow> bool" where
  "logs_from_boot pf a d \<longleftrightarrow> log_grows (diag_push (boot_call pf a) (diag_boot_state\<lparr>s_diag_lock := True\<rparr>)) d"

lemma diag_init_logs:
  "fst (meb_diag_init m (pa_reading a AtEvent) (pf_reset_reason pf) d) = ESP_OK \<Longrightarrow>
     logs_from_boot pf a (snd (meb_diag_init m (pa_reading a AtEvent) (pf_reset_reason pf) d))"
  by (auto simp: meb_diag_init_def logs_from_boot_def boot_call_def diag_boot_state_def diag_push_def meb_diag_record_eventf_def
      Let_def split: if_splits)

lemma logs_from_boot_grows: "logs_from_boot pf a d \<Longrightarrow> log_grows d d' \<Longrightarrow> logs_from_boot pf a d'"
  unfolding logs_from_boot_def by (rule grows_trans)

lemma boot_steps_log:
  "list_all (\<lambda>f. \<forall>s. logs_from_boot pf a (dv_diag (snd s)) \<longrightarrow> logs_from_boot pf a (dv_diag (snd (snd (f s)))))
     (tl (boot_steps pf opts b a))"
  by (auto simp: boot_steps_def split_beta Let_def serial_init_diag
      intro: logs_from_boot_grows [OF _ can_init_grows] logs_from_boot_grows [OF _ control_start_grows])

lemma boot_log:
  assumes "app_main pf opts b a (pm0, dv0) = (ESP_OK, pm, dv)"
  shows "logs_from_boot pf a (dv_diag dv)"
proof -
  let ?steps = "boot_steps pf opts b a"
  have ok: "fst (run_steps ?steps (pm0, dv0)) = ESP_OK"
    using assms by (auto simp: app_main_def Let_def split_beta split: if_splits)
  have steps: "?steps = hd ?steps # tl ?steps" by (simp add: boot_steps_def)
  obtain err pm1 dv1 where first: "hd ?steps (pm0, dv0) = (err, pm1, dv1)" by (rule prod_cases3)
  have "run_steps ?steps (pm0, dv0) = (if err \<noteq> ESP_OK then (err, pm1, dv1) else run_steps (tl ?steps) (pm1, dv1))"
    by (subst steps) (simp add: first)
  with ok have err: "err = ESP_OK" and rest: "run_steps ?steps (pm0, dv0) = run_steps (tl ?steps) (pm1, dv1)"
    by (auto split: if_splits)
  have "logs_from_boot pf a (dv_diag dv1)"
    using first err by (auto simp: boot_steps_def Let_def split_beta intro!: diag_init_logs)
  then have "logs_from_boot pf a (dv_diag (snd (snd (run_steps ?steps (pm0, dv0)))))"
    unfolding rest by (intro run_steps_inv [OF boot_steps_log]) simp
  moreover have "dv_grows dv' (meb_serial_printf a AtPrint parts (on_diag (meb_diag_record_event r c e x) dv'))"
    for dv' :: "('a, 'b) device" and parts r c e x
    by (rule grows_trans [OF _ printf_grows]) (simp add: on_diag_def)
  ultimately show ?thesis
    using assms logs_from_boot_grows by (auto simp: app_main_def Let_def split_beta split: if_splits) blast
qed



end
