(* ===== verification/Ota_Race.thy ===== *)
theory Ota_Race
  imports Ota_Update
begin

text \<open>
  Two tasks run console commands, one for the UART and one for BLE, and \<open>main/ota_update.c\<close> takes no
  lock. Here a write request is two steps, what the code does up to the call of the flash driver
  (which waits for the flash, so that the other task runs) and what it does afterwards. One task
  alone behaves as in \<open>Ota_Update\<close>; two tasks can install an image that was never announced.
\<close>

section \<open>A write in two steps\<close>

text \<open>
  The part up to \<open>esp_ota_write\<close>: its error, or the bytes that were handed to the flash driver.
\<close>

definition write_flash ::
    "ota_answers \<Rightarrow> u32 \<Rightarrow> string option \<Rightarrow> 'c ota_update_state \<Rightarrow> (esp_err + u8 list) \<times> ota_call list" where
  "write_flash an offset base64_data st =
     (if \<not> ota_active st then (Inl ESP_ERR_INVALID_STATE, [])
      else case base64_data of
        None \<Rightarrow> (Inl MEB_ERR_OTA_PROTOCOL, [])
      | Some b64 \<Rightarrow>
        if offset \<noteq> ota_written st then (Inl MEB_ERR_OTA_PROTOCOL, [])
        else if length b64 = 0 \<or> length b64 > MEB_OTA_MAX_BASE64_CHARS then (Inl ESP_ERR_INVALID_SIZE, [])
        else (case decode_base64 b64 (MEB_OTA_MAX_BASE64_CHARS div 4 * 3) of
          Inl err \<Rightarrow> (Inl err, [])
        | Inr decoded \<Rightarrow>
          if ota_written st + of_nat (length decoded) > ota_expected_size st then (Inl ESP_ERR_INVALID_SIZE, [])
          else let err = an_write an; call = OtaWrite (ota_handle st) decoded err in
          if err \<noteq> ESP_OK then (Inl err, [call]) else (Inr decoded, [call])))"

text \<open>The part after it, on the state as it is then.\<close>

definition write_account ::
    "'c sha_api \<Rightarrow> u8 list \<Rightarrow> 'c ota_update_state \<Rightarrow> esp_err \<times> u32 \<times> 'c ota_update_state" where
  "write_account api decoded st =
     (let (code, ctx) = tc_sha256_update api (ota_sha256_ctx st) decoded;
          st1 = st\<lparr>ota_sha256_ctx := ctx\<rparr> in
      if code \<noteq> 1 then (ESP_FAIL, 0, st1)
      else (ESP_OK, of_nat (length decoded), st1\<lparr>ota_written := ota_written st1 + of_nat (length decoded)\<rparr>))"

lemma write_in_two_steps:
  "meb_ota_update_write api an offset b64 st =
     (case write_flash an offset b64 st of
        (Inl err, calls) \<Rightarrow> (err, 0, st, calls)
      | (Inr decoded, calls) \<Rightarrow> (let (err, len, st1) = write_account api decoded st in (err, len, st1, calls)))"
  by (auto simp: meb_ota_update_write_def write_flash_def write_account_def Let_def split_beta
      split: option.split sum.split)

section \<open>Two tasks\<close>

text \<open>
  A task is idle or waits for the flash driver with the bytes it wrote. The state also has the calls
  of the flash driver so far and what the last request answered.
\<close>

datatype console_task = UartTask | BleTask

record 'c race_state =
  rc_ota :: "'c ota_update_state"
  rc_pending :: "console_task \<Rightarrow> u8 list option"
  rc_calls :: "ota_call list"

inductive race_step :: "'c sha_api \<Rightarrow> console_task \<Rightarrow> 'c race_state \<Rightarrow> 'c race_state \<Rightarrow> bool" for api :: "'c sha_api" where
  race_begin_write: "rc_pending s i = None \<Longrightarrow> write_flash an offset chunk_text (rc_ota s) = (out, calls) \<Longrightarrow>
    race_step api i s (s\<lparr>rc_pending := (rc_pending s)(i := (case out of Inl err \<Rightarrow> None | Inr decoded \<Rightarrow> Some decoded)),
      rc_calls := rc_calls s @ calls\<rparr>)"
| race_end_write: "rc_pending s i = Some decoded \<Longrightarrow> write_account api decoded (rc_ota s) = (err, len, st) \<Longrightarrow>
    race_step api i s (s\<lparr>rc_ota := st, rc_pending := (rc_pending s)(i := None)\<rparr>)"
| race_serve: "rc_pending s i = None \<Longrightarrow> flash_ok an \<Longrightarrow> req \<in> {ReqBegin n hex, ReqEnd, ReqCancel} \<Longrightarrow>
    ota_serve api (an, req) (rc_ota s) = ((err, len, calls), st) \<Longrightarrow>
    race_step api i s (s\<lparr>rc_ota := st, rc_calls := rc_calls s @ calls\<rparr>)"

inductive race_run :: "'c sha_api \<Rightarrow> console_task set \<Rightarrow> 'c race_state \<Rightarrow> 'c race_state \<Rightarrow> bool"
  for api :: "'c sha_api" and tasks :: "console_task set" where
  race_refl: "race_run api tasks s s"
| race_more: "race_run api tasks s s' \<Longrightarrow> race_step api i s' s'' \<Longrightarrow> i \<in> tasks \<Longrightarrow> race_run api tasks s s''"

definition race_boot :: "'c sha_api \<Rightarrow> 'c race_state" where
  "race_boot api = \<lparr>rc_ota = ota_zero api, rc_pending = (\<lambda>i. None), rc_calls = []\<rparr>"

section \<open>One task is safe\<close>

text \<open>
  With requests from one task only, the session is the abstract one, except that the flash may be
  ahead of it by the bytes of the write that is being served.
\<close>

definition single_inv ::
    "'c sha_api \<Rightarrow> ('c \<Rightarrow> u8 list \<Rightarrow> bool) \<Rightarrow> console_task \<Rightarrow> 'c race_state \<Rightarrow> session \<Rightarrow> bool" where
  "single_inv api absorbed i s se \<longleftrightarrow> (\<forall>j. j \<noteq> i \<longrightarrow> rc_pending s j = None) \<and> session_rel absorbed api (rc_ota s) se \<and>
     (case rc_pending s i of
        None \<Rightarrow> \<exists>ann. traced se (fold flash_after (rc_calls s) None) ann
      | Some decoded \<Rightarrow> \<exists>p h n digest img. se = Receiving p h n digest img
          \<and> fold flash_after (rc_calls s) None = Some (p, img @ decoded) \<and> length img + length decoded \<le> unat n \<and> length decoded \<le> 576)"

lemma write_flash_ok:
  assumes "session_rel absorbed api st se" and "write_flash an offset b64 st = (Inr decoded, calls)"
  shows "\<exists>p h n digest img. se = Receiving p h n digest img \<and> calls = [OtaWrite h decoded ESP_OK]
    \<and> length img + length decoded \<le> unat n \<and> length decoded \<le> 576"
proof -
  have active: "ota_active st" using assms(2) by (auto simp: write_flash_def split: if_splits)
  then obtain p h n digest img where se: "se = Receiving p h n digest img" using assms(1) by (cases se) auto
  obtain text' where t: "decode_base64 text' 576 = Inr decoded" and fits: "\<not> ota_written st + of_nat (length decoded) > ota_expected_size st"
    and calls: "calls = [OtaWrite (ota_handle st) decoded ESP_OK]"
    using assms(2) by (auto simp: write_flash_def MEB_OTA_MAX_BASE64_CHARS_def Let_def split: if_splits option.splits sum.splits)
  have len: "length decoded \<le> 576" using t by (rule decode_base64_length)
  have "unat (ota_written st + of_nat (length decoded)) = length img + length decoded"
    using assms(1) len unfolding se by (simp add: unat_word_ariths unat_of_nat)
  then show ?thesis using assms(1) se calls fits len by (auto simp: word_less_nat_alt)
qed

lemma write_account_sim:
  assumes law: "sha_lawful api absorbed H" and "session_rel absorbed api st (Receiving p h n digest img)"
    and "length img + length decoded \<le> unat n" and "length decoded \<le> 576"
  shows "session_rel absorbed api (snd (snd (write_account api decoded st))) (Receiving p h n digest (img @ decoded))"
proof -
  have "unat (ota_written st + of_nat (length decoded)) = length img + length decoded"
    using assms(2,4) by (simp add: unat_word_ariths unat_of_nat)
  moreover have "absorbed (ota_sha256_ctx st) img" using assms(2) by simp
  note sha_laws(2) [OF law this, of decoded]
  ultimately show ?thesis using assms(2,3) by (simp add: write_account_def Let_def split_beta)
qed

text \<open>A step of the one task keeps the invariant, and says what the flash calls it adds mean.\<close>

lemma single_step:
  assumes law: "sha_lawful api absorbed H" and inv: "single_inv api absorbed i s se" and "race_step api i s s'"
  shows "\<exists>se'. single_inv api absorbed i s' se'"
  using assms(3)
proof cases
  case (race_begin_write an offset b64 out calls)
  then obtain ann where tr: "traced se (fold flash_after (rc_calls s) None) ann" using inv by (auto simp: single_inv_def)
  show ?thesis
  proof (cases out)
    case (Inl err)
    then have "fold flash_after calls (fold flash_after (rc_calls s) None) = fold flash_after (rc_calls s) None"
      using race_begin_write(3) by (auto simp: write_flash_def Let_def split: if_splits option.splits sum.splits)
    then show ?thesis using inv race_begin_write Inl tr by (auto simp: single_inv_def)
  next
    case (Inr decoded)
    have rel: "session_rel absorbed api (rc_ota s) se" using inv by (simp add: single_inv_def)
    obtain p h n digest img where se: "se = Receiving p h n digest img" "calls = [OtaWrite h decoded ESP_OK]"
      "length img + length decoded \<le> unat n" "length decoded \<le> 576"
      using write_flash_ok [OF rel race_begin_write(3) [unfolded Inr]] by blast
    then have "single_inv api absorbed i s' se" using inv race_begin_write Inr tr by (auto simp: single_inv_def)
    then show ?thesis ..
  qed
next
  case (race_end_write decoded err len st)
  then obtain p h n digest img where se: "se = Receiving p h n digest img"
    and content: "fold flash_after (rc_calls s) None = Some (p, img @ decoded)"
    and len: "length img + length decoded \<le> unat n" "length decoded \<le> 576"
    and rel: "session_rel absorbed api (rc_ota s) (Receiving p h n digest img)"
    using inv by (auto simp: single_inv_def)
  have "session_rel absorbed api st (Receiving p h n digest (img @ decoded))"
    using write_account_sim [OF law rel len] race_end_write(3) by simp
  moreover have "traced (Receiving p h n digest (img @ decoded)) (fold flash_after (rc_calls s) None) (Some (n, digest))"
    using content by simp
  ultimately have "single_inv api absorbed i s' (Receiving p h n digest (img @ decoded))"
    using inv race_end_write by (auto simp: single_inv_def intro: exI [of _ "Some (n, digest)"])
  then show ?thesis ..
next
  case (race_serve an req n hex err len calls st)
  obtain ann where inv': "session_rel absorbed api (rc_ota s) se" "traced se (fold flash_after (rc_calls s) None) ann"
    using inv race_serve(2) by (auto simp: single_inv_def)
  have sim: "fst (ota_serve api (an, req) (rc_ota s)) = fst (spec_serve H (an, req) se)"
    "session_rel absorbed api (snd (ota_serve api (an, req) (rc_ota s))) (snd (spec_serve H (an, req) se))"
    using ota_refines.sim [of api absorbed H "rc_ota s" se "(an, req)"] law inv'(1) race_serve(3) by simp_all
  have "calls = snd (snd (fst (spec_serve H (an, req) se)))" using sim(1) race_serve(5) by (metis fst_conv snd_conv)
  with traced_step [OF inv'(2), of H "(an, req)"] have
    "traced (snd (spec_serve H (an, req) se)) (fold flash_after (rc_calls s') None) (announced ((an, req), fst (spec_serve H (an, req) se)) ann)"
    by (simp add: race_serve(1))
  then have "single_inv api absorbed i s' (snd (spec_serve H (an, req) se))"
    using inv sim(2) race_serve by (auto simp: single_inv_def)
  then show ?thesis by blast
qed

lemma single_run:
  assumes "race_run api tasks s0 s" and "sha_lawful api absorbed H" and "tasks = {i}" and "single_inv api absorbed i s0 se"
  shows "\<exists>se'. single_inv api absorbed i s se'"
  using assms by induction (blast dest: single_step)+

lemma single_boot: "single_inv api absorbed i (race_boot api) Idle"
  by (simp add: single_inv_def race_boot_def) (rule exI [of _ None], simp)



section \<open>Two tasks are not\<close>

definition bench_digest :: "string option" where
  "bench_digest = Some (hex_text True (plain_hash [65]))"

definition receiving_A :: "u8 list ota_update_state" where
  "receiving_A = snd (ota_serve plain_sha (good_flash, ReqBegin 1 bench_digest) (ota_zero plain_sha))"

definition received_A :: "u8 list ota_update_state" where
  "received_A = snd (snd (write_account plain_sha [65] receiving_A))"

lemma race_begins: "ota_serve plain_sha (good_flash, ReqBegin 1 bench_digest) (ota_zero plain_sha) =
    ((ESP_OK, 0, [OtaBegin \<lparr>part_label = ''ota_1'', part_size = 0x1E0000\<rparr> ESP_OK 1]), receiving_A)"
  by code_simp

lemma race_writes:
  "write_flash good_flash 0 (Some ''Qg=='') receiving_A = (Inr [66], [OtaWrite 1 [66] ESP_OK])"
  "write_flash good_flash 0 (Some ''QQ=='') receiving_A = (Inr [65], [OtaWrite 1 [65] ESP_OK])"
  "write_account plain_sha [65] receiving_A = (ESP_OK, 1, received_A)"
  by code_simp+

lemma race_ends: "ota_serve plain_sha (good_flash, ReqEnd) received_A =
    ((ESP_OK, 0, [OtaEnd 1 ESP_OK, SetBoot \<lparr>part_label = ''ota_1'', part_size = 0x1E0000\<rparr> ESP_OK]),
     snd (ota_serve plain_sha (good_flash, ReqEnd) received_A))"
proof (rule prod_eqI)
  show "fst (ota_serve plain_sha (good_flash, ReqEnd) received_A) =
      fst ((ESP_OK, 0, [OtaEnd 1 ESP_OK, SetBoot \<lparr>part_label = ''ota_1'', part_size = 0x1E0000\<rparr> ESP_OK]),
        snd (ota_serve plain_sha (good_flash, ReqEnd) received_A))"
    by code_simp
qed simp

definition race_trace :: "u8 list race_state list" where
  "race_trace =
     (let q = \<lparr>part_label = ''ota_1'', part_size = 0x1E0000\<rparr>;
          s0 = race_boot plain_sha;
          s1 = s0\<lparr>rc_ota := receiving_A, rc_calls := [OtaBegin q ESP_OK 1]\<rparr>;
          s2 = s1\<lparr>rc_pending := (rc_pending s1)(BleTask := Some [66]), rc_calls := rc_calls s1 @ [OtaWrite 1 [66] ESP_OK]\<rparr>;
          s3 = s2\<lparr>rc_pending := (rc_pending s2)(UartTask := Some [65]), rc_calls := rc_calls s2 @ [OtaWrite 1 [65] ESP_OK]\<rparr>;
          s4 = s3\<lparr>rc_ota := received_A, rc_pending := (rc_pending s3)(UartTask := None)\<rparr>;
          s5 = s4\<lparr>rc_ota := snd (ota_serve plain_sha (good_flash, ReqEnd) received_A),
                  rc_calls := rc_calls s4 @ [OtaEnd 1 ESP_OK, SetBoot q ESP_OK]\<rparr>
      in [s0, s1, s2, s3, s4, s5])"

lemma race_trace_steps:
  "race_step plain_sha UartTask (race_trace ! 0) (race_trace ! 1)"
  "race_step plain_sha BleTask (race_trace ! 1) (race_trace ! 2)"
  "race_step plain_sha UartTask (race_trace ! 2) (race_trace ! 3)"
  "race_step plain_sha UartTask (race_trace ! 3) (race_trace ! 4)"
  "race_step plain_sha UartTask (race_trace ! 4) (race_trace ! 5)"
proof -
  have ota_at_4: "rc_ota (race_trace ! 4) = received_A" by (simp add: race_trace_def Let_def)
  show "race_step plain_sha UartTask (race_trace ! 0) (race_trace ! 1)"
    using race_serve [of "race_trace ! 0" UartTask good_flash "ReqBegin 1 bench_digest" 1 bench_digest plain_sha] race_begins good_flash_ok
    by (simp add: race_trace_def race_boot_def Let_def del: ota_serve.simps)
  show "race_step plain_sha BleTask (race_trace ! 1) (race_trace ! 2)"
    using race_begin_write [where s = "race_trace ! 1" and i = BleTask and an = good_flash and offset = 0
        and chunk_text = "Some ''Qg==''" and out = "Inr [66]" and api = plain_sha] race_writes(1)
    by (simp add: race_trace_def race_boot_def Let_def)
  show "race_step plain_sha UartTask (race_trace ! 2) (race_trace ! 3)"
    using race_begin_write [where s = "race_trace ! 2" and i = UartTask and an = good_flash and offset = 0
        and chunk_text = "Some ''QQ==''" and out = "Inr [65]" and api = plain_sha] race_writes(2)
    by (simp add: race_trace_def race_boot_def Let_def)
  show "race_step plain_sha UartTask (race_trace ! 3) (race_trace ! 4)"
    using race_end_write [of "race_trace ! 3" UartTask "[65]" plain_sha] race_writes(3)
    by (simp add: race_trace_def race_boot_def Let_def)
  show "race_step plain_sha UartTask (race_trace ! 4) (race_trace ! 5)"
    using race_serve [OF _ good_flash_ok _ race_ends [folded ota_at_4], of UartTask] ota_at_4
    by (simp add: race_trace_def race_boot_def Let_def del: ota_serve.simps)
qed


lemma race_trace_run: "race_run plain_sha {UartTask, BleTask} (race_boot plain_sha) (race_trace ! 5)"
proof -
  have "race_trace ! 0 = race_boot plain_sha" by (simp add: race_trace_def Let_def)
  then have "race_run plain_sha {UartTask, BleTask} (race_boot plain_sha) (race_trace ! 0)" by (simp add: race_refl)
  then show ?thesis using race_trace_steps by (meson insertI1 insertI2 race_more)
qed


end
